(* ===== verification/Prelude.thy ===== *)
theory Prelude
  imports Complex_Main "HOL-Library.Word" "HOL-Library.AList"
begin

text \<open>
  Shared vocabulary of the development: Python's \<open>bytes\<close> as lists of 8-bit words, its
  \<open>str\<close> as lists of code points, the exceptions of \<open>adb_shell_wifi/exceptions.py\<close>
  together with the standard-library ones the code can meet, pure fallible
  computations (\<open>exn + 'a\<close>), stateful computations that may raise or not return
  (\<open>prog\<close>), their weakest preconditions, and generic lemmas on lists and
  association lists.
\<close>

section \<open>Collections of simplification rules\<close>

named_theorems wp_simps \<open>weakest preconditions of the program combinators\<close>
named_theorems keeps_intros \<open>programs that preserve an invariant\<close>
named_theorems ends_intros \<open>programs that end and preserve an invariant\<close>
named_theorems run_simps \<open>what a program combinator returns when it is run\<close>

section \<open>Bytes and strings\<close>

type_synonym byte = "8 word"
type_synonym bytes = "byte list"
type_synonym pystr = "nat list"

text \<open>An argument that is either.\<close>

datatype py_data = PyBytes bytes | PyStr pystr

text \<open>The literals \<open>b'...'\<close> and \<open>'...'\<close> of ASCII characters.\<close>

definition bytes_lit :: "string \<Rightarrow> bytes" where
  "bytes_lit s = map of_char s"

definition str_lit :: "string \<Rightarrow> pystr" where
  "str_lit s = map of_char s"

lemma length_bytes_lit [simp]: "length (bytes_lit s) = length s"
  by (simp add: bytes_lit_def)

lemma length_str_lit [simp]: "length (str_lit s) = length s"
  by (simp add: str_lit_def)

section \<open>Exceptions\<close>

text \<open>
  The classes of \<open>exceptions.py\<close> (with the data they carry where the code puts data
  in them), \<open>PairingException\<close> of \<open>pairing/connection.py\<close>, and the built-in and
  library exceptions the modelled code can raise. Message texts are not modelled.
\<close>

datatype exn =
    AdbCommandFailureException pystr
  | AdbConnectionError
  | AdbTimeoutError
  | DeviceAuthError
  | InvalidChecksumError int int
  | InvalidCommandError int
  | InvalidTransportError
  | InvalidResponseError
  | DevicePathInvalidError
  | PushFailedError "bytes option"
  | TcpTimeoutException
  | UsbDeviceNotFoundError
  | USBError
  | USBErrorTimeout
  | USBErrorNotFound
  | UsbReadFailedError "exn option"
  | UsbWriteFailedError "exn option"
  | PairingException
  | ValueError
  | KeyError
  | IndexError
  | OverflowError
  | ZeroDivisionError
  | TypeError
  | AttributeError
  | RuntimeError
  | AssertionError
  | StructError
  | QueueEmpty
  | UnicodeEncodeError
  | FileNotFoundError
  | OSError
  | BlockingIOError
  | SocketTimeout
  | SSLError
  | WantReadError
  | WantWriteError
  | ZeroReturnError
  | OpenSSLError
  | ForeignError string

text \<open>The subclasses of \<open>OSError\<close>.\<close>

definition os_error :: "exn \<Rightarrow> bool" where
  "os_error e \<longleftrightarrow> e \<in> {OSError, BlockingIOError, SocketTimeout, FileNotFoundError, SSLError}"

section \<open>Pure fallible computations\<close>

definition e_bind :: "exn + 'a \<Rightarrow> ('a \<Rightarrow> exn + 'b) \<Rightarrow> exn + 'b" where
  "e_bind m f = (case m of Inl e \<Rightarrow> Inl e | Inr x \<Rightarrow> f x)"

lemma e_bind_simps [simp]:
  "e_bind (Inl e) f = Inl e"
  "e_bind (Inr x) f = f x"
  by (simp_all add: e_bind_def)

lemma e_bind_eq_Inr: "e_bind m f = Inr y \<longleftrightarrow> (\<exists>x. m = Inr x \<and> f x = Inr y)"
  by (cases m) auto

lemma e_bind_eq_Inl: "e_bind m f = Inl e \<longleftrightarrow> m = Inl e \<or> (\<exists>x. m = Inr x \<and> f x = Inl e)"
  by (cases m) auto

text \<open>\<open>d[k]\<close> on a dictionary.\<close>

definition py_lookup :: "('k \<rightharpoonup> 'v) \<Rightarrow> 'k \<Rightarrow> exn + 'v" where
  "py_lookup m k = (case m k of None \<Rightarrow> Inl KeyError | Some v \<Rightarrow> Inr v)"

lemma py_lookup_eq_Inr [simp]: "py_lookup m k = Inr v \<longleftrightarrow> m k = Some v"
  by (simp add: py_lookup_def split: option.split)

lemma py_lookup_Some: "m k = Some v \<Longrightarrow> py_lookup m k = Inr v"
  by simp

lemma py_lookup_None: "m k = None \<Longrightarrow> py_lookup m k = Inl KeyError"
  by (simp add: py_lookup_def)

end
