(* ===== verification/IO_Monad.thy ===== *)
theory IO_Monad
  imports Prelude
begin

text \<open>
  Stateful computations that may raise an exception or not return: a function from the
  state to \<open>None\<close> (the loop of the source does not end) or to a result with the new
  state, where the result is \<open>Inl\<close> of the exception raised or \<open>Inr\<close> of the value
  returned. As in Python, the effects before an exception stay. The theory also holds the
  calculus of weakest preconditions that the proofs about such programs use, and the loop
  combinator \<open>io_loop\<close> with its rules for partial and total correctness.
\<close>

type_synonym ('s, 'a) prog = "'s \<Rightarrow> ((exn + 'a) \<times> 's) option"

section \<open>Combinators\<close>

definition io_return :: "'a \<Rightarrow> ('s, 'a) prog" where
  "io_return x s = Some (Inr x, s)"

definition io_raise :: "exn \<Rightarrow> ('s, 'a) prog" where
  "io_raise e s = Some (Inl e, s)"

definition io_bind :: "('s, 'a) prog \<Rightarrow> ('a \<Rightarrow> ('s, 'b) prog) \<Rightarrow> ('s, 'b) prog" where
  "io_bind m f s =
     (case m s of
        None \<Rightarrow> None
      | Some (r, s') \<Rightarrow> (case r of Inl e \<Rightarrow> Some (Inl e, s') | Inr x \<Rightarrow> f x s'))"

abbreviation io_then :: "('s, 'a) prog \<Rightarrow> ('s, 'b) prog \<Rightarrow> ('s, 'b) prog" where
  "io_then m k \<equiv> io_bind m (\<lambda>_. k)"

definition io_lift :: "exn + 'a \<Rightarrow> ('s, 'a) prog" where
  "io_lift r s = Some (r, s)"

definition io_gets :: "('s \<Rightarrow> 'a) \<Rightarrow> ('s, 'a) prog" where
  "io_gets f s = Some (Inr (f s), s)"

definition io_modify :: "('s \<Rightarrow> 's) \<Rightarrow> ('s, unit) prog" where
  "io_modify f s = Some (Inr (), f s)"

text \<open>A pure update of the state that also returns a value or raises.\<close>

definition io_state :: "('s \<Rightarrow> (exn + 'a) \<times> 's) \<Rightarrow> ('s, 'a) prog" where
  "io_state f s = Some (f s)"

text \<open>\<open>try: m finally: c\<close>, where an exception of \<open>c\<close> replaces the outcome of \<open>m\<close>.\<close>

definition io_finally :: "('s, 'a) prog \<Rightarrow> ('s, unit) prog \<Rightarrow> ('s, 'a) prog" where
  "io_finally m c s =
     (case m s of
        None \<Rightarrow> None
      | Some (r, s') \<Rightarrow>
          (case c s' of
             None \<Rightarrow> None
           | Some (rc, s'') \<Rightarrow>
               (case rc of Inl e \<Rightarrow> Some (Inl e, s'') | Inr _ \<Rightarrow> Some (r, s''))))"

text \<open>\<open>try: m except e: h e\<close>, the handler deciding which exceptions it takes.\<close>

definition io_catch :: "('s, 'a) prog \<Rightarrow> (exn \<Rightarrow> ('s, 'a) prog) \<Rightarrow> ('s, 'a) prog" where
  "io_catch m h s =
     (case m s of
        None \<Rightarrow> None
      | Some (r, s') \<Rightarrow> (case r of Inl e \<Rightarrow> h e s' | Inr x \<Rightarrow> Some (Inr x, s')))"

text \<open>A computation on a component of the state, given by its selector and its update.\<close>

definition io_zoom :: "('s \<Rightarrow> 't) \<Rightarrow> ('t \<Rightarrow> 's \<Rightarrow> 's) \<Rightarrow> ('t, 'a) prog \<Rightarrow> ('s, 'a) prog" where
  "io_zoom get put m s =
     (case m (get s) of None \<Rightarrow> None | Some (r, t) \<Rightarrow> Some (r, put t s))"

lemmas io_defs = io_return_def io_raise_def io_bind_def io_lift_def io_gets_def
  io_modify_def io_state_def io_finally_def io_catch_def io_zoom_def

section \<open>Monad laws\<close>

lemma io_bind_return [simp]: "io_bind (io_return x) f = f x"
  by (rule ext) (simp add: io_defs)

lemma io_bind_raise [simp]: "io_bind (io_raise e) f = io_raise e"
  by (rule ext) (simp add: io_defs)

lemma io_bind_return_right [simp]: "io_bind m io_return = m"
  by (rule ext) (simp add: io_defs split: option.split prod.split sum.split)

lemma io_bind_assoc: "io_bind (io_bind m f) g = io_bind m (\<lambda>x. io_bind (f x) g)"
  by (rule ext) (simp add: io_defs split: option.split prod.split sum.split)

lemma io_lift_Inr [simp]: "io_lift (Inr x) = io_return x"
  by (rule ext) (simp add: io_defs)

lemma io_lift_Inl [simp]: "io_lift (Inl e) = io_raise e"
  by (rule ext) (simp add: io_defs)

section \<open>Running a program\<close>

lemma io_bind_eq_Some:
  "io_bind m f s = Some (r, s') \<longleftrightarrow>
     (\<exists>e. m s = Some (Inl e, s') \<and> r = Inl e) \<or>
     (\<exists>x s1. m s = Some (Inr x, s1) \<and> f x s1 = Some (r, s'))"
  by (auto simp: io_bind_def split: option.splits sum.splits)

lemma io_bind_eq_Inr:
  "io_bind m f s = Some (Inr y, s') \<longleftrightarrow>
     (\<exists>x s1. m s = Some (Inr x, s1) \<and> f x s1 = Some (Inr y, s'))"
  by (auto simp: io_bind_eq_Some)

lemma run_bind [run_simps]:
  "m s = Some (Inr x, s1) \<Longrightarrow> io_bind m f s = f x s1"
  "m s = Some (Inl e, s1) \<Longrightarrow> io_bind m f s = Some (Inl e, s1)"
  "m s = None \<Longrightarrow> io_bind m f s = None"
  by (simp_all add: io_bind_def)

lemma run_prims [run_simps]:
  "io_return x s = Some (Inr x, s)"
  "io_raise e s = Some (Inl e, s)"
  "io_lift r s = Some (r, s)"
  "io_gets g s = Some (Inr (g s), s)"
  "io_modify h s = Some (Inr (), h s)"
  "io_state k s = Some (k s)"
  by (simp_all add: io_defs)

lemma run_zoom [run_simps]:
  "m (get s) = Some (r, t) \<Longrightarrow> io_zoom get put m s = Some (r, put t s)"
  by (simp add: io_zoom_def)

section \<open>Weakest preconditions\<close>

text \<open>
  \<open>wp t m Q E s\<close>: run from \<open>s\<close>, the program \<open>m\<close> ends in a state that satisfies
  \<open>Q x\<close> if it returns \<open>x\<close> and \<open>E e\<close> if it raises \<open>e\<close>; with \<open>t\<close> it also has to
  end (total correctness), without it need not (partial correctness).
\<close>

definition wp :: "bool \<Rightarrow> ('s, 'a) prog \<Rightarrow> ('a \<Rightarrow> 's \<Rightarrow> bool) \<Rightarrow> (exn \<Rightarrow> 's \<Rightarrow> bool) \<Rightarrow> 's \<Rightarrow> bool" where
  "wp t m Q E s =
     (case m s of
        None \<Rightarrow> \<not> t
      | Some (r, s') \<Rightarrow> (case r of Inl e \<Rightarrow> E e s' | Inr x \<Rightarrow> Q x s'))"

lemma wp_return [wp_simps]: "wp t (io_return x) Q E s = Q x s"
  by (simp add: wp_def io_defs)

lemma wp_raise [wp_simps]: "wp t (io_raise e) Q E s = E e s"
  by (simp add: wp_def io_defs)

lemma wp_bind [wp_simps]: "wp t (io_bind m f) Q E s = wp t m (\<lambda>x. wp t (f x) Q E) E s"
  by (simp add: wp_def io_defs split: option.split prod.split sum.split)

lemma wp_lift [wp_simps]:
  "wp t (io_lift r) Q E s = (case r of Inl e \<Rightarrow> E e s | Inr x \<Rightarrow> Q x s)"
  by (simp add: wp_def io_defs)

lemma wp_gets [wp_simps]: "wp t (io_gets f) Q E s = Q (f s) s"
  by (simp add: wp_def io_defs)

lemma wp_modify [wp_simps]: "wp t (io_modify f) Q E s = Q () (f s)"
  by (simp add: wp_def io_defs)

lemma wp_state [wp_simps]:
  "wp t (io_state f) Q E s =
     (case f s of (r, s') \<Rightarrow> (case r of Inl e \<Rightarrow> E e s' | Inr x \<Rightarrow> Q x s'))"
  by (simp add: wp_def io_defs)

lemma wp_finally [wp_simps]:
  "wp t (io_finally m c) Q E s =
     wp t m (\<lambda>x. wp t c (\<lambda>_. Q x) E) (\<lambda>e. wp t c (\<lambda>_. E e) E) s"
  by (simp add: wp_def io_defs split: option.split prod.split sum.split)

lemma wp_catch [wp_simps]:
  "wp t (io_catch m h) Q E s = wp t m Q (\<lambda>e. wp t (h e) Q E) s"
  by (simp add: wp_def io_defs split: option.split prod.split sum.split)

lemma wp_zoom [wp_simps]:
  "wp t (io_zoom get put m) Q E s =
     wp t m (\<lambda>x t'. Q x (put t' s)) (\<lambda>e t'. E e (put t' s)) (get s)"
  by (simp add: wp_def io_defs split: option.split prod.split sum.split)

lemma wp_if [wp_simps]:
  "wp t (if b then m else m') Q E s = (if b then wp t m Q E s else wp t m' Q E s)"
  by simp

lemma wp_case_prod [wp_simps]:
  "wp t (case p of (a, b) \<Rightarrow> m a b) Q E s = (case p of (a, b) \<Rightarrow> wp t (m a b) Q E s)"
  by (simp split: prod.split)

lemma wp_case_option [wp_simps]:
  "wp t (case p of None \<Rightarrow> m | Some a \<Rightarrow> m' a) Q E s =
     (case p of None \<Rightarrow> wp t m Q E s | Some a \<Rightarrow> wp t (m' a) Q E s)"
  by (simp split: option.split)

lemma wp_mono:
  assumes "wp t m Q E s"
    and "\<And>x s'. Q x s' \<Longrightarrow> Q' x s'" and "\<And>e s'. E e s' \<Longrightarrow> E' e s'"
  shows "wp t m Q' E' s"
  using assms by (auto simp: wp_def split: option.splits prod.splits sum.splits)

lemma wp_conj:
  "wp t m Q E s \<Longrightarrow> wp t m Q' E' s \<Longrightarrow>
     wp t m (\<lambda>x s'. Q x s' \<and> Q' x s') (\<lambda>e s'. E e s' \<and> E' e s') s"
  by (auto simp: wp_def split: option.splits prod.splits sum.splits)

text \<open>Total correctness splits into partial correctness and termination.\<close>

lemma wp_total_iff: "wp True m Q E s \<longleftrightarrow> wp False m Q E s \<and> (\<exists>r. m s = Some r)"
  by (auto simp: wp_def split: option.splits)

lemma wp_weaken: "wp t m Q E s \<Longrightarrow> wp False m Q E s"
  by (auto simp: wp_def split: option.splits)

lemma wp_returned:
  "wp t m Q E s \<Longrightarrow> m s = Some (Inr x, s') \<Longrightarrow> Q x s'"
  by (simp add: wp_def)

lemma wp_raised:
  "wp t m Q E s \<Longrightarrow> m s = Some (Inl e, s') \<Longrightarrow> E e s'"
  by (simp add: wp_def)

lemma run_result: "map_option fst x = Some r \<Longrightarrow> \<exists>d'. x = Some (r, d')"
  by auto

lemma wp_totalD: "wp True m Q E s \<Longrightarrow> \<exists>r s'. m s = Some (r, s')"
  by (auto simp: wp_def split: option.splits)

lemma wp_trivial [simp]: "wp False m (\<lambda>_ _. True) (\<lambda>_ _. True) s"
  by (auto simp: wp_def split: option.split sum.split)

lemma wp_partialI:
  assumes "\<And>x s'. m s = Some (Inr x, s') \<Longrightarrow> Q x s'"
    and "\<And>e s'. m s = Some (Inl e, s') \<Longrightarrow> E e s'"
  shows "wp False m Q E s"
  using assms by (auto simp: wp_def split: option.splits prod.splits sum.splits)

text \<open>What the program did is known afterwards.\<close>

lemma wp_run: "wp False m (\<lambda>x s'. m s = Some (Inr x, s')) (\<lambda>e s'. m s = Some (Inl e, s')) s"
  by (rule wp_partialI)

lemma wp_and_run:
  "wp t m Q E s \<Longrightarrow>
     wp t m (\<lambda>x s'. Q x s' \<and> m s = Some (Inr x, s')) (\<lambda>e s'. E e s' \<and> m s = Some (Inl e, s')) s"
  by (auto simp: wp_def split: option.splits prod.splits sum.splits)

section \<open>Loops\<close>

text \<open>
  \<open>while True\<close> with its loop variables: one run of the body either goes round again with
  new values of the variables (\<open>Continue\<close>) or leaves the loop with a result (\<open>Break\<close>). The
  loop that never leaves is \<open>None\<close>.
\<close>

datatype ('a, 'b) loop_ctl = Continue 'a | Break 'b

partial_function (option) io_loop ::
  "('a \<Rightarrow> ('s, ('a, 'b) loop_ctl) prog) \<Rightarrow> 'a \<Rightarrow> 's \<Rightarrow> ((exn + 'b) \<times> 's) option" where
  "io_loop body a s =
     (case body a s of
        None \<Rightarrow> None
      | Some (r, s') \<Rightarrow>
          (case r of
             Inl e \<Rightarrow> Some (Inl e, s')
           | Inr c \<Rightarrow> (case c of Continue a' \<Rightarrow> io_loop body a' s' | Break b \<Rightarrow> Some (Inr b, s'))))"

declare io_loop.simps [code]

lemma io_loop_unfold:
  "io_loop body a = io_bind (body a) (\<lambda>c. case c of Continue a' \<Rightarrow> io_loop body a' | Break b \<Rightarrow> io_return b)"
  by (rule ext) (subst io_loop.simps,
    auto simp: io_bind_def io_return_def split: option.split sum.split loop_ctl.split)

text \<open>What the loop returns or raises satisfies whatever an invariant of the body implies.\<close>

definition loop_post ::
  "('a \<Rightarrow> 's \<Rightarrow> bool) \<Rightarrow> ('b \<Rightarrow> 's \<Rightarrow> bool) \<Rightarrow> ('a, 'b) loop_ctl \<Rightarrow> 's \<Rightarrow> bool" where
  "loop_post I Q c s = (case c of Continue a \<Rightarrow> I a s | Break b \<Rightarrow> Q b s)"

lemma loop_post_simps [simp]:
  "loop_post I Q (Continue a) = I a"
  "loop_post I Q (Break b) = Q b"
  by (auto simp: loop_post_def)

lemma loop_partial:
  assumes step: "\<And>a s. I a s \<Longrightarrow> wp False (body a) (loop_post I Q) E s"
    and init: "I a s"
  shows "wp False (io_loop body a) Q E s"
proof -
  have *: "b = body \<Longrightarrow> I a s \<Longrightarrow> (case r of (Inl e, s') \<Rightarrow> E e s' | (Inr x, s') \<Rightarrow> Q x s')"
    if "io_loop b a s = Some r" for b a s r
    using that
  proof (rule io_loop.raw_induct [where P = "\<lambda>b a s r. b = body \<longrightarrow> I a s \<longrightarrow>
      (case r of (Inl e, s') \<Rightarrow> E e s' | (Inr x, s') \<Rightarrow> Q x s')", THEN mp, THEN mp, rotated 1])
    fix loop b a s r
    assume IH: "\<And>b a s r. loop b a s = Some r \<Longrightarrow> b = body \<longrightarrow> I a s \<longrightarrow>
        (case r of (Inl e, s') \<Rightarrow> E e s' | (Inr x, s') \<Rightarrow> Q x s')"
      and eq: "(case b a s of
          None \<Rightarrow> None
        | Some (r, s') \<Rightarrow>
            (case r of
               Inl e \<Rightarrow> Some (Inl e, s')
             | Inr c \<Rightarrow> (case c of Continue a' \<Rightarrow> loop b a' s' | Break b \<Rightarrow> Some (Inr b, s')))) = Some r"
    show "b = body \<longrightarrow> I a s \<longrightarrow> (case r of (Inl e, s') \<Rightarrow> E e s' | (Inr x, s') \<Rightarrow> Q x s')"
    proof (intro impI)
      assume "b = body" "I a s"
      with step [OF \<open>I a s\<close>] eq IH show "case r of (Inl e, s') \<Rightarrow> E e s' | (Inr x, s') \<Rightarrow> Q x s'"
        by (fastforce simp: wp_def split: option.splits prod.splits sum.splits loop_ctl.splits)
    qed
  qed
  show ?thesis
    by (rule wp_partialI) (use * [OF _ refl init] in fastforce)+
qed

text \<open>A loop ends if a natural number decreases from one round to the next.\<close>

lemma loop_total:
  fixes \<mu> :: "'a \<Rightarrow> 's \<Rightarrow> nat"
  assumes step: "\<And>a s. I a s \<Longrightarrow>
      wp True (body a) (loop_post (\<lambda>a' s'. I a' s' \<and> \<mu> a' s' < \<mu> a s) Q) E s"
    and init: "I a s"
  shows "wp True (io_loop body a) Q E s"
  using init
proof (induction "\<mu> a s" arbitrary: a s rule: less_induct)
  case less
  have "wp True (body a) (\<lambda>c. wp True (case c of Continue a' \<Rightarrow> io_loop body a' | Break b \<Rightarrow> io_return b) Q E) E s"
    by (rule wp_mono [OF step [OF less.prems]])
      (auto simp: wp_simps less.hyps split: loop_ctl.split)
  then show ?case by (subst io_loop_unfold) (simp add: wp_simps)
qed

section \<open>Invariants\<close>

text \<open>\<open>J\<close> holds after \<open>p\<close>, however it ends, if it holds before.\<close>

definition keeps :: "('s \<Rightarrow> bool) \<Rightarrow> ('s, 'a) prog \<Rightarrow> bool" where
  "keeps J p \<longleftrightarrow> (\<forall>s. J s \<longrightarrow> wp False p (\<lambda>_. J) (\<lambda>_. J) s)"

lemma keepsI: "(\<And>s. J s \<Longrightarrow> wp False p (\<lambda>_. J) (\<lambda>_. J) s) \<Longrightarrow> keeps J p"
  by (simp add: keeps_def)

lemma keepsD: "keeps J p \<Longrightarrow> J s \<Longrightarrow> wp False p (\<lambda>_. J) (\<lambda>_. J) s"
  by (simp add: keeps_def)

lemma keeps_run: "keeps J p \<Longrightarrow> J s \<Longrightarrow> p s = Some (r, s') \<Longrightarrow> J s'"
  by (auto simp: keeps_def wp_def split: option.splits prod.splits sum.splits)

lemma keeps_prims [keeps_intros]:
  "keeps J (io_return x)" "keeps J (io_raise e)" "keeps J (io_lift r)" "keeps J (io_gets f)"
  by (auto simp: keeps_def wp_simps split: sum.split)

lemma keeps_modify [keeps_intros]: "(\<And>s. J s \<Longrightarrow> J (f s)) \<Longrightarrow> keeps J (io_modify f)"
  by (simp add: keeps_def wp_simps)

lemma keeps_bind [keeps_intros]:
  assumes "keeps J p" and "\<And>x. keeps J (f x)"
  shows "keeps J (io_bind p f)"
  using assms unfolding keeps_def wp_bind by (blast intro: wp_mono)

lemma keeps_finally [keeps_intros]:
  assumes "keeps J p" and "keeps J c"
  shows "keeps J (io_finally p c)"
  using assms unfolding keeps_def wp_finally by (blast intro: wp_mono)

lemma keeps_catch [keeps_intros]:
  assumes "keeps J p" and "\<And>e. keeps J (h e)"
  shows "keeps J (io_catch p h)"
  using assms unfolding keeps_def wp_catch by (blast intro: wp_mono)

lemma loop_post_same [simp]: "loop_post (\<lambda>_. J) (\<lambda>_. J) = (\<lambda>_. J)"
  by (intro ext) (simp add: loop_post_def split: loop_ctl.split)

lemma keeps_loop [keeps_intros]:
  assumes "\<And>a. keeps J (body a)"
  shows "keeps J (io_loop body a)"
proof (rule keepsI)
  fix s assume "J s"
  then show "wp False (io_loop body a) (\<lambda>_. J) (\<lambda>_. J) s"
    using assms by (intro loop_partial [where I = "\<lambda>_. J"]) (simp_all add: keeps_def)
qed

lemma keeps_zoom:
  assumes "\<And>t s. J s \<Longrightarrow> J (put t s)"
  shows "keeps J (io_zoom get put p)"
  unfolding keeps_def wp_zoom using assms by (auto simp: wp_def split: option.split prod.split sum.split)

lemma keeps_if [keeps_intros]: "keeps J p \<Longrightarrow> keeps J q \<Longrightarrow> keeps J (if b then p else q)"
  by simp

lemma keeps_case_prod [keeps_intros]: "(\<And>a b. keeps J (p a b)) \<Longrightarrow> keeps J (case x of (a, b) \<Rightarrow> p a b)"
  by (cases x) simp

lemma keeps_case_prod_app [keeps_intros]:
  "(\<And>a b. keeps J (p a b y)) \<Longrightarrow> keeps J ((case x of (a, b) \<Rightarrow> p a b) y)"
  by (cases x) simp

lemma keeps_Let [keeps_intros]: "(\<And>x. keeps J (p x)) \<Longrightarrow> keeps J (let x = v in p x)"
  by simp

lemma keeps_case_option [keeps_intros]:
  "keeps J p \<Longrightarrow> (\<And>a. keeps J (q a)) \<Longrightarrow> keeps J (case x of None \<Rightarrow> p | Some a \<Rightarrow> q a)"
  by (cases x) simp_all

lemma keeps_case_loop_ctl [keeps_intros]:
  "(\<And>a. keeps J (p a)) \<Longrightarrow> (\<And>b. keeps J (q b)) \<Longrightarrow>
     keeps J (case x of Continue a \<Rightarrow> p a | Break b \<Rightarrow> q b)"
  by (cases x) simp_all

lemma keeps_case_list [keeps_intros]:
  "keeps J p \<Longrightarrow> (\<And>a as. keeps J (q a as)) \<Longrightarrow> keeps J (case x of [] \<Rightarrow> p | a # as \<Rightarrow> q a as)"
  by (cases x) simp_all

section \<open>Ending\<close>

text \<open>Started where \<open>J\<close> holds, \<open>p\<close> ends, and \<open>J\<close> holds afterwards.\<close>

definition ends_in :: "('s \<Rightarrow> bool) \<Rightarrow> ('s, 'a) prog \<Rightarrow> bool" where
  "ends_in J p \<longleftrightarrow> (\<forall>s. J s \<longrightarrow> wp True p (\<lambda>_. J) (\<lambda>_. J) s)"

lemma ends_inD: "ends_in J p \<Longrightarrow> J s \<Longrightarrow> wp True p (\<lambda>_. J) (\<lambda>_. J) s"
  by (simp add: ends_in_def)

lemma ends_in_prims [ends_intros]:
  "ends_in J (io_return x)" "ends_in J (io_raise e)" "ends_in J (io_lift r)" "ends_in J (io_gets f)"
  by (auto simp: ends_in_def wp_simps split: sum.split)

lemma ends_in_bind [ends_intros]:
  assumes "ends_in J p" and "\<And>x. ends_in J (f x)"
  shows "ends_in J (io_bind p f)"
  using assms unfolding ends_in_def wp_bind by (blast intro: wp_mono)

lemma ends_in_finally [ends_intros]:
  assumes "ends_in J p" and "ends_in J c"
  shows "ends_in J (io_finally p c)"
  using assms unfolding ends_in_def wp_finally by (blast intro: wp_mono)

lemma ends_in_catch [ends_intros]:
  assumes "ends_in J p" and "\<And>e. ends_in J (h e)"
  shows "ends_in J (io_catch p h)"
  using assms unfolding ends_in_def wp_catch by (blast intro: wp_mono)

lemma ends_in_if [ends_intros]: "ends_in J p \<Longrightarrow> ends_in J q \<Longrightarrow> ends_in J (if b then p else q)"
  by simp

lemma ends_in_case_prod [ends_intros]:
  "(\<And>a b. ends_in J (p a b)) \<Longrightarrow> ends_in J (case x of (a, b) \<Rightarrow> p a b)"
  by (cases x) simp

lemma ends_in_case_option [ends_intros]:
  "ends_in J p \<Longrightarrow> (\<And>a. ends_in J (q a)) \<Longrightarrow> ends_in J (case x of None \<Rightarrow> p | Some a \<Rightarrow> q a)"
  by (cases x) simp_all

lemma ends_in_case_sum [ends_intros]:
  "(\<And>a. ends_in J (p a)) \<Longrightarrow> (\<And>b. ends_in J (q b)) \<Longrightarrow>
     ends_in J (case x of Inl a \<Rightarrow> p a | Inr b \<Rightarrow> q b)"
  by (cases x) simp_all

lemma ends_in_case_list [ends_intros]:
  "ends_in J p \<Longrightarrow> (\<And>a as. ends_in J (q a as)) \<Longrightarrow> ends_in J (case x of [] \<Rightarrow> p | a # as \<Rightarrow> q a as)"
  by (cases x) simp_all

lemma ends_in_modify [ends_intros]: "(\<And>s. J s \<Longrightarrow> J (f s)) \<Longrightarrow> ends_in J (io_modify f)"
  by (simp add: ends_in_def wp_simps)

lemma ends_in_Let [ends_intros]: "(\<And>x. ends_in J (p x)) \<Longrightarrow> ends_in J (let x = v in p x)"
  by simp

end
