(* ===== verification/Transport.thy ===== *)
theory Transport
  imports IO_Monad
begin

text \<open>
  The transport interface of \<open>adb_shell_wifi/transport/base_transport.py\<close>: a record of
  the four abstract methods, of \<open>tls_upgrade\<close> where the transport has one (\<open>hasattr\<close> in
  the source), and of the clock \<open>time.time\<close>, all over a type \<open>'w\<close> of states of the
  transport and of the world behind it. The I/O manager is written against this record.

  The locale \<open>byte_transport\<close> states what the manager relies on: what a transport reads
  is a prefix of the bytes the device sent, at most as long as asked for, and what it
  writes reaches the device in order.
\<close>

record 'w transport =
  tr_close :: "('w, unit) prog"
  tr_connect :: "rat option \<Rightarrow> ('w, unit) prog"
  tr_bulk_read :: "int \<Rightarrow> rat option \<Rightarrow> ('w, bytes) prog"
  tr_bulk_write :: "bytes \<Rightarrow> rat option \<Rightarrow> ('w, int) prog"
  tr_tls_upgrade :: "(bytes \<Rightarrow> bytes \<Rightarrow> ('w, unit) prog) option"
  tr_time :: "('w, rat) prog"

text \<open>
  The rest of what the code asks of its host: the host name, the local file system, and
  the file objects (opened files or the caller's \<open>BytesIO\<close>), whose contents and positions
  are part of the world.
\<close>

record 'w stream =
  st_read :: "int \<Rightarrow> ('w, bytes) prog"
  st_write :: "bytes \<Rightarrow> ('w, unit) prog"
  st_fstat_size :: "('w, int) prog"
  st_close :: "('w, unit) prog"

record 'w host = "'w transport" +
  gethostname :: "('w, pystr) prog"
  path_isdir :: "pystr \<Rightarrow> ('w, bool) prog"
  path_listdir :: "pystr \<Rightarrow> ('w, pystr list) prog"
  open_rb :: "pystr \<Rightarrow> ('w, 'w stream) prog"
  open_wb :: "pystr \<Rightarrow> ('w, 'w stream) prog"

text \<open>The exceptions that say that the bytes received are not a packet.\<close>

definition malformed :: "exn \<Rightarrow> bool" where
  "malformed e \<longleftrightarrow> (\<exists>c. e = InvalidCommandError c) \<or> (\<exists>x y. e = InvalidChecksumError x y)"

text \<open>
  \<open>inp w\<close>: what the device has sent and the transport has not returned yet; \<open>out w\<close>:
  what the transport has passed to the device. A failed read loses nothing, a failed write may
  have passed on a part, and reading does not raise what the manager raises for malformed packets.
\<close>

lemma write_clean:
  "wp False p Q (\<lambda>_ w'. out w' = out w \<and> inp w' = inp w) w \<Longrightarrow>
     wp False p Q (\<lambda>_ w'. (\<exists>k. out w' = out w @ take k d) \<and> inp w' = inp w) w"
  by (erule wp_mono) (auto intro: exI [of _ 0])

locale byte_transport =
  fixes T :: "('w, 'm) transport_scheme"
    and inp :: "'w \<Rightarrow> bytes"
    and out :: "'w \<Rightarrow> bytes"
  assumes read_law: "0 < n \<Longrightarrow> wp False (tr_bulk_read T n t)
      (\<lambda>d w'. int (length d) \<le> n \<and> inp w = d @ inp w' \<and> out w' = out w)
      (\<lambda>e w'. inp w' = inp w \<and> out w' = out w \<and> \<not> malformed e) w"
    and write_law: "wp False (tr_bulk_write T d t)
      (\<lambda>k w'. 0 \<le> k \<and> k \<le> int (length d) \<and> out w' = out w @ take (nat k) d \<and> inp w' = inp w)
      (\<lambda>e w'. (\<exists>k. out w' = out w @ take k d) \<and> inp w' = inp w) w"
    and time_law: "wp False (tr_time T)
      (\<lambda>_ w'. inp w' = inp w \<and> out w' = out w) (\<lambda>_ _. False) w"

text \<open>
  A transport whose writes are not partial as long as \<open>roomy\<close> holds, which reading and
  writing do not change.
\<close>

locale full_write_transport = byte_transport +
  fixes roomy :: "'a \<Rightarrow> bool"
  assumes room_write: "roomy w \<Longrightarrow>
      wp False (tr_bulk_write T d t) (\<lambda>k w'. k = int (length d) \<and> roomy w') (\<lambda>_ w'. roomy w') w"
    and room_read: "roomy w \<Longrightarrow>
      wp False (tr_bulk_read T n t) (\<lambda>_ w'. roomy w') (\<lambda>_ w'. roomy w') w"
    and room_time: "roomy w \<Longrightarrow> wp False (tr_time T) (\<lambda>_ w'. roomy w') (\<lambda>_ w'. roomy w') w"

text \<open>A write that fails has passed on nothing.\<close>

locale clean_write_transport = full_write_transport +
  assumes failed_write: "wp False (tr_bulk_write T d t) (\<lambda>_ _. True) (\<lambda>_ w'. out w' = out w) w"

text \<open>The transport of a host.\<close>

locale device_host = full_write_transport H inp out roomy
  for H :: "('w, 'm) host_scheme" and inp out :: "'w \<Rightarrow> bytes" and roomy :: "'w \<Rightarrow> bool"

text \<open>A call that leaves the connection alone.\<close>

definition quiet ::
  "('w \<Rightarrow> bytes) \<Rightarrow> ('w \<Rightarrow> bytes) \<Rightarrow> ('w \<Rightarrow> bool) \<Rightarrow> ('w, 'a) prog \<Rightarrow> bool" where
  "quiet inp out roomy p \<longleftrightarrow>
     (\<forall>w. wp False p (\<lambda>_ w'. inp w' = inp w \<and> out w' = out w \<and> roomy w' = roomy w) (\<lambda>_ _. True) w)"

text \<open>What the transport's calls keep.\<close>

definition calls_keep :: "('w, 'x) transport_scheme \<Rightarrow> ('w \<Rightarrow> bool) \<Rightarrow> bool" where
  "calls_keep T W \<longleftrightarrow> (\<forall>n t. keeps W (tr_bulk_read T n t)) \<and> (\<forall>d t. keeps W (tr_bulk_write T d t)) \<and>
     keeps W (tr_time T)"

text \<open>
  A file that is written, and what has been written to it; a file that is read, and what
  remains to be read. Neither has to do with the connection.
\<close>

locale file_sink = device_host +
  fixes sink :: "'a stream" and content :: "'a \<Rightarrow> bytes"
  assumes write_content: "wp False (st_write sink d) (\<lambda>_ w'. content w' = content w @ d) (\<lambda>_ _. True) w"
    and write_quiet: "quiet inp out roomy (st_write sink d)"
    and content_kept: "calls_keep H (\<lambda>w. content w = c)"

locale file_source = device_host +
  fixes source :: "'a stream" and remaining :: "'a \<Rightarrow> bytes"
  assumes read_remaining: "0 < n \<Longrightarrow> wp False (st_read source n)
      (\<lambda>d w'. remaining w = d @ remaining w' \<and> int (length d) \<le> n \<and> (d = [] \<longrightarrow> remaining w = []))
      (\<lambda>_ _. True) w"
    and read_quiet: "quiet inp out roomy (st_read source n)"
    and remaining_kept: "calls_keep H (\<lambda>w. remaining w = c)"

text \<open>
  A transport on which waiting ends: with a finite timeout every call returns, the clock
  never goes back, and it advances by at least \<open>tick\<close> whenever it is read.
\<close>

locale live_transport =
  fixes T :: "('w, 'm) transport_scheme"
    and clock :: "'w \<Rightarrow> rat"
    and tick :: rat
  assumes tick_pos: "0 < tick"
    and read_live: "wp True (tr_bulk_read T n (Some t))
      (\<lambda>_ w'. clock w \<le> clock w') (\<lambda>_ w'. clock w \<le> clock w') w"
    and write_live: "wp True (tr_bulk_write T d (Some t))
      (\<lambda>_ w'. clock w \<le> clock w') (\<lambda>_ w'. clock w \<le> clock w') w"
    and time_live: "wp True (tr_time T)
      (\<lambda>now w'. now = clock w \<and> clock w + tick \<le> clock w') (\<lambda>_ _. False) w"
    and close_live: "wp True (tr_close T)
      (\<lambda>_ w'. clock w \<le> clock w') (\<lambda>_ w'. clock w \<le> clock w') w"
    and connect_live: "wp True (tr_connect T (Some t))
      (\<lambda>_ w'. clock w \<le> clock w') (\<lambda>_ w'. clock w \<le> clock w') w"
    and upgrade_live: "tr_tls_upgrade T = Some upgrade \<Longrightarrow> wp True (upgrade cert_pem key_pem)
      (\<lambda>_ w'. clock w \<le> clock w') (\<lambda>_ w'. clock w \<le> clock w') w"

text \<open>Both: waiting ends and no byte is lost.\<close>

locale timed_byte_transport = byte_transport T inp out + live_transport T clock tick
  for T :: "('w, 'm) transport_scheme" and inp out :: "'w \<Rightarrow> bytes"
    and clock :: "'w \<Rightarrow> rat" and tick :: rat

text \<open>
  The host of a device whose calls do not raise a measure \<open>fuel\<close> of the world; a file that
  is read lowers it by what it returns, a file that is written does not raise it, and both
  leave the connection alone and return.
\<close>

locale timed_host = timed_byte_transport H inp out clock tick
  for H :: "('w, 'm) host_scheme" and inp out :: "'w \<Rightarrow> bytes"
    and clock :: "'w \<Rightarrow> rat" and tick :: rat +
  fixes fuel :: "'w \<Rightarrow> nat"
  assumes fuel_kept: "calls_keep H (\<lambda>w. fuel w \<le> c)"

locale timed_source = timed_host +
  fixes source :: "'a stream"
  assumes source_live: "n \<noteq> 0 \<Longrightarrow> wp True (st_read source n)
      (\<lambda>d w'. fuel w' + length d \<le> fuel w \<and> inp w' = inp w) (\<lambda>_ w'. fuel w' \<le> fuel w \<and> inp w' = inp w) w"

locale timed_sink = timed_host +
  fixes sink :: "'a stream"
  assumes sink_live: "wp True (st_write sink d)
      (\<lambda>_ w'. fuel w' \<le> fuel w \<and> inp w' = inp w) (\<lambda>_ w'. fuel w' \<le> fuel w \<and> inp w' = inp w) w"

end
