(* ===== verification/Sockets.thy ===== *)
theory Sockets
  imports Transport
begin

text \<open>
  The part of Python's \<open>socket\<close>, \<open>select\<close> and \<open>time\<close> modules that the TCP and TLS
  transports use, over a scripted network. What the peer will send is a list of events with
  their arrival times, and so is the room the send buffer will have; the outcomes of
  connection attempts and of TLS handshakes are lists too. Waiting moves the clock; a wait
  that nothing can end is \<open>None\<close>.
\<close>

section \<open>The network\<close>

text \<open>
  \<open>Eof\<close>, \<open>RxFail\<close> and \<open>TxFail\<close> stay at the front: from then on \<open>recv\<close> returns no bytes,
  or every call raises the error of a broken connection.
\<close>

datatype rx_event = Data bytes | Eof | RxFail
datatype tx_event = Room nat | TxFail

record conn =
  rx :: "(rat \<times> rx_event) list"
  tx :: "(rat \<times> tx_event) list"
  sock_timeout :: "rat option"

record net =
  clock :: rat
  sent :: bytes
  dials :: "pystr \<times> int \<Rightarrow> (rat \<times> (exn + conn)) list"
  handshakes :: "(rat \<times> (exn + conn)) list"

definition clock_tick :: rat where
  "clock_tick = 1 / 1000"

text \<open>\<open>time.time()\<close>: every look at the clock takes a while.\<close>

definition sys_time :: "('x net_scheme, rat) prog" where
  "sys_time = io_bind (io_gets clock) (\<lambda>now.
     io_then (io_modify (\<lambda>w. w\<lparr>clock := now + clock_tick\<rparr>)) (io_return now))"

text \<open>
  Waiting for something that happens at time \<open>ready\<close> (or never): whether it has happened
  when the wait ends.
\<close>

definition wait_until :: "rat option \<Rightarrow> rat option \<Rightarrow> ('x net_scheme, bool) prog" where
  "wait_until timeout ready w =
     (case timeout of
        Some t \<Rightarrow>
          if t < 0 then Some (Inl ValueError, w)
          else (case ready of
                  Some a \<Rightarrow>
                    if a \<le> clock w + t then Some (Inr True, w\<lparr>clock := max a (clock w)\<rparr>)
                    else Some (Inr False, w\<lparr>clock := clock w + t\<rparr>)
                | None \<Rightarrow> Some (Inr False, w\<lparr>clock := clock w + t\<rparr>))
      | None \<Rightarrow>
          (case ready of
             Some a \<Rightarrow> Some (Inr True, w\<lparr>clock := max a (clock w)\<rparr>)
           | None \<Rightarrow> None))"

definition rx_ready :: "conn \<Rightarrow> rat option" where
  "rx_ready c = (case rx c of [] \<Rightarrow> None | (a, _) # _ \<Rightarrow> Some a)"

text \<open>With no events left to wait for, the send buffer has room for everything.\<close>

definition tx_ready :: "conn \<Rightarrow> rat option" where
  "tx_ready c = (case tx c of [] \<Rightarrow> Some 0 | (a, _) # _ \<Rightarrow> Some a)"

section \<open>Receiving and sending\<close>

text \<open>\<open>recv(n)\<close> on a socket that is ready: the bytes, or the error, and the socket afterwards.\<close>

definition recv_ready :: "int \<Rightarrow> conn \<Rightarrow> (exn + bytes) \<times> conn" where
  "recv_ready n c =
     (if n < 0 then (Inl ValueError, c)
      else case rx c of
        [] \<Rightarrow> (Inr [], c)
      | (a, ev) # es \<Rightarrow>
          (case ev of
             Eof \<Rightarrow> (Inr [], c)
           | RxFail \<Rightarrow> (Inl OSError, c)
           | Data d \<Rightarrow>
               (Inr (take (nat n) d),
                c\<lparr>rx := (if drop (nat n) d = [] then es else (a, Data (drop (nat n) d)) # es)\<rparr>)))"

text \<open>\<open>send(data)\<close> on a socket that is ready: how many bytes it took, or the error.\<close>

definition send_ready :: "bytes \<Rightarrow> conn \<Rightarrow> (exn + nat) \<times> conn" where
  "send_ready data c =
     (case tx c of
        [] \<Rightarrow> (Inr (length data), c)
      | (a, ev) # es \<Rightarrow>
          (case ev of
             TxFail \<Rightarrow> (Inl OSError, c)
           | Room k \<Rightarrow>
               if length data < k then (Inr (length data), c\<lparr>tx := (a, Room (k - length data)) # es\<rparr>)
               else (Inr k, c\<lparr>tx := es\<rparr>)))"

text \<open>
  \<open>create_connection(address, timeout)\<close>: a timeout of 0 makes the connecting socket
  non-blocking, so that it never succeeds at once.
\<close>

definition create_connection ::
  "pystr \<times> int \<Rightarrow> rat option \<Rightarrow> ('x net_scheme, conn) prog" where
  "create_connection address timeout =
     io_bind (io_gets dials) (\<lambda>ds.
       if timeout = Some 0 then io_raise BlockingIOError
       else case ds address of
         [] \<Rightarrow> io_raise OSError
       | (a, outcome) # rest \<Rightarrow>
           io_then (io_modify (\<lambda>w. w\<lparr>dials := ds(address := rest)\<rparr>))
           (io_bind (wait_until timeout (Some a)) (\<lambda>ok.
             if \<not> ok then io_raise SocketTimeout
             else io_bind (io_lift outcome) (\<lambda>c. io_return (c\<lparr>sock_timeout := timeout\<rparr>)))))"

text \<open>The bytes the peer has still to deliver.\<close>

fun event_bytes :: "rx_event \<Rightarrow> bytes" where
  "event_bytes (Data d) = d"
| "event_bytes _ = []"

definition conn_input :: "conn \<Rightarrow> bytes" where
  "conn_input c = concat (map (\<lambda>(_, ev). event_bytes ev) (rx c))"

section \<open>Laws\<close>

lemma clock_tick_pos: "0 < clock_tick"
  by (simp add: clock_tick_def)

lemma wp_sys_time [wp_simps]:
  "wp t sys_time Q E w = Q (clock w) (w\<lparr>clock := clock w + clock_tick\<rparr>)"
  by (simp add: sys_time_def wp_simps)

text \<open>Waiting changes nothing but the clock; with a timeout it ends.\<close>

lemma wait_keeps:
  assumes "\<And>c. f (w\<lparr>clock := c\<rparr>) = f w"
  shows "wp False (wait_until timeout ready)
     (\<lambda>_ w'. clock w \<le> clock w' \<and> f w' = f w) (\<lambda>e w'. e = ValueError \<and> w' = w) w"
  using assms by (auto simp: wp_def wait_until_def split: option.split)

lemma wait_ends:
  "wp True (wait_until (Some t) ready)
     (\<lambda>_ w'. clock w \<le> clock w' \<and> clock w' \<le> clock w + t) (\<lambda>_ w'. t < 0 \<and> w' = w) w"
  by (auto simp: wp_def wait_until_def split: option.split)

lemma create_ends:
  "wp True (create_connection a (Some t)) (\<lambda>_ w'. clock w \<le> clock w') (\<lambda>_ w'. clock w \<le> clock w')
     (w :: 'x net_scheme)"
proof -
  have later: "wp True (wait_until (Some t) r) (\<lambda>_ w'. clock w \<le> clock w') (\<lambda>_ w'. clock w \<le> clock w') w1"
    if "clock w1 = clock w" for r and w1 :: "'x net_scheme"
    by (rule wp_mono [OF wait_ends]) (use that in auto)
  show ?thesis
    unfolding create_connection_def wp_bind wp_gets
    by (auto simp: wp_simps intro!: wp_mono [OF later] split: list.split sum.split)
qed

lemma recv_ready_input:
  assumes "recv_ready n c = (r, c')"
  shows "case r of Inr d \<Rightarrow> int (length d) \<le> n \<and> conn_input c = d @ conn_input c'
    | Inl e \<Rightarrow> conn_input c' = conn_input c \<and> e \<in> {ValueError, OSError}"
  using assms
  by (auto simp: recv_ready_def conn_input_def split: if_splits list.splits prod.splits rx_event.splits)

lemma recv_ready_tx [simp]: "tx (snd (recv_ready n c)) = tx c"
  by (auto simp: recv_ready_def split: list.split prod.split rx_event.split)

lemma send_ready_count:
  assumes "send_ready data c = (Inr k, c')"
  shows "k \<le> length data"
  using assms by (auto simp: send_ready_def split: list.splits prod.splits tx_event.splits if_splits)

lemma send_ready_rx [simp]: "rx (snd (send_ready data c)) = rx c"
  by (auto simp: send_ready_def split: list.split prod.split tx_event.split)

lemma send_ready_input: "send_ready data c = (r, c') \<Longrightarrow> conn_input c' = conn_input c"
  using send_ready_rx [of data c] by (simp add: conn_input_def)

end
