(* ===== verification/Constants.thy ===== *)
theory Constants
  imports Prelude
begin

text \<open>
  \<open>adb_shell_wifi/constants.py\<close> (and \<open>pairing/constants.py\<close>): the numeric constants,
  the command identifiers and the tables between an identifier and its 32-bit
  little-endian wire value. The identifiers, ASCII \<open>bytes\<close> constants in the source, are
  the constructors of one datatype; \<open>cmd_bytes\<close> gives the bytes each stands for and the
  tables are computed from those bytes as the source computes them.
\<close>

section \<open>Numbers\<close>

definition VERSION :: int where "VERSION = 0x01000000"
definition STLS_VERSION :: int where "STLS_VERSION = 0x01000000"
definition MAX_ADB_DATA :: int where "MAX_ADB_DATA = 1024 * 1024"
definition MAX_PUSH_DATA :: int where "MAX_PUSH_DATA = 2 * 1024"
definition MAX_CHUNK_SIZE :: int where "MAX_CHUNK_SIZE = 64 * 1024"
definition AUTH_TOKEN :: int where "AUTH_TOKEN = 1"
definition AUTH_SIGNATURE :: int where "AUTH_SIGNATURE = 2"
definition AUTH_RSAPUBLICKEY :: int where "AUTH_RSAPUBLICKEY = 3"

text \<open>\<open>stat.S_IFREG | stat.S_IRWXU | stat.S_IRWXG\<close>: octal 100000, 700 and 070.\<close>

definition DEFAULT_PUSH_MODE :: int where
  "DEFAULT_PUSH_MODE = or 32768 (or 448 56)"

definition DEFAULT_AUTH_TIMEOUT_S :: rat where "DEFAULT_AUTH_TIMEOUT_S = 10"
definition DEFAULT_READ_TIMEOUT_S :: rat where "DEFAULT_READ_TIMEOUT_S = 10"

lemmas num_const_defs = VERSION_def STLS_VERSION_def MAX_ADB_DATA_def MAX_PUSH_DATA_def
  MAX_CHUNK_SIZE_def AUTH_TOKEN_def AUTH_SIGNATURE_def AUTH_RSAPUBLICKEY_def

section \<open>Command identifiers\<close>

datatype cmd =
    AUTH | CLSE | CNXN | FAIL | OKAY | OPEN | STLS | SYNC | WRTE
  | DATA | DENT | DONE | LIST | QUIT | RECV | SEND | STAT

fun cmd_name :: "cmd \<Rightarrow> string" where
  "cmd_name AUTH = ''AUTH''"
| "cmd_name CLSE = ''CLSE''"
| "cmd_name CNXN = ''CNXN''"
| "cmd_name FAIL = ''FAIL''"
| "cmd_name OKAY = ''OKAY''"
| "cmd_name OPEN = ''OPEN''"
| "cmd_name STLS = ''STLS''"
| "cmd_name SYNC = ''SYNC''"
| "cmd_name WRTE = ''WRTE''"
| "cmd_name DATA = ''DATA''"
| "cmd_name DENT = ''DENT''"
| "cmd_name DONE = ''DONE''"
| "cmd_name LIST = ''LIST''"
| "cmd_name QUIT = ''QUIT''"
| "cmd_name RECV = ''RECV''"
| "cmd_name SEND = ''SEND''"
| "cmd_name STAT = ''STAT''"

definition cmd_bytes :: "cmd \<Rightarrow> bytes" where
  "cmd_bytes c = bytes_lit (cmd_name c)"

definition IDS :: "cmd list" where
  "IDS = [AUTH, CLSE, CNXN, OKAY, OPEN, STLS, SYNC, WRTE]"

definition FILESYNC_IDS :: "cmd list" where
  "FILESYNC_IDS = [DATA, DENT, DONE, FAIL, LIST, OKAY, QUIT, RECV, SEND, STAT]"

text \<open>\<open>sum(c << (i * 8) for i, c in enumerate(bytearray(cmd_id)))\<close>\<close>

definition wire_value :: "bytes \<Rightarrow> int" where
  "wire_value bs = (\<Sum>(i, c) \<leftarrow> enumerate 0 bs. push_bit (i * 8) (uint c))"

definition ID_TO_WIRE :: "cmd \<rightharpoonup> int" where
  "ID_TO_WIRE = map_of (map (\<lambda>c. (c, wire_value (cmd_bytes c))) IDS)"

definition WIRE_TO_ID :: "int \<rightharpoonup> cmd" where
  "WIRE_TO_ID = map_of (rev (map (\<lambda>c. (wire_value (cmd_bytes c), c)) IDS))"

definition FILESYNC_ID_TO_WIRE :: "cmd \<rightharpoonup> int" where
  "FILESYNC_ID_TO_WIRE = map_of (map (\<lambda>c. (c, wire_value (cmd_bytes c))) FILESYNC_IDS)"

definition FILESYNC_WIRE_TO_ID :: "int \<rightharpoonup> cmd" where
  "FILESYNC_WIRE_TO_ID = map_of (rev (map (\<lambda>c. (wire_value (cmd_bytes c), c)) FILESYNC_IDS))"

text \<open>The wire values, computed once for every identifier.\<close>

definition cmd_wire :: "cmd \<Rightarrow> int" where
  "cmd_wire c = wire_value (cmd_bytes c)"

lemma length_cmd_bytes [simp]: "length (cmd_bytes c) = 4"
  by (cases c) (simp_all add: cmd_bytes_def)

lemma cmd_wire_value [simp]:
  "cmd_wire AUTH = 0x48545541"
  "cmd_wire CLSE = 0x45534C43"
  "cmd_wire CNXN = 0x4E584E43"
  "cmd_wire FAIL = 0x4C494146"
  "cmd_wire OKAY = 0x59414B4F"
  "cmd_wire OPEN = 0x4E45504F"
  "cmd_wire STLS = 0x534C5453"
  "cmd_wire SYNC = 0x434E5953"
  "cmd_wire WRTE = 0x45545257"
  "cmd_wire DATA = 0x41544144"
  "cmd_wire DENT = 0x544E4544"
  "cmd_wire DONE = 0x454E4F44"
  "cmd_wire LIST = 0x5453494C"
  "cmd_wire QUIT = 0x54495551"
  "cmd_wire RECV = 0x56434552"
  "cmd_wire SEND = 0x444E4553"
  "cmd_wire STAT = 0x54415453"
  by code_simp+

lemma inj_cmd_wire: "cmd_wire c = cmd_wire d \<longleftrightarrow> c = d"
  by (cases c; cases d; simp only: cmd_wire_value cmd.distinct; simp)

lemma cmd_wire_range: "0 \<le> cmd_wire c" "cmd_wire c < 2 ^ 32"
  by (cases c; simp)+

lemma map_of_wire_inverse:
  "map_of (rev (map (\<lambda>c. (cmd_wire c, c)) cs)) (cmd_wire d) = (if d \<in> set cs then Some d else None)"
proof (induction cs rule: rev_induct)
  case Nil
  then show ?case by simp
next
  case (snoc c cs)
  then show ?case by (auto simp: inj_cmd_wire)
qed

lemma map_of_wire_Some:
  "map_of (rev (map (\<lambda>c. (cmd_wire c, c)) cs)) w = Some d \<Longrightarrow> d \<in> set cs \<and> w = cmd_wire d"
  by (auto dest: map_of_SomeD)

lemma map_of_const_fun:
  "map_of (map (\<lambda>c. (c, f c)) cs) d = (if d \<in> set cs then Some (f d) else None)"
  by (induction cs) auto

lemma ID_TO_WIRE_eq: "ID_TO_WIRE c = (if c \<in> set IDS then Some (cmd_wire c) else None)"
  by (simp add: ID_TO_WIRE_def map_of_const_fun cmd_wire_def)

lemma FILESYNC_ID_TO_WIRE_eq:
  "FILESYNC_ID_TO_WIRE c = (if c \<in> set FILESYNC_IDS then Some (cmd_wire c) else None)"
  by (simp add: FILESYNC_ID_TO_WIRE_def map_of_const_fun cmd_wire_def)

lemma WIRE_TO_ID_Some: "WIRE_TO_ID w = Some c \<longleftrightarrow> c \<in> set IDS \<and> w = cmd_wire c"
  unfolding WIRE_TO_ID_def cmd_wire_def [symmetric]
  by (auto simp: map_of_wire_inverse dest: map_of_wire_Some)

lemma FILESYNC_WIRE_TO_ID_Some:
  "FILESYNC_WIRE_TO_ID w = Some c \<longleftrightarrow> c \<in> set FILESYNC_IDS \<and> w = cmd_wire c"
  unfolding FILESYNC_WIRE_TO_ID_def cmd_wire_def [symmetric]
  by (auto simp: map_of_wire_inverse dest: map_of_wire_Some)

lemma WIRE_TO_ID_cmd_wire [simp]: "c \<in> set IDS \<Longrightarrow> WIRE_TO_ID (cmd_wire c) = Some c"
  by (simp add: WIRE_TO_ID_Some)

lemma set_IDS: "c \<in> set IDS \<longleftrightarrow> c \<in> {AUTH, CLSE, CNXN, OKAY, OPEN, STLS, SYNC, WRTE}"
  by (simp add: IDS_def)

end
