(* ===== verification/Utf8.thy ===== *)
theory Utf8
  imports Prelude
begin

text \<open>
  Python's UTF-8 codec, as the code uses it: \<open>str.encode('utf8')\<close>, which raises
  \<open>UnicodeEncodeError\<close> on a surrogate, and \<open>bytes.decode('utf8', 'backslashreplace')\<close>,
  which never raises and writes every byte of an ill-formed sequence as \<open>\xNN\<close>. (The
  bytes that follow the first one in an ill-formed sequence are continuation bytes, which
  are ill-formed on their own, so replacing byte by byte gives CPython's result.)
\<close>

section \<open>Encoding\<close>

definition byte_of :: "nat \<Rightarrow> byte" where
  "byte_of n = word_of_nat n"

definition utf8_char :: "nat \<Rightarrow> exn + bytes" where
  "utf8_char c =
     (if c < 0x80 then Inr [byte_of c]
      else if c < 0x800 then Inr [byte_of (0xC0 + c div 64), byte_of (0x80 + c mod 64)]
      else if 0xD800 \<le> c \<and> c < 0xE000 then Inl UnicodeEncodeError
      else if c < 0x10000 then
        Inr [byte_of (0xE0 + c div 4096), byte_of (0x80 + c div 64 mod 64), byte_of (0x80 + c mod 64)]
      else if c < 0x110000 then
        Inr [byte_of (0xF0 + c div 262144), byte_of (0x80 + c div 4096 mod 64),
             byte_of (0x80 + c div 64 mod 64), byte_of (0x80 + c mod 64)]
      else Inl ValueError)"

fun utf8_encode :: "pystr \<Rightarrow> exn + bytes" where
  "utf8_encode [] = Inr []"
| "utf8_encode (c # cs) = e_bind (utf8_char c) (\<lambda>b. e_bind (utf8_encode cs) (\<lambda>bs. Inr (b @ bs)))"

section \<open>Decoding\<close>

definition is_cont :: "byte \<Rightarrow> bool" where
  "is_cont b \<longleftrightarrow> 0x80 \<le> unat b \<and> unat b < 0xC0"

text \<open>One well-formed character at the front, with what follows it.\<close>

fun utf8_step :: "bytes \<Rightarrow> (nat \<times> bytes) option" where
  "utf8_step [] = None"
| "utf8_step (b0 # r) =
     (if unat b0 < 0x80 then Some (unat b0, r)
      else if unat b0 < 0xC2 then None
      else if unat b0 < 0xE0 then
        (case r of
           b1 # r' \<Rightarrow>
             if is_cont b1 then Some ((unat b0 - 0xC0) * 64 + (unat b1 - 0x80), r') else None
         | _ \<Rightarrow> None)
      else if unat b0 < 0xF0 then
        (case r of
           b1 # b2 # r' \<Rightarrow>
             (let c = (unat b0 - 0xE0) * 4096 + (unat b1 - 0x80) * 64 + (unat b2 - 0x80)
              in if is_cont b1 \<and> is_cont b2 \<and> 0x800 \<le> c \<and> \<not> (0xD800 \<le> c \<and> c < 0xE000)
                 then Some (c, r') else None)
         | _ \<Rightarrow> None)
      else if unat b0 < 0xF5 then
        (case r of
           b1 # b2 # b3 # r' \<Rightarrow>
             (let c = (unat b0 - 0xF0) * 262144 + (unat b1 - 0x80) * 4096
                        + (unat b2 - 0x80) * 64 + (unat b3 - 0x80)
              in if is_cont b1 \<and> is_cont b2 \<and> is_cont b3 \<and> 0x10000 \<le> c \<and> c < 0x110000
                 then Some (c, r') else None)
         | _ \<Rightarrow> None)
      else None)"

definition hex_digit :: "nat \<Rightarrow> nat" where
  "hex_digit n = (if n < 10 then 48 + n else 87 + n)"

definition backslash_x :: "byte \<Rightarrow> pystr" where
  "backslash_x b = [92, 120, hex_digit (unat b div 16), hex_digit (unat b mod 16)]"

lemma utf8_step_shorter: "utf8_step bs = Some (c, r) \<Longrightarrow> length r < length bs"
  by (induction bs rule: utf8_step.induct)
     (auto simp: Let_def split: if_splits list.splits)

function utf8_decode :: "bytes \<Rightarrow> pystr" where
  "utf8_decode [] = []"
| "utf8_decode (b # bs) =
     (case utf8_step (b # bs) of
        Some (c, r) \<Rightarrow> c # utf8_decode r
      | None \<Rightarrow> backslash_x b @ utf8_decode bs)"
  by pat_completeness auto
termination
  by (relation "measure length") (auto dest: utf8_step_shorter simp del: utf8_step.simps)

section \<open>Round trip\<close>

lemma unat_byte_of [simp]: "n < 256 \<Longrightarrow> unat (byte_of n) = n"
  by (simp add: byte_of_def unat_of_nat)

lemma is_cont_byte_of: "n < 64 \<Longrightarrow> is_cont (byte_of (0x80 + n))"
  by (simp add: is_cont_def)

lemma utf8_char_split:
  fixes c :: nat
  obtains (1) "c < 0x80" | (2) "0x80 \<le> c" "c < 0x800"
  | (3) "0x800 \<le> c" "c < 0x10000" "\<not> (0xD800 \<le> c \<and> c < 0xE000)"
  | (4) "0x10000 \<le> c" "c < 0x110000"
  | (bad) "(0xD800 \<le> c \<and> c < 0xE000) \<or> 0x110000 \<le> c"
  by linarith

lemma utf8_step_2:
  assumes "2 \<le> h" and "h < 32" and "l < 64"
  shows "utf8_step (byte_of (0xC0 + h) # byte_of (0x80 + l) # r) = Some (h * 64 + l, r)"
  using assms by (simp add: is_cont_byte_of)

lemma utf8_step_3:
  assumes "h < 16" and "m < 64" and "l < 64" and c: "h * 4096 + m * 64 + l = c"
    and "0x800 \<le> c" and "\<not> (0xD800 \<le> c \<and> c < 0xE000)"
  shows "utf8_step (byte_of (0xE0 + h) # byte_of (0x80 + m) # byte_of (0x80 + l) # r) = Some (c, r)"
  using assms by (simp add: is_cont_byte_of Let_def)

lemma utf8_step_4:
  assumes "h < 5" and "m < 64" and "k < 64" and "l < 64"
    and c: "h * 262144 + m * 4096 + k * 64 + l = c" and "0x10000 \<le> c" and "c < 0x110000"
  shows "utf8_step (byte_of (0xF0 + h) # byte_of (0x80 + m) # byte_of (0x80 + k) # byte_of (0x80 + l) # r)
    = Some (c, r)"
  using assms by (simp add: is_cont_byte_of Let_def)

lemma digits_3: "c div 4096 * 4096 + c div 64 mod 64 * 64 + c mod 64 = (c :: nat)"
proof -
  have "c div 4096 = c div 64 div 64" by (simp add: div_mult2_eq [symmetric])
  moreover have "c div 64 = c div 64 div 64 * 64 + c div 64 mod 64" by simp
  moreover have "c = c div 64 * 64 + c mod 64" by simp
  ultimately show ?thesis by linarith
qed

lemma digits_4:
  "c div 262144 * 262144 + c div 4096 mod 64 * 4096 + c div 64 mod 64 * 64 + c mod 64 = (c :: nat)"
proof -
  have "c div 262144 = c div 4096 div 64" by (simp add: div_mult2_eq [symmetric])
  moreover have "c div 4096 = c div 4096 div 64 * 64 + c div 4096 mod 64" by simp
  ultimately show ?thesis using digits_3 [of c] by linarith
qed

lemma utf8_step_char:
  assumes "utf8_char c = Inr bs"
  shows "utf8_step (bs @ r) = Some (c, r)"
proof (cases c rule: utf8_char_split)
  case 1
  with assms show ?thesis by (auto simp: utf8_char_def)
next
  case 2
  then have "bs = [byte_of (0xC0 + c div 64), byte_of (0x80 + c mod 64)]"
    using assms by (simp add: utf8_char_def)
  with 2 show ?thesis using utf8_step_2 [of "c div 64" "c mod 64"] by (simp del: utf8_step.simps)
next
  case 3
  then have "bs = [byte_of (0xE0 + c div 4096), byte_of (0x80 + c div 64 mod 64), byte_of (0x80 + c mod 64)]"
    using assms by (auto simp: utf8_char_def split: if_splits)
  with 3 show ?thesis
    using utf8_step_3 [OF _ _ _ digits_3] by (simp del: utf8_step.simps)
next
  case 4
  then have "bs = [byte_of (0xF0 + c div 262144), byte_of (0x80 + c div 4096 mod 64),
      byte_of (0x80 + c div 64 mod 64), byte_of (0x80 + c mod 64)]"
    using assms by (simp add: utf8_char_def)
  with 4 show ?thesis
    using utf8_step_4 [OF _ _ _ _ digits_4] by (simp del: utf8_step.simps)
next
  case bad
  with assms show ?thesis by (auto simp: utf8_char_def split: if_splits)
qed

lemma utf8_char_Nil: "utf8_char c \<noteq> Inr []"
  by (simp add: utf8_char_def)

lemma utf8_decode_encode: "utf8_encode s = Inr bs \<Longrightarrow> utf8_decode bs = s"
proof (induction s arbitrary: bs)
  case Nil
  then show ?case by simp
next
  case (Cons c s)
  then obtain b r where b: "utf8_char c = Inr b" and r: "utf8_encode s = Inr r" and bs: "bs = b @ r"
    by (auto simp: e_bind_eq_Inr)
  from b obtain x xs where x: "b = x # xs"
    using utf8_char_Nil by (cases b) auto
  from utf8_step_char [OF b, of r] have "utf8_step (x # xs @ r) = Some (c, r)"
    by (simp add: x)
  then show ?case using Cons.IH [OF r] by (simp add: bs x)
qed

lemma utf8_encode_append:
  "utf8_encode (s @ t) = e_bind (utf8_encode s) (\<lambda>b. e_bind (utf8_encode t) (\<lambda>c. Inr (b @ c)))"
proof (induction s)
  case Nil
  show ?case by (cases "utf8_encode t") simp_all
next
  case (Cons c s)
  then show ?case
    by (cases "utf8_char c"; cases "utf8_encode s"; cases "utf8_encode t") simp_all
qed

lemma utf8_encode_ascii:
  "list_all (\<lambda>c. c < 128) s \<Longrightarrow> utf8_encode s = Inr (map byte_of s)"
  by (induction s) (simp_all add: utf8_char_def)

end
