(* ===== verification/Transaction_Info.thy ===== *)
theory Transaction_Info
  imports Constants Utf8 Transport
begin

text \<open>
  The rest of \<open>adb_shell_wifi/hidden_helpers.py\<close>: the settings of one ADB transaction
  (\<open>_AdbTransactionInfo\<close>), the buffers of one FileSync transaction
  (\<open>_FileSyncTransactionInfo\<close>), \<open>get_files_to_push\<close> and \<open>get_banner\<close>. Times are
  rationals. The file system and the host name are read from the environment and are
  arguments here.
\<close>

section \<open>Settings of a transaction\<close>

record transaction_info =
  local_id :: "int option"
  remote_id :: "int option"
  timeout_s :: "rat option"
  read_timeout_s :: rat
  transport_timeout_s :: "rat option"

definition AdbTransactionInfo ::
  "int option \<Rightarrow> int option \<Rightarrow> rat option \<Rightarrow> rat \<Rightarrow> rat option \<Rightarrow> transaction_info" where
  "AdbTransactionInfo local remote transport_timeout read_timeout timeout =
     (let rt = (case timeout of None \<Rightarrow> read_timeout | Some t \<Rightarrow> min read_timeout t)
      in \<lparr>local_id = local, remote_id = remote, timeout_s = timeout, read_timeout_s = rt,
          transport_timeout_s =
            Some (case transport_timeout of None \<Rightarrow> rt | Some t \<Rightarrow> min t rt)\<rparr>)"

definition args_match :: "transaction_info \<Rightarrow> int \<Rightarrow> int \<Rightarrow> bool \<Rightarrow> bool" where
  "args_match info arg0 arg1 allow_zeros =
     (if \<not> allow_zeros then
        Some arg1 = local_id info \<and> (remote_id info = None \<or> Some arg0 = remote_id info)
      else
        (arg1 = 0 \<or> Some arg1 = local_id info) \<and>
        (remote_id info = None \<or> arg0 = 0 \<or> Some arg0 = remote_id info))"

text \<open>The ordering of the three timeouts that the class documents.\<close>

definition timeouts_ordered :: "transaction_info \<Rightarrow> bool" where
  "timeouts_ordered info \<longleftrightarrow>
     (\<exists>t. transport_timeout_s info = Some t \<and> t \<le> read_timeout_s info) \<and>
     (\<forall>t. timeout_s info = Some t \<longrightarrow> read_timeout_s info \<le> t)"

lemma AdbTransactionInfo_sel [simp]:
  "local_id (AdbTransactionInfo l r tt rt t) = l"
  "remote_id (AdbTransactionInfo l r tt rt t) = r"
  "timeout_s (AdbTransactionInfo l r tt rt t) = t"
  by (simp_all add: AdbTransactionInfo_def Let_def)

lemma timeouts_ordered_init: "timeouts_ordered (AdbTransactionInfo l r tt rt t)"
  by (auto simp: timeouts_ordered_def AdbTransactionInfo_def Let_def split: option.split)

lemma transport_timeout_finite: "\<exists>t. transport_timeout_s (AdbTransactionInfo l r tt rt to) = Some t"
  by (simp add: AdbTransactionInfo_def Let_def)

lemma args_match_strict_imp: "args_match info a0 a1 False \<Longrightarrow> args_match info a0 a1 True"
  by (auto simp: args_match_def)

text \<open>Two transactions with different nonzero local ids never claim the same packet.\<close>

lemma args_match_disjoint:
  assumes "args_match i a0 a1 z" and "args_match j a0 a1 z'"
    and "local_id i \<noteq> local_id j" and "a1 \<noteq> 0"
  shows False
  using assms by (auto simp: args_match_def split: if_splits)

section \<open>Buffers of a FileSync transaction\<close>

text \<open>A FileSync header format \<open>'<nI'\<close> is its number of 32-bit words.\<close>

type_synonym fs_format = nat

definition FILESYNC_LIST_FORMAT :: fs_format where "FILESYNC_LIST_FORMAT = 5"
definition FILESYNC_PULL_FORMAT :: fs_format where "FILESYNC_PULL_FORMAT = 2"
definition FILESYNC_PUSH_FORMAT :: fs_format where "FILESYNC_PUSH_FORMAT = 2"
definition FILESYNC_STAT_FORMAT :: fs_format where "FILESYNC_STAT_FORMAT = 4"

lemmas fs_format_defs = FILESYNC_LIST_FORMAT_def FILESYNC_PULL_FORMAT_def
  FILESYNC_PUSH_FORMAT_def FILESYNC_STAT_FORMAT_def

record filesync_info =
  send_buffer :: bytes
  send_idx :: nat
  recv_buffer :: bytes
  recv_message_format :: fs_format
  recv_message_size :: nat
  fs_maxdata :: int

text \<open>\<open>bytearray(maxdata)\<close> is \<open>maxdata\<close> zero bytes and raises for a negative size.\<close>

definition FileSyncTransactionInfo :: "fs_format \<Rightarrow> int \<Rightarrow> exn + filesync_info" where
  "FileSyncTransactionInfo fmt maxdata =
     (if maxdata < 0 then Inl ValueError
      else Inr \<lparr>send_buffer = replicate (nat maxdata) 0, send_idx = 0, recv_buffer = [],
                recv_message_format = fmt, recv_message_size = 4 * fmt, fs_maxdata = maxdata\<rparr>)"

definition can_add_to_send_buffer :: "filesync_info \<Rightarrow> nat \<Rightarrow> bool" where
  "can_add_to_send_buffer fsi data_len \<longleftrightarrow>
     int (send_idx fsi) + (int (recv_message_size fsi) + int data_len) < fs_maxdata fsi"

section \<open>Files to push and the banner\<close>

text \<open>\<open>local_path\<close> is a path or a \<open>BytesIO\<close>.\<close>

datatype 'b local_path = LPath pystr | LBytesIO 'b

definition get_files_to_push ::
  "('w, 'x) host_scheme \<Rightarrow> 'w stream local_path \<Rightarrow> pystr \<Rightarrow>
     ('w, bool \<times> 'w stream local_path list \<times> pystr list) prog" where
  "get_files_to_push H local_path device_path =
     (case local_path of
        LBytesIO b \<Rightarrow> io_return (False, [local_path], [device_path])
      | LPath p \<Rightarrow>
          io_bind (path_isdir H p) (\<lambda>is_dir.
            if \<not> is_dir then io_return (False, [local_path], [device_path])
            else io_bind (path_listdir H p) (\<lambda>names.
              io_return (True, map LPath names, map (\<lambda>f. device_path @ str_lit ''/'' @ f) names))))"

text \<open>Any exception of \<open>socket.gethostname\<close> or of the encoding gives \<open>b'unknown'\<close>.\<close>

definition get_banner :: "('w, 'x) host_scheme \<Rightarrow> ('w, bytes) prog" where
  "get_banner H =
     io_catch (io_bind (gethostname H) (\<lambda>name. io_lift (utf8_encode name)))
       (\<lambda>_. io_return (bytes_lit ''unknown''))"

lemma get_files_to_push_lengths:
  "get_files_to_push H p d w = Some (Inr (is_dir, ls, ds), w') \<Longrightarrow> length ls = length ds"
  by (auto simp: get_files_to_push_def io_bind_eq_Inr run_simps
      split: local_path.splits if_splits)

lemma get_banner_never_raises: "get_banner H w \<noteq> Some (Inl e, w')"
  by (auto simp: get_banner_def io_catch_def io_return_def split: option.splits sum.splits)

end
