(* ===== verification/Packet_Store.thy ===== *)
theory Packet_Store
  imports Constants
begin

text \<open>
  The packet store \<open>_AdbPacketStore\<close> of \<open>adb_shell_wifi/hidden_helpers.py\<close>: a dictionary
  from \<open>arg1\<close> to dictionaries from \<open>arg0\<close> to queues of \<open>(cmd, data)\<close> entries. Python
  dictionaries keep insertion order and \<open>find\<close> depends on it, so both levels are
  association lists; \<open>AList.update\<close> overwrites in place and appends new keys, as
  assignment to a dictionary entry does. A \<open>Queue\<close> is a list, its front first.

  The abstract view \<open>store_abs\<close> forgets the nesting and the order: a partial map from
  streams \<open>(arg0, arg1)\<close> to queues. The locale \<open>packet_store\<close> states what the I/O
  manager relies on in terms of that view; the definitions of this theory interpret it.
\<close>

section \<open>State and operations\<close>

type_synonym entry = "cmd \<times> bytes"
type_synonym store = "(int \<times> (int \<times> entry list) list) list"
type_synonym packet = "cmd \<times> int \<times> int \<times> bytes"

text \<open>All queues with their keys, in the order the nested loops of \<open>find\<close> visit them.\<close>

definition store_entries :: "store \<Rightarrow> (int \<times> int \<times> entry list) list" where
  "store_entries s = concat (map (\<lambda>(key1, val1). map (\<lambda>(key0, val0). (key0, key1, val0)) val1) s)"

definition store_find :: "int option \<Rightarrow> int option \<Rightarrow> store \<Rightarrow> (int \<times> int) option" where
  "store_find arg0 arg1 s =
     (if s = [] then None
      else case arg1 of
        None \<Rightarrow>
          (case arg0 of
             None \<Rightarrow>
               map_option (\<lambda>(key0, key1, _). (key0, key1))
                 (find (\<lambda>(_, _, val0). val0 \<noteq> []) (store_entries s))
           | Some a \<Rightarrow>
               map_option (\<lambda>(_, key1, _). (a, key1))
                 (find (\<lambda>(key0, _, val0). key0 = a \<and> val0 \<noteq> []) (store_entries s)))
      | Some b \<Rightarrow>
          (case map_of s b of
             None \<Rightarrow> None
           | Some d \<Rightarrow>
               (case arg0 of
                  None \<Rightarrow> map_option (\<lambda>(key0, _). (key0, b)) (find (\<lambda>(_, val0). val0 \<noteq> []) d)
                | Some a \<Rightarrow>
                    (case map_of d a of
                       None \<Rightarrow> None
                     | Some q \<Rightarrow> if q \<noteq> [] then Some (a, b) else None))))"

definition store_contains :: "int option \<times> int option \<Rightarrow> store \<Rightarrow> bool" where
  "store_contains v s \<longleftrightarrow> store_find (fst v) (snd v) s \<noteq> None"

definition store_len :: "store \<Rightarrow> nat" where
  "store_len s = (\<Sum>(_, val1) \<leftarrow> s. \<Sum>(_, val0) \<leftarrow> val1. if val0 \<noteq> [] then 1 else 0)"

text \<open>\<open>for arg0_, arg1_ in ((arg0, arg1), (arg0, 0), (0, arg1), (0, 0))\<close>\<close>

fun find_first_of :: "(int option \<times> int option) list \<Rightarrow> store \<Rightarrow> (int \<times> int) option" where
  "find_first_of [] s = None"
| "find_first_of ((a0, a1) # cs) s =
     (case store_find a0 a1 s of Some p \<Rightarrow> Some p | None \<Rightarrow> find_first_of cs s)"

definition store_find_allow_zeros :: "int option \<Rightarrow> int option \<Rightarrow> store \<Rightarrow> (int \<times> int) option" where
  "store_find_allow_zeros arg0 arg1 s =
     find_first_of [(arg0, arg1), (arg0, Some 0), (Some 0, arg1), (Some 0, Some 0)] s"

definition store_clear :: "int \<Rightarrow> int \<Rightarrow> store \<Rightarrow> store" where
  "store_clear arg0 arg1 s =
     (case map_of s arg1 of
        None \<Rightarrow> s
      | Some d \<Rightarrow>
          (case map_of d arg0 of
             None \<Rightarrow> s
           | Some _ \<Rightarrow>
               (let d' = AList.delete arg0 d
                in if d' = [] then AList.delete arg1 s else AList.update arg1 d' s)))"

definition store_clear_all :: "store \<Rightarrow> store" where
  "store_clear_all s = []"

definition store_get :: "int option \<Rightarrow> int option \<Rightarrow> store \<Rightarrow> (exn + packet) \<times> store" where
  "store_get arg0 arg1 s =
     (case (case (arg0, arg1) of
              (Some a, Some b) \<Rightarrow> Some (a, b)
            | _ \<Rightarrow> store_find arg0 arg1 s) of
        None \<Rightarrow> (Inl TypeError, s)
      | Some (a, b) \<Rightarrow>
          (case map_of s b of
             None \<Rightarrow> (Inl KeyError, s)
           | Some d \<Rightarrow>
               (case map_of d a of
                  None \<Rightarrow> (Inl KeyError, s)
                | Some [] \<Rightarrow> (Inl QueueEmpty, s)
                | Some ((cmd, data) # q) \<Rightarrow>
                    (let s' = AList.update b (AList.update a q d) s
                     in (Inr (cmd, a, b, data), if cmd = CLSE then store_clear a b s' else s')))))"

definition store_put :: "int \<Rightarrow> int \<Rightarrow> cmd \<Rightarrow> bytes \<Rightarrow> store \<Rightarrow> store" where
  "store_put arg0 arg1 cmd data s =
     (case map_of s arg1 of
        Some d \<Rightarrow>
          (case map_of d arg0 of
             Some q \<Rightarrow> AList.update arg1 (AList.update arg0 (q @ [(cmd, data)]) d) s
           | None \<Rightarrow>
               if cmd = CLSE then s
               else AList.update arg1 (AList.update arg0 [(cmd, data)] d) s)
      | None \<Rightarrow>
          if cmd = CLSE then s else AList.update arg1 [(arg0, [(cmd, data)])] s)"

section \<open>Invariant and abstract view\<close>

text \<open>Keys are unique at both levels and no inner dictionary is empty.\<close>

definition store_ok :: "store \<Rightarrow> bool" where
  "store_ok s \<longleftrightarrow>
     distinct (map fst s) \<and> (\<forall>(k, d) \<in> set s. d \<noteq> [] \<and> distinct (map fst d))"

definition store_abs :: "store \<Rightarrow> int \<times> int \<Rightarrow> entry list option" where
  "store_abs s = (\<lambda>(a, b). Option.bind (map_of s b) (\<lambda>d. map_of d a))"

lemma store_abs_eq: "store_abs s (a, b) = (case map_of s b of None \<Rightarrow> None | Some d \<Rightarrow> map_of d a)"
  by (simp add: store_abs_def Option.bind_eq_Some_conv split: option.split)

lemma store_ok_Nil [simp]: "store_ok []"
  by (simp add: store_ok_def)

lemma store_abs_Nil [simp]: "store_abs [] = Map.empty"
  by (auto simp: store_abs_def)

lemma store_okD:
  "store_ok s \<Longrightarrow> map_of s b = Some d \<Longrightarrow> d \<noteq> [] \<and> distinct (map fst d)"
  by (auto simp: store_ok_def dest!: map_of_SomeD)

lemma AList_update_not_Nil [simp]: "AList.update k v xs \<noteq> []"
  by (cases xs) auto

lemma set_AList_update: "set (AList.update k v xs) \<subseteq> insert (k, v) (set xs)"
  by (induction xs) auto

lemma store_ok_update:
  assumes "store_ok s" and "d \<noteq> []" and "distinct (map fst d)"
  shows "store_ok (AList.update b d s)"
proof -
  have "distinct (map fst (AList.update b d s))"
    using assms(1) by (simp add: store_ok_def distinct_update)
  then show ?thesis
    using assms set_AList_update [of b d s] by (auto simp: store_ok_def)
qed

lemma store_ok_delete:
  assumes "store_ok s"
  shows "store_ok (AList.delete b s)"
proof -
  have "set (AList.delete b s) \<subseteq> set s" by (auto simp: AList.delete_eq)
  then show ?thesis using assms by (auto simp: store_ok_def intro: distinct_delete)
qed

lemma store_ok_inner_update:
  "store_ok s \<Longrightarrow> map_of s b = Some d \<Longrightarrow> store_ok (AList.update b (AList.update a q d) s)"
  by (intro store_ok_update) (auto simp: distinct_update dest: store_okD)

lemma store_ok_inner_delete:
  "store_ok s \<Longrightarrow> map_of s b = Some d \<Longrightarrow> AList.delete a d \<noteq> [] \<Longrightarrow>
     store_ok (AList.update b (AList.delete a d) s)"
  by (intro store_ok_update) (auto intro: distinct_delete dest: store_okD)

lemma store_ok_clear: "store_ok s \<Longrightarrow> store_ok (store_clear a b s)"
  by (auto simp: store_clear_def Let_def store_ok_delete store_ok_inner_delete split: option.split)

lemma store_ok_put: "store_ok s \<Longrightarrow> store_ok (store_put a b c x s)"
  by (auto simp: store_put_def store_ok_inner_update store_ok_update split: option.split)

lemma store_ok_get: "store_ok s \<Longrightarrow> store_ok (snd (store_get a0 a1 s))"
  by (auto simp: store_get_def Let_def store_ok_inner_update store_ok_clear
      split: option.split prod.split list.split)

lemma store_abs_update:
  "store_abs (AList.update b d s) = (\<lambda>(x, y). if y = b then map_of d x else store_abs s (x, y))"
  by (auto simp: store_abs_def fun_eq_iff update_conv')

lemma store_abs_delete:
  "store_abs (AList.delete b s) = (\<lambda>(x, y). if y = b then None else store_abs s (x, y))"
  by (auto simp: store_abs_def fun_eq_iff delete_conv')

lemma store_abs_put:
  "store_abs (store_put a b c x s) =
     (case store_abs s (a, b) of
        None \<Rightarrow> if c = CLSE then store_abs s else (store_abs s)((a, b) \<mapsto> [(c, x)])
      | Some q \<Rightarrow> (store_abs s)((a, b) \<mapsto> q @ [(c, x)]))"
  by (auto simp: store_put_def store_abs_update update_conv' store_abs_eq fun_eq_iff
      split: option.split)

lemma map_of_delete_Nil: "AList.delete a d = [] \<Longrightarrow> x \<noteq> a \<Longrightarrow> map_of d x = None"
  using delete_conv' [of a d] by (metis fun_upd_other map_of.simps(1))

lemma store_abs_clear: "store_abs (store_clear a b s) = (store_abs s)((a, b) := None)"
proof (cases "map_of s b")
  case None
  then show ?thesis by (auto simp: store_clear_def store_abs_def fun_eq_iff)
next
  case (Some d)
  then have d: "store_abs s (x, b) = map_of d x" for x by (simp add: store_abs_eq)
  show ?thesis
  proof (cases "map_of d a")
    case None
    with Some show ?thesis by (simp add: store_clear_def d fun_upd_idem)
  next
    case (Some q)
    have clear: "store_clear a b s =
        (if AList.delete a d = [] then AList.delete b s else AList.update b (AList.delete a d) s)"
      using \<open>map_of s b = Some d\<close> Some by (simp add: store_clear_def)
    show ?thesis
      unfolding clear
      by (auto simp: store_abs_update store_abs_delete delete_conv' d map_of_delete_Nil fun_eq_iff)
  qed
qed

lemma store_get_exact:
  assumes "store_abs s (a, b) = Some ((c, x) # q)"
  shows "fst (store_get (Some a) (Some b) s) = Inr (c, a, b, x)"
    and "store_abs (snd (store_get (Some a) (Some b) s)) =
      (if c = CLSE then (store_abs s)((a, b) := None) else (store_abs s)((a, b) \<mapsto> q))"
proof -
  obtain d where d: "map_of s b = Some d" "map_of d a = Some ((c, x) # q)"
    using assms by (auto simp: store_abs_eq split: option.splits)
  have u: "store_abs (AList.update b (AList.update a q d) s) = (store_abs s)((a, b) \<mapsto> q)"
    using d by (auto simp: store_abs_update update_conv' store_abs_eq fun_eq_iff)
  show "fst (store_get (Some a) (Some b) s) = Inr (c, a, b, x)"
    by (simp add: store_get_def d Let_def)
  show "store_abs (snd (store_get (Some a) (Some b) s)) =
      (if c = CLSE then (store_abs s)((a, b) := None) else (store_abs s)((a, b) \<mapsto> q))"
    by (simp add: store_get_def d Let_def store_abs_clear u)
qed

section \<open>Finding a stream\<close>

text \<open>\<open>None\<close> is a wildcard.\<close>

definition matches :: "int option \<Rightarrow> int \<Rightarrow> bool" where
  "matches p a \<longleftrightarrow> p = None \<or> p = Some a"

text \<open>A stream with something to read.\<close>

definition pending :: "store \<Rightarrow> int \<Rightarrow> int \<Rightarrow> bool" where
  "pending s a b \<longleftrightarrow> (\<exists>p q. store_abs s (a, b) = Some (p # q))"

lemma find_Some_iff_ex: "find P xs = Some x \<Longrightarrow> x \<in> set xs \<and> P x"
  by (auto simp: find_Some_iff)

lemma map_of_unique:
  "distinct (map fst xs) \<Longrightarrow> (k, v) \<in> set xs \<Longrightarrow> map_of xs k = Some v"
  by (simp add: map_of_eq_Some_iff)

lemma store_entries_iff:
  assumes "store_ok s"
  shows "(a, b, q) \<in> set (store_entries s) \<longleftrightarrow> store_abs s (a, b) = Some q"
proof
  assume "(a, b, q) \<in> set (store_entries s)"
  then obtain d where "(b, d) \<in> set s" "(a, q) \<in> set d"
    by (auto simp: store_entries_def)
  moreover from this have "map_of s b = Some d" "distinct (map fst d)"
    using assms by (auto simp: store_ok_def intro!: map_of_unique)
  ultimately show "store_abs s (a, b) = Some q"
    by (simp add: store_abs_eq)
next
  assume "store_abs s (a, b) = Some q"
  then obtain d where "map_of s b = Some d" "map_of d a = Some q"
    by (auto simp: store_abs_eq split: option.splits)
  then show "(a, b, q) \<in> set (store_entries s)"
    unfolding store_entries_def by (force dest!: map_of_SomeD)
qed

lemma store_find_sound:
  assumes "store_ok s" and "store_find a0 a1 s = Some (a, b)"
  shows "matches a0 a \<and> matches a1 b \<and> pending s a b"
proof (cases a1)
  case None
  with assms(2) obtain q where "(a, b, q) \<in> set (store_entries s)" "q \<noteq> []" "matches a0 a"
    by (auto simp: store_find_def matches_def split: if_splits option.splits
        dest!: find_Some_iff_ex)
  then show ?thesis
    using None by (auto simp: matches_def pending_def store_entries_iff [OF assms(1)] neq_Nil_conv)
next
  case (Some b')
  with assms(2) obtain d where d: "map_of s b = Some d" and b: "b' = b"
    by (auto simp: store_find_def split: if_splits option.splits)
  have "\<exists>q. map_of d a = Some q \<and> q \<noteq> [] \<and> matches a0 a"
    using assms(2) Some d b store_okD [OF assms(1) d]
    by (auto simp: store_find_def matches_def split: if_splits option.splits
        dest!: find_Some_iff_ex intro!: map_of_unique)
  then show ?thesis
    using Some d b by (auto simp: matches_def pending_def store_abs_eq neq_Nil_conv)
qed

lemma store_find_complete:
  assumes "store_ok s" and "store_find a0 a1 s = None" and "matches a0 a" and "matches a1 b"
  shows "\<not> pending s a b"
proof
  assume p: "pending s a b"
  then obtain q where q: "store_abs s (a, b) = Some q" "q \<noteq> []"
    by (auto simp: pending_def)
  then have ent: "(a, b, q) \<in> set (store_entries s)" and ne: "s \<noteq> []"
    using store_entries_iff [OF assms(1)] by auto
  show False
  proof (cases a1)
    case None
    with assms(2,3) ent q(2) ne show False
      by (cases a0) (auto simp: store_find_def matches_def find_None_iff)
  next
    case (Some b')
    obtain d where "map_of s b = Some d" "map_of d a = Some q"
      using q(1) by (auto simp: store_abs_eq split: option.splits)
    with assms(2-4) Some q(2) ne show False
      by (cases a0) (auto simp: store_find_def matches_def find_None_iff dest!: map_of_SomeD)
  qed
qed

text \<open>Searching a list of candidate patterns: the first with a pending stream wins.\<close>

lemma find_first_of_sound:
  assumes "store_ok s" and "find_first_of cs s = Some (a, b)"
  shows "pending s a b \<and> (\<exists>(a0, a1) \<in> set cs. matches a0 a \<and> matches a1 b)"
  using assms(2)
proof (induction cs)
  case Nil
  then show ?case by simp
next
  case (Cons c cs)
  then show ?case
    using store_find_sound [OF assms(1)] by (cases c) (auto split: option.splits)
qed

lemma find_first_of_complete:
  assumes "store_ok s" and "find_first_of cs s = None"
    and "(a0, a1) \<in> set cs" and "matches a0 a" and "matches a1 b"
  shows "\<not> pending s a b"
  using assms(2,3)
proof (induction cs)
  case Nil
  then show ?case by simp
next
  case (Cons c cs)
  then show ?case
    using store_find_complete [OF assms(1) _ assms(4,5)] by (cases c) (auto split: option.splits)
qed

text \<open>What \<open>find_allow_zeros\<close> accepts: the id itself (or anything, for a wildcard) or 0.\<close>

definition matches_zero :: "int option \<Rightarrow> int \<Rightarrow> bool" where
  "matches_zero p a \<longleftrightarrow> matches p a \<or> a = 0"

lemma find_allow_zeros_sound:
  assumes "store_ok s" and "store_find_allow_zeros a0 a1 s = Some (a, b)"
  shows "pending s a b \<and> matches_zero a0 a \<and> matches_zero a1 b"
  using find_first_of_sound [OF assms(1) assms(2) [unfolded store_find_allow_zeros_def]]
  by (auto simp: matches_def matches_zero_def)

lemma find_allow_zeros_complete:
  assumes "store_ok s" and "store_find_allow_zeros a0 a1 s = None"
    and "matches_zero a0 a" and "matches_zero a1 b"
  shows "\<not> pending s a b"
proof -
  have "\<exists>p0 \<in> {a0, Some 0}. matches p0 a" "\<exists>p1 \<in> {a1, Some 0}. matches p1 b"
    using assms(3,4) by (auto simp: matches_zero_def matches_def)
  then show ?thesis
    using find_first_of_complete [OF assms(1) assms(2) [unfolded store_find_allow_zeros_def]]
    by auto
qed

lemma find_allow_zeros_prefers_exact:
  "store_find a0 a1 s = Some p \<Longrightarrow> store_find_allow_zeros a0 a1 s = Some p"
  by (simp add: store_find_allow_zeros_def)

section \<open>Getting shrinks the store\<close>

definition store_size :: "store \<Rightarrow> nat" where
  "store_size s = (\<Sum>(_, val1) \<leftarrow> s. \<Sum>(_, val0) \<leftarrow> val1. length val0)"

lemma sum_update:
  "map_of xs k = Some v \<Longrightarrow>
     (\<Sum>(_, x) \<leftarrow> AList.update k v' xs. f x) + f v = (\<Sum>(_, x) \<leftarrow> xs. f x) + (f v' :: nat)"
  by (induction xs) (auto split: if_splits)

lemma sum_delete: "(\<Sum>(_, x) \<leftarrow> AList.delete k xs. f x) \<le> (\<Sum>(_, x) \<leftarrow> xs. f x :: nat)"
  by (induction xs) (auto simp: AList.delete_eq)

lemma store_size_clear: "store_size (store_clear a b s) \<le> store_size s"
proof -
  have "store_size (AList.update b (AList.delete a d) s) \<le> store_size s" if "map_of s b = Some d" for d
    using sum_update [OF that, of "\<lambda>d. \<Sum>(_, q) \<leftarrow> d. length q" "AList.delete a d"]
      sum_delete [of length a d]
    by (simp add: store_size_def)
  moreover have "store_size (AList.delete b s) \<le> store_size s"
    using sum_delete [of "\<lambda>d. \<Sum>(_, q) \<leftarrow> d. length q" b s] by (simp add: store_size_def)
  ultimately show ?thesis
    by (auto simp: store_clear_def Let_def split: option.split)
qed

lemma store_size_pop:
  assumes "map_of s b = Some d" and "map_of d a = Some (p # q)"
  shows "Suc (store_size (AList.update b (AList.update a q d) s)) = store_size s"
  using sum_update [OF assms(1), of "\<lambda>d. \<Sum>(_, q) \<leftarrow> d. length q" "AList.update a q d"]
    sum_update [OF assms(2), of length q]
  by (simp add: store_size_def)

lemma store_get_smaller:
  assumes "store_get a0 a1 s = (Inr p, s')"
  shows "store_size s' < store_size s"
proof -
  obtain a b d c x q where d: "map_of s b = Some d" and q: "map_of d a = Some ((c, x) # q)"
    and s': "s' = AList.update b (AList.update a q d) s \<or>
             s' = store_clear a b (AList.update b (AList.update a q d) s)"
    using assms
    by (auto simp: store_get_def Let_def split: option.splits prod.splits list.splits if_splits)
  then show ?thesis
    using store_size_pop [OF d q] store_size_clear [of a b "AList.update b (AList.update a q d) s"]
    by auto
qed

section \<open>The interface the I/O manager uses\<close>

text \<open>The packets of a stream, none when the store does not know it.\<close>

definition entries_of :: "entry list option \<Rightarrow> entry list" where
  "entries_of q = (case q of None \<Rightarrow> [] | Some es \<Rightarrow> es)"

text \<open>Taking \<open>n\<close> packets of a stream, one after the other.\<close>

fun store_drain :: "int \<Rightarrow> int \<Rightarrow> nat \<Rightarrow> store \<Rightarrow> (exn + packet) list" where
  "store_drain a b 0 s = []"
| "store_drain a b (Suc n) s =
     (case store_get (Some a) (Some b) s of (r, s') \<Rightarrow> r # store_drain a b n s')"

locale packet_store =
  fixes ok :: "'s \<Rightarrow> bool"
    and abs :: "'s \<Rightarrow> int \<times> int \<Rightarrow> entry list option"
    and empty :: "'s \<Rightarrow> 's"
    and find :: "int option \<Rightarrow> int option \<Rightarrow> 's \<Rightarrow> (int \<times> int) option"
    and get :: "int option \<Rightarrow> int option \<Rightarrow> 's \<Rightarrow> (exn + packet) \<times> 's"
    and put :: "int \<Rightarrow> int \<Rightarrow> cmd \<Rightarrow> bytes \<Rightarrow> 's \<Rightarrow> 's"
    and clear :: "int \<Rightarrow> int \<Rightarrow> 's \<Rightarrow> 's"
  assumes ok_empty: "ok (empty s)"
    and abs_empty: "abs (empty s) = Map.empty"
    and ok_put: "ok s \<Longrightarrow> ok (put a b c x s)"
    and abs_put: "abs (put a b c x s) =
      (case abs s (a, b) of
         None \<Rightarrow> if c = CLSE then abs s else (abs s)((a, b) \<mapsto> [(c, x)])
       | Some q \<Rightarrow> (abs s)((a, b) \<mapsto> q @ [(c, x)]))"
    and ok_clear: "ok s \<Longrightarrow> ok (clear a b s)"
    and abs_clear: "abs (clear a b s) = (abs s)((a, b) := None)"
    and ok_get: "ok s \<Longrightarrow> ok (snd (get a0 a1 s))"
    and fst_get: "abs s (a, b) = Some ((c, x) # q) \<Longrightarrow>
      fst (get (Some a) (Some b) s) = Inr (c, a, b, x)"
    and abs_get: "abs s (a, b) = Some ((c, x) # q) \<Longrightarrow>
      abs (snd (get (Some a) (Some b) s)) =
        (if c = CLSE then (abs s)((a, b) := None) else (abs s)((a, b) \<mapsto> q))"
    and find_sound: "ok s \<Longrightarrow> find a0 a1 s = Some (a, b) \<Longrightarrow>
      matches a0 a \<and> matches a1 b \<and> (\<exists>p q. abs s (a, b) = Some (p # q))"
    and find_complete: "ok s \<Longrightarrow> find a0 a1 s = None \<Longrightarrow> matches a0 a \<Longrightarrow> matches a1 b \<Longrightarrow>
      \<not> (\<exists>p q. abs s (a, b) = Some (p # q))"
begin

text \<open>A get after a find succeeds on the stream that was found.\<close>

lemma get_found:
  assumes "ok s" and "find a0 a1 s = Some (a, b)"
  obtains c x q where "abs s (a, b) = Some ((c, x) # q)"
    and "get (Some a) (Some b) s = (Inr (c, a, b, x), snd (get (Some a) (Some b) s))"
  using find_sound [OF assms] fst_get by (metis prod.collapse surj_pair)

text \<open>Streams do not interfere.\<close>

lemma put_other: "(a', b') \<noteq> (a, b) \<Longrightarrow> abs (put a b c x s) (a', b') = abs s (a', b')"
  by (auto simp: abs_put split: option.split)

lemma get_other:
  "abs s (a, b) = Some ((c, x) # q) \<Longrightarrow> (a', b') \<noteq> (a, b) \<Longrightarrow>
     abs (snd (get (Some a) (Some b) s)) (a', b') = abs s (a', b')"
  by (auto simp: abs_get)

text \<open>First in, first out within a stream.\<close>

lemma get_after_put_pending:
  "abs s (a, b) = Some ((c, x) # q) \<Longrightarrow>
     fst (get (Some a) (Some b) (put a b c' x' s)) = Inr (c, a, b, x)"
  by (rule fst_get [where q = "q @ [(c', x')]"]) (simp add: abs_put)

lemma get_after_put_empty:
  "abs s (a, b) = Some [] \<or> abs s (a, b) = None \<and> c \<noteq> CLSE \<Longrightarrow>
     fst (get (Some a) (Some b) (put a b c x s)) = Inr (c, a, b, x)"
  by (rule fst_get [where q = "[]"]) (auto simp: abs_put)

text \<open>After a run of puts, a stream holds what it held before, then its own packets in order.\<close>

lemma abs_puts:
  assumes "\<forall>(a, b, c, x) \<in> set ps. c \<noteq> CLSE" and "abs s k = Some q"
  shows "abs (fold (\<lambda>(a, b, c, x). put a b c x) ps s) k =
    Some (q @ map (\<lambda>(a, b, c, x). (c, x)) (filter (\<lambda>(a, b, c, x). (a, b) = k) ps))"
  using assms
proof (induction ps arbitrary: s q)
  case Nil
  then show ?case by simp
next
  case (Cons p ps)
  obtain a b c x where p: "p = (a, b, c, x)" by (cases p) auto
  show ?case
  proof (cases "(a, b) = k")
    case True
    with Cons.prems(2) have "abs (put a b c x s) k = Some (q @ [(c, x)])"
      by (auto simp: abs_put)
    with Cons.prems True show ?thesis
      using Cons.IH [of "put a b c x s" "q @ [(c, x)]"] by (simp add: p)
  next
    case False
    with Cons.prems(2) have "abs (put a b c x s) k = Some q"
      by (auto simp: abs_put split: option.split)
    with Cons.prems False show ?thesis
      using Cons.IH [of "put a b c x s" q] by (simp add: p)
  qed
qed

text \<open>The same from a store that may not have the stream yet.\<close>

lemma abs_puts_queue:
  assumes "\<forall>(a, b, c, x) \<in> set ps. c \<noteq> CLSE"
  shows "entries_of (abs (fold (\<lambda>(a, b, c, x). put a b c x) ps s) k) =
    entries_of (abs s k) @ map (\<lambda>(a, b, c, x). (c, x)) (filter (\<lambda>(a, b, c, x). (a, b) = k) ps)"
  using assms
proof (induction ps arbitrary: s)
  case (Cons p ps)
  obtain a b c x where p: "p = (a, b, c, x)" by (cases p) auto
  have "entries_of (abs (put a b c x s) k) = entries_of (abs s k) @ (if (a, b) = k then [(c, x)] else [])"
    using Cons.prems by (auto simp: p abs_put entries_of_def split: option.split)
  with Cons show ?case by (simp add: p)
qed simp

end

interpretation ps: packet_store store_ok store_abs store_clear_all store_find store_get store_put store_clear
proof
  fix s :: store and a b c x q a0 a1
  show "store_ok s \<Longrightarrow> store_find a0 a1 s = Some (a, b) \<Longrightarrow>
      matches a0 a \<and> matches a1 b \<and> (\<exists>p q. store_abs s (a, b) = Some (p # q))"
    using store_find_sound unfolding pending_def by blast
  show "store_ok s \<Longrightarrow> store_find a0 a1 s = None \<Longrightarrow> matches a0 a \<Longrightarrow> matches a1 b \<Longrightarrow>
      \<not> (\<exists>p q. store_abs s (a, b) = Some (p # q))"
    using store_find_complete unfolding pending_def by blast
qed (simp_all add: store_clear_all_def store_ok_put store_abs_put store_ok_clear store_abs_clear
      store_ok_get store_get_exact)

section \<open>Properties\<close>

definition packets_for :: "int \<Rightarrow> int \<Rightarrow> (int \<times> int \<times> cmd \<times> bytes) list \<Rightarrow> (int \<times> int \<times> cmd \<times> bytes) list" where
  "packets_for a0 a1 ps = filter (\<lambda>(a, b, c, x). (a, b) = (a0, a1)) ps"

lemma drain_queue:
  "store_abs s (a, b) = Some q \<Longrightarrow> \<forall>(c, x) \<in> set q. c \<noteq> CLSE \<Longrightarrow>
     store_drain a b (length q) s = map (\<lambda>(c, x). Inr (c, a, b, x)) q"
proof (induction q arbitrary: s)
  case (Cons p q)
  obtain c x where p: "p = (c, x)" by (cases p)
  have "store_abs (snd (store_get (Some a) (Some b) s)) (a, b) = Some q"
    using ps.abs_get [OF Cons.prems(1) [unfolded p]] Cons.prems(2) p by auto
  with Cons ps.fst_get [OF Cons.prems(1) [unfolded p]] show ?case
    by (simp add: p split: prod.split) (metis fst_conv snd_conv)
qed simp

text \<open>C30. First in, first out, per stream: whatever packets are put in whatever interleaving into
  an empty store (none of them \<open>CLSE\<close>), taking packets of one stream gives exactly the packets
  put for that stream, in the order they were put.\<close>

theorem store_fifo:
  assumes "\<forall>(a, b, c, x) \<in> set ps. c \<noteq> CLSE"
  shows "store_drain a0 a1 (length (packets_for a0 a1 ps)) (fold (\<lambda>(a, b, c, x). store_put a b c x) ps []) =
    map (\<lambda>(a, b, c, x). Inr (c, a, b, x)) (packets_for a0 a1 ps)"
proof (cases "packets_for a0 a1 ps = []")
  case False
  let ?s = "fold (\<lambda>(a, b, c, x). store_put a b c x) ps []"
  let ?q = "map (\<lambda>(a, b, c, x). (c, x)) (packets_for a0 a1 ps)"
  have q: "entries_of (store_abs ?s (a0, a1)) = ?q"
    using ps.abs_puts_queue [OF assms(1), of "[]" "(a0, a1)"] by (simp add: packets_for_def entries_of_def)
  with False have "store_abs ?s (a0, a1) = Some ?q"
    by (auto simp: entries_of_def split: option.splits)
  moreover have "\<forall>(c, x) \<in> set ?q. c \<noteq> CLSE" using assms(1) by (auto simp: packets_for_def)
  ultimately show ?thesis
    using drain_queue [of ?s a0 a1 ?q] by (auto simp: packets_for_def)
qed simp

theorem store_fifo_witness:
  "store_drain 1 2 2 (fold (\<lambda>(a, b, c, x). store_put a b c x)
      [(1, 2, OKAY, []), (3, 4, WRTE, [9]), (1, 2, WRTE, [7, 8])] []) =
    [Inr (OKAY, 1, 2, []), Inr (WRTE, 1, 2, [7, 8])]"
  using store_fifo [of "[(1, 2, OKAY, []), (3, 4, WRTE, [9]), (1, 2, WRTE, [7, 8])]" 1 2]
  by (simp add: packets_for_def numeral_2_eq_2)

text \<open>C31. Putting and clearing are confined to one stream, and a closed stream is not opened by a
  late \<open>CLSE\<close>: \<open>put\<close> appends to its own queue, or starts one unless the packet is a \<open>CLSE\<close>;
  \<open>clear\<close> removes its own queue; every other stream is as before.\<close>

theorem store_isolation:
  "store_abs (store_put a b c x s) =
     (store_abs s)((a, b) :=
        (case store_abs s (a, b) of
           None \<Rightarrow> if c = CLSE then None else Some [(c, x)]
         | Some q \<Rightarrow> Some (q @ [(c, x)]))) \<and>
   store_abs (store_clear a b s) = (store_abs s)((a, b) := None)"
  by (auto simp: store_abs_put store_abs_clear fun_eq_iff split: option.split)

text \<open>C32. \<open>find\<close> and \<open>find_allow_zeros\<close> are exact on a well-formed store: what they return is a
  stream that matches the request (or has a 0 in place of an id, for the second) and has a packet
  waiting; when they return nothing there is no such stream.\<close>

theorem store_find_exact:
  assumes "store_ok s"
  shows "(case store_find a0 a1 s of
        None \<Rightarrow> \<nexists>a b. matches a0 a \<and> matches a1 b \<and> pending s a b
      | Some (a, b) \<Rightarrow> matches a0 a \<and> matches a1 b \<and> pending s a b) \<and>
    (case store_find_allow_zeros a0 a1 s of
        None \<Rightarrow> \<nexists>a b. matches_zero a0 a \<and> matches_zero a1 b \<and> pending s a b
      | Some (a, b) \<Rightarrow> matches_zero a0 a \<and> matches_zero a1 b \<and> pending s a b)"
  using store_find_sound [OF assms] store_find_complete [OF assms]
    find_allow_zeros_sound [OF assms] find_allow_zeros_complete [OF assms]
  by (auto split: option.split)

theorem store_find_exact_witness:
  "store_find_allow_zeros (Some 5) (Some 9) [(1, [(5, [])]), (0, [(5, [(OKAY, [])])])] = Some (5, 0) \<and>
   (case store_find_allow_zeros (Some 5) (Some 9) [(1, [(5, [])]), (0, [(5, [(OKAY, [])])])] of
        None \<Rightarrow> \<nexists>a b. matches_zero (Some 5) a \<and> matches_zero (Some 9) b \<and>
          pending [(1, [(5, [])]), (0, [(5, [(OKAY, [])])])] a b
      | Some (a, b) \<Rightarrow> matches_zero (Some 5) a \<and> matches_zero (Some 9) b \<and>
          pending [(1, [(5, [])]), (0, [(5, [(OKAY, [])])])] a b)"
  using store_find_exact [of "[(1, [(5, [])]), (0, [(5, [(OKAY, [])])])]" "Some 5" "Some 9"]
  by (simp add: store_ok_def store_find_allow_zeros_def store_find_def)

text \<open>C33. The operations keep the store well-formed: no key occurs twice and no stream table of a
  local id is left empty.\<close>

theorem store_invariant:
  assumes "store_ok s"
  shows "store_ok (store_put a b c x s) \<and> store_ok (store_clear a b s) \<and>
    store_ok (snd (store_get a0 a1 s)) \<and> store_ok (store_clear_all s)"
  using assms by (simp add: store_ok_put store_ok_clear store_ok_get store_clear_all_def)

theorem store_invariant_witness:
  "store_ok (snd (store_get None (Some 2) (store_put 1 2 CLSE [] (store_put 1 2 WRTE [7] []))))"
  using store_invariant [of "store_put 1 2 CLSE [] (store_put 1 2 WRTE [7] [])" 0 0 OKAY "[]" None "Some 2"]
  by (simp add: store_put_def store_ok_def)

lemma store_len_entries: "store_len s = length (filter (\<lambda>(_, _, q). q \<noteq> []) (store_entries s))"
proof -
  have "(\<Sum>(_, q) \<leftarrow> d. if q \<noteq> [] then 1 else 0) =
      length (filter (\<lambda>(_, _, q). q \<noteq> []) (map (\<lambda>(a, q). (a, b, q)) d))" for d :: "(int \<times> entry list) list" and b :: int
    by (induction d) auto
  then show ?thesis by (induction s) (auto simp: store_len_def store_entries_def)
qed

abbreviation entry_key :: "int \<times> int \<times> entry list \<Rightarrow> int \<times> int" where
  "entry_key \<equiv> \<lambda>(a, b, q). (a, b)"

lemma store_entries_Cons: "store_entries ((b, d) # s) = map (\<lambda>(a, q). (a, b, q)) d @ store_entries s"
  by (simp add: store_entries_def)

lemma store_entries_distinct:
  assumes "store_ok s"
  shows "distinct (map entry_key (store_entries s))"
  using assms
proof (induction s)
  case (Cons p s)
  obtain b d where p: "p = (b, d)" by (cases p)
  have "map entry_key (map (\<lambda>(a, q). (a, b, q)) d) = map (\<lambda>a. (a, b)) (map fst d)"
    by auto
  moreover have "distinct (map (\<lambda>a. (a, b)) (map fst d))"
    using Cons.prems by (simp add: p store_ok_def distinct_map inj_on_def)
  moreover have "snd k \<noteq> b" if "k \<in> set (map entry_key (store_entries s))" for k
  proof -
    have "snd k \<in> set (map fst s)" using that by (force simp: store_entries_def)
    with Cons.prems show ?thesis by (auto simp: p store_ok_def)
  qed
  moreover have "distinct (map entry_key (store_entries s))"
    using Cons by (simp add: p store_ok_def)
  ultimately show ?case by (force simp del: map_map simp: p store_entries_Cons)
qed (simp add: store_entries_def)

text \<open>\<open>len\<close> of a well-formed store is the number of streams with a packet waiting.\<close>

theorem store_len_counts:
  assumes "store_ok s"
  shows "store_len s = card {(a, b). pending s a b}"
proof -
  let ?es = "filter (\<lambda>(_, _, q). q \<noteq> []) (store_entries s)"
  have d: "distinct (map entry_key ?es)"
    using store_entries_distinct [OF assms] by (rule distinct_map_filter)
  have "k \<in> set (map entry_key ?es) \<longleftrightarrow> (case k of (a, b) \<Rightarrow> pending s a b)" for k
    by (cases k) (force simp: store_entries_iff [OF assms] pending_def neq_Nil_conv image_iff)
  then have "{(a, b). pending s a b} = set (map entry_key ?es)" by blast
  with distinct_card [OF d] show ?thesis by (simp add: store_len_entries)
qed

theorem store_len_counts_witness:
  "store_len [(1, [(5, [])]), (2, [(5, [(OKAY, [])])])] =
     card {(a, b). pending [(1, [(5, [])]), (2, [(5, [(OKAY, [])])])] a b}"
  by (rule store_len_counts) (simp add: store_ok_def)

end
