(* ===== verification/Struct_Pack.thy ===== *)
theory Struct_Pack
  imports Prelude
begin

text \<open>
  What the code uses of Python's \<open>struct\<close> module: the formats \<open>'<nI'\<close> (n unsigned
  32-bit little-endian integers), \<open>'<Q'\<close>, \<open>'B'\<close> and \<open>'>BBI'\<close>. Packing raises
  \<open>struct.error\<close> when a value does not fit or is not an integer (\<open>None\<close>); unpacking
  raises it when the buffer does not have the size of the format.
\<close>

section \<open>Fixed-width unsigned integers as bytes\<close>

text \<open>The \<open>n\<close> low bytes of an integer, least significant first, and back.\<close>

fun le_bytes :: "nat \<Rightarrow> int \<Rightarrow> bytes" where
  "le_bytes 0 v = []"
| "le_bytes (Suc n) v = word_of_int v # le_bytes n (v div 256)"

fun le_int :: "bytes \<Rightarrow> int" where
  "le_int [] = 0"
| "le_int (b # bs) = uint b + 256 * le_int bs"

lemma length_le_bytes [simp]: "length (le_bytes n v) = n"
  by (induction n arbitrary: v) simp_all

lemma uint_word_of_int_byte: "uint (word_of_int v :: byte) = v mod 256"
  by (simp add: uint_word_of_int)

lemma le_int_le_bytes: "le_int (le_bytes n v) = v mod 256 ^ n"
proof (induction n arbitrary: v)
  case 0
  then show ?case by simp
next
  case (Suc n)
  have "v mod 256 ^ Suc n = v mod 256 + 256 * (v div 256 mod 256 ^ n)"
    using mod_mult2_eq' [of v 256 "256 ^ n"]
    by (simp add: zmod_zmult2_eq)
  then show ?case by (simp add: Suc uint_word_of_int_byte)
qed

lemma uint_byte_range: "0 \<le> uint (b :: byte)" "uint (b :: byte) < 256"
  using uint_lt2p [of b] by simp_all

lemma le_int_range: "0 \<le> le_int bs \<and> le_int bs < 256 ^ length bs"
proof (induction bs)
  case Nil
  then show ?case by simp
next
  case (Cons b bs)
  then show ?case using uint_byte_range [of b] by auto
qed

lemma le_bytes_le_int: "le_bytes (length bs) (le_int bs) = bs"
proof (induction bs)
  case Nil
  then show ?case by simp
next
  case (Cons b bs)
  have "(uint b + 256 * le_int bs) div 256 = le_int bs"
    using uint_byte_range [of b] by simp
  moreover have "word_of_int (uint b + 256 * le_int bs) = b"
  proof (rule word_uint_eq_iff [THEN iffD2], rule trans)
    show "uint (word_of_int (uint b + 256 * le_int bs) :: byte) = (uint b + 256 * le_int bs) mod 256"
      by (rule uint_word_of_int_byte)
    show "(uint b + 256 * le_int bs) mod 256 = uint b"
      using uint_byte_range [of b] by simp
  qed
  ultimately show ?case using Cons by simp
qed

section \<open>\<open>struct.pack\<close> and \<open>struct.unpack\<close>\<close>

text \<open>One unsigned field of \<open>n\<close> bytes; the value is an integer or \<open>None\<close>.\<close>

definition pack_uint :: "nat \<Rightarrow> int option \<Rightarrow> exn + bytes" where
  "pack_uint n v =
     (case v of
        None \<Rightarrow> Inl StructError
      | Some i \<Rightarrow> if 0 \<le> i \<and> i < 256 ^ n then Inr (le_bytes n i) else Inl StructError)"

text \<open>\<open>struct.pack(b'<nI', *vs)\<close>\<close>

fun struct_pack :: "int option list \<Rightarrow> exn + bytes" where
  "struct_pack [] = Inr []"
| "struct_pack (v # vs) =
     e_bind (pack_uint 4 v) (\<lambda>b. e_bind (struct_pack vs) (\<lambda>bs. Inr (b @ bs)))"

fun unpack_words :: "nat \<Rightarrow> bytes \<Rightarrow> int list" where
  "unpack_words 0 bs = []"
| "unpack_words (Suc n) bs = le_int (take 4 bs) # unpack_words n (drop 4 bs)"

text \<open>\<open>struct.unpack(b'<nI', bs)\<close>\<close>

definition struct_unpack :: "nat \<Rightarrow> bytes \<Rightarrow> exn + int list" where
  "struct_unpack n bs = (if length bs = 4 * n then Inr (unpack_words n bs) else Inl StructError)"

definition u32_range :: "int \<Rightarrow> bool" where
  "u32_range i \<longleftrightarrow> 0 \<le> i \<and> i < 2 ^ 32"

lemma pack_uint_eq_Inr:
  "pack_uint n v = Inr bs \<longleftrightarrow> (\<exists>i. v = Some i \<and> 0 \<le> i \<and> i < 256 ^ n \<and> bs = le_bytes n i)"
  by (auto simp: pack_uint_def split: option.splits)

lemma pack_uint_u32: "u32_range i \<Longrightarrow> pack_uint 4 (Some i) = Inr (le_bytes 4 i)"
  by (simp add: pack_uint_def u32_range_def)

lemma pack_uint_error: "pack_uint n v = Inl e \<Longrightarrow> e = StructError"
  by (auto simp: pack_uint_def split: option.splits if_splits)

lemma struct_pack_ok:
  "list_all u32_range is \<Longrightarrow> struct_pack (map Some is) = Inr (concat (map (le_bytes 4) is))"
  by (induction "is") (simp_all add: pack_uint_u32)

lemma struct_pack_error: "struct_pack vs = Inl e \<Longrightarrow> e = StructError"
  by (induction vs) (auto simp: e_bind_eq_Inl dest: pack_uint_error)

lemma struct_pack_Inr:
  "struct_pack vs = Inr bs \<longleftrightarrow>
     (\<exists>is. vs = map Some is \<and> list_all u32_range is \<and> bs = concat (map (le_bytes 4) is))"
proof (induction vs arbitrary: bs)
  case Nil
  then show ?case by auto
next
  case (Cons v vs)
  show ?case
  proof
    assume "struct_pack (v # vs) = Inr bs"
    then obtain i ys where i: "v = Some i" "0 \<le> i" "i < 256 ^ 4"
      and ys: "struct_pack vs = Inr ys" "bs = le_bytes 4 i @ ys"
      by (auto simp: e_bind_eq_Inr pack_uint_eq_Inr)
    from ys(1) Cons obtain "is" where "vs = map Some is" "list_all u32_range is"
      "ys = concat (map (le_bytes 4) is)" by blast
    with i ys(2) show "\<exists>is. v # vs = map Some is \<and> list_all u32_range is \<and>
      bs = concat (map (le_bytes 4) is)"
      by (intro exI [of _ "i # is"]) (simp add: u32_range_def)
  next
    assume "\<exists>is. v # vs = map Some is \<and> list_all u32_range is \<and> bs = concat (map (le_bytes 4) is)"
    then show "struct_pack (v # vs) = Inr bs"
      using struct_pack_ok by metis
  qed
qed

lemma length_concat_le_bytes [simp]: "length (concat (map (le_bytes n) is)) = n * length is"
  by (induction "is") simp_all

lemma unpack_words_concat:
  "list_all u32_range is \<Longrightarrow> unpack_words (length is) (concat (map (le_bytes 4) is) @ rest) = is"
  by (induction "is") (simp_all add: le_int_le_bytes u32_range_def)

lemma struct_unpack_pack:
  assumes "list_all u32_range is"
  shows "struct_unpack (length is) (concat (map (le_bytes 4) is)) = Inr is"
  using assms unpack_words_concat [of "is" "[]"] by (simp add: struct_unpack_def)

lemma length_unpack_words [simp]: "length (unpack_words n bs) = n"
  by (induction n arbitrary: bs) simp_all

lemma unpack_words_range:
  "length bs = 4 * n \<Longrightarrow> list_all u32_range (unpack_words n bs)"
proof (induction n arbitrary: bs)
  case 0
  then show ?case by simp
next
  case (Suc n)
  have "u32_range (le_int (take 4 bs))"
    using le_int_range [of "take 4 bs"] Suc.prems by (simp add: u32_range_def)
  with Suc show ?case by simp
qed

lemma concat_unpack_words:
  "length bs = 4 * n \<Longrightarrow> concat (map (le_bytes 4) (unpack_words n bs)) = bs"
proof (induction n arbitrary: bs)
  case 0
  then show ?case by simp
next
  case (Suc n)
  have "le_bytes 4 (le_int (take 4 bs)) = take 4 bs"
    using le_bytes_le_int [of "take 4 bs"] Suc.prems by simp
  with Suc show ?case by simp
qed

lemma struct_unpack_eq_Inr:
  "struct_unpack n bs = Inr is \<longleftrightarrow>
     length is = n \<and> list_all u32_range is \<and> bs = concat (map (le_bytes 4) is)"
  using struct_unpack_pack [of "is"]
  by (auto simp: struct_unpack_def unpack_words_range concat_unpack_words split: if_splits)

end
