(* ===== verification/Adb_Message.thy ===== *)
theory Adb_Message
  imports Constants Struct_Pack Utf8
begin

text \<open>
  \<open>adb_shell_wifi/adb_message.py\<close>: ADB messages and their 24-byte little-endian header.
  A Python integer is an \<open>int\<close>; \<open>arg0\<close> and \<open>arg1\<close> may also be \<open>None\<close> (the ids of a
  transaction before they are known), on which packing raises \<open>struct.error\<close>. Message
  data is \<open>bytes\<close>: the code never builds a message from a \<open>str\<close>, so the branch of
  \<open>checksum\<close> for one is left out.
\<close>

section \<open>Definitions\<close>

definition MESSAGE_SIZE :: int where
  "MESSAGE_SIZE = 4 * 6"

definition checksum :: "bytes \<Rightarrow> int" where
  "checksum data = and (sum_list (map uint data)) 0xFFFFFFFF"

text \<open>\<open>''.join(chr((n >> (i * 8)) % 256) for i in range(4)).encode('utf-8')\<close>\<close>

definition int_to_cmd :: "int \<Rightarrow> exn + bytes" where
  "int_to_cmd n = utf8_encode (map (\<lambda>i. nat (drop_bit (i * 8) n mod 256)) [0..<4])"

record adb_message =
  msg_command :: int
  msg_magic :: int
  msg_arg0 :: "int option"
  msg_arg1 :: "int option"
  msg_data :: bytes

definition AdbMessage :: "cmd \<Rightarrow> int option \<Rightarrow> int option \<Rightarrow> bytes \<Rightarrow> exn + adb_message" where
  "AdbMessage command arg0 arg1 data =
     e_bind (py_lookup ID_TO_WIRE command) (\<lambda>w.
       Inr \<lparr>msg_command = w, msg_magic = xor w 0xFFFFFFFF,
            msg_arg0 = arg0, msg_arg1 = arg1, msg_data = data\<rparr>)"

definition pack :: "adb_message \<Rightarrow> exn + bytes" where
  "pack m = struct_pack
     [Some (msg_command m), msg_arg0 m, msg_arg1 m, Some (int (length (msg_data m))),
      Some (checksum (msg_data m)), Some (msg_magic m)]"

text \<open>Returns \<open>cmd, arg0, arg1, data_length, data_checksum\<close>; the magic is dropped.\<close>

definition unpack :: "bytes \<Rightarrow> exn + (int \<times> int \<times> int \<times> int \<times> int)" where
  "unpack message =
     (case struct_unpack 6 message of
        Inl _ \<Rightarrow> Inl ValueError
      | Inr vs \<Rightarrow> Inr (vs ! 0, vs ! 1, vs ! 2, vs ! 3, vs ! 4))"

section \<open>The checksum\<close>

lemma checksum_mod: "checksum data = sum_list (map uint data) mod 2 ^ 32"
proof -
  have m: "(0xFFFFFFFF :: int) = mask 32" by (simp add: mask_eq_exp_minus_1)
  show ?thesis
    unfolding checksum_def m by (simp add: take_bit_eq_mask [symmetric] take_bit_eq_mod)
qed

lemma checksum_range: "u32_range (checksum data)"
  by (simp add: checksum_mod u32_range_def)

lemma checksum_append: "checksum (xs @ ys) = (checksum xs + checksum ys) mod 2 ^ 32"
  by (simp add: checksum_mod mod_simps)

lemma sum_uint_bound: "sum_list (map uint (data :: bytes)) \<le> 255 * int (length data)"
proof (induction data)
  case Nil
  then show ?case by simp
next
  case (Cons b data)
  then show ?case using uint_byte_range [of b] by simp
qed

lemma sum_uint_nonneg: "0 \<le> sum_list (map uint (data :: bytes))"
  by (induction data) simp_all

text \<open>Below \<open>2 ^ 32 / 255\<close> bytes, more than any ADB packet holds, the sum does not wrap.\<close>

lemma checksum_no_wrap:
  assumes "int (length data) \<le> 16 * 1024 * 1024"
  shows "checksum data = sum_list (map uint data)"
proof -
  have "sum_list (map uint data) < 2 ^ 32"
    using sum_uint_bound [of data] assms by simp
  then show ?thesis using sum_uint_nonneg [of data] by (simp add: checksum_mod)
qed

lemma checksum_flip_detected:
  assumes "checksum (xs @ b # ys) = checksum (xs @ c # ys)"
  shows "b = c"
proof -
  have "(sum_list (map uint xs) + sum_list (map uint ys) + uint b) mod 2 ^ 32
      = (sum_list (map uint xs) + sum_list (map uint ys) + uint c) mod 2 ^ 32"
    using assms by (simp add: checksum_mod ac_simps)
  then have "(uint b - uint c) mod 2 ^ 32 = 0"
    by (simp add: mod_eq_dvd_iff)
  then obtain q where "uint b - uint c = 4294967296 * q"
    by (auto simp: zmod_eq_0_iff)
  moreover from this have "q < 1" "- 1 < q"
    using uint_byte_range [of b] uint_byte_range [of c] by linarith+
  ultimately have "uint b = uint c" by simp
  then show ?thesis by (simp add: word_uint_eq_iff)
qed

section \<open>Building and packing a message\<close>

lemma AdbMessage_eq:
  "AdbMessage c a0 a1 d =
     (if c \<in> set IDS
      then Inr \<lparr>msg_command = cmd_wire c, msg_magic = xor (cmd_wire c) 0xFFFFFFFF,
                msg_arg0 = a0, msg_arg1 = a1, msg_data = d\<rparr>
      else Inl KeyError)"
  by (simp add: AdbMessage_def ID_TO_WIRE_eq py_lookup_def)

lemma magic_complement:
  assumes "AdbMessage c a0 a1 d = Inr m"
  shows "msg_command m + msg_magic m = 2 ^ 32 - 1"
  using assms by (cases c) (auto simp: AdbMessage_eq IDS_def)

lemma magic_range:
  assumes "AdbMessage c a0 a1 d = Inr m"
  shows "u32_range (msg_command m)" "u32_range (msg_magic m)"
proof -
  from assms have "msg_command m = cmd_wire c" by (auto simp: AdbMessage_eq split: if_splits)
  then show "u32_range (msg_command m)" "u32_range (msg_magic m)"
    using magic_complement [OF assms] cmd_wire_range [of c] by (auto simp: u32_range_def)
qed

text \<open>What a message must satisfy to be packed: the arguments and the length fit 32 bits.\<close>

definition packable :: "adb_message \<Rightarrow> bool" where
  "packable m \<longleftrightarrow>
     (\<exists>a0 a1. msg_arg0 m = Some a0 \<and> msg_arg1 m = Some a1 \<and> u32_range a0 \<and> u32_range a1) \<and>
     u32_range (msg_command m) \<and> u32_range (msg_magic m) \<and> length (msg_data m) < 2 ^ 32"

definition header_words :: "adb_message \<Rightarrow> int list" where
  "header_words m =
     [msg_command m, the (msg_arg0 m), the (msg_arg1 m), int (length (msg_data m)),
      checksum (msg_data m), msg_magic m]"

lemma u32_range_length: "u32_range (int n) \<longleftrightarrow> n < 2 ^ 32"
  by (auto simp: u32_range_def)

lemma pack_ok:
  assumes "packable m"
  shows "pack m = Inr (concat (map (le_bytes 4) (header_words m)))"
proof -
  obtain a0 a1 where a: "msg_arg0 m = Some a0" "msg_arg1 m = Some a1"
    using assms by (auto simp: packable_def)
  have "list_all u32_range (header_words m)"
    using assms a checksum_range by (auto simp: packable_def header_words_def u32_range_length)
  from struct_pack_ok [OF this] show ?thesis
    by (simp add: pack_def header_words_def a)
qed

lemma pack_Inr_packable:
  assumes "pack m = Inr bs"
  shows "packable m"
proof -
  from assms obtain "is" where eq: "[Some (msg_command m), msg_arg0 m, msg_arg1 m,
      Some (int (length (msg_data m))), Some (checksum (msg_data m)), Some (msg_magic m)]
      = map Some is" and r: "list_all u32_range is"
    unfolding pack_def struct_pack_Inr by (elim exE conjE) (rule that)
  from eq obtain a0 a1 where "msg_arg0 m = Some a0" "msg_arg1 m = Some a1"
    by (auto simp: Cons_eq_map_conv)
  with eq have "is = header_words m"
    by (auto simp: Cons_eq_map_conv header_words_def)
  with r \<open>msg_arg0 m = Some a0\<close> \<open>msg_arg1 m = Some a1\<close> show ?thesis
    by (simp add: packable_def header_words_def u32_range_length)
qed

lemma pack_iff: "pack m = Inr bs \<longleftrightarrow> packable m \<and> bs = concat (map (le_bytes 4) (header_words m))"
  using pack_ok pack_Inr_packable by fastforce

lemma pack_error: "pack m = Inl e \<longleftrightarrow> \<not> packable m \<and> e = StructError"
proof (cases "pack m")
  case (Inl e')
  then have "e' = StructError" unfolding pack_def by (rule struct_pack_error)
  moreover have "\<not> packable m" using Inl pack_ok by fastforce
  ultimately show ?thesis using Inl by auto
next
  case (Inr bs)
  then show ?thesis using pack_Inr_packable by fastforce
qed

lemma length_pack: "pack m = Inr bs \<Longrightarrow> int (length bs) = MESSAGE_SIZE"
  by (simp add: pack_iff header_words_def MESSAGE_SIZE_def)

lemma packable_AdbMessage:
  assumes "AdbMessage c a0 a1 d = Inr m"
  shows "packable m \<longleftrightarrow>
     (\<exists>x y. a0 = Some x \<and> a1 = Some y \<and> u32_range x \<and> u32_range y) \<and> length d < 2 ^ 32"
proof -
  from assms have "msg_arg0 m = a0" "msg_arg1 m = a1" "msg_data m = d"
    by (auto simp: AdbMessage_eq split: if_splits)
  with magic_range [OF assms] show ?thesis by (auto simp: packable_def)
qed

section \<open>Round trip\<close>

lemma unpack_header:
  assumes "packable m"
  shows "unpack (concat (map (le_bytes 4) (header_words m))) =
     Inr (msg_command m, the (msg_arg0 m), the (msg_arg1 m), int (length (msg_data m)),
          checksum (msg_data m))"
proof -
  have "list_all u32_range (header_words m)"
    using assms checksum_range by (auto simp: packable_def header_words_def u32_range_length)
  moreover have "length (header_words m) = 6" by (simp add: header_words_def)
  ultimately have "struct_unpack 6 (concat (map (le_bytes 4) (header_words m))) = Inr (header_words m)"
    using struct_unpack_pack [of "header_words m"] by simp
  then show ?thesis by (simp add: unpack_def header_words_def)
qed

lemma unpack_pack:
  assumes "AdbMessage c (Some a0) (Some a1) d = Inr m" and "pack m = Inr bs"
  shows "unpack bs = Inr (cmd_wire c, a0, a1, int (length d), checksum d)"
proof -
  from assms(1) have m: "msg_command m = cmd_wire c" "msg_arg0 m = Some a0"
    "msg_arg1 m = Some a1" "msg_data m = d"
    by (auto simp: AdbMessage_eq split: if_splits)
  from assms(2) have "packable m" "bs = concat (map (le_bytes 4) (header_words m))"
    by (auto simp: pack_iff)
  then show ?thesis using unpack_header m by simp
qed

lemma unpack_error: "unpack bs = Inl e \<longleftrightarrow> int (length bs) \<noteq> MESSAGE_SIZE \<and> e = ValueError"
  by (auto simp: unpack_def struct_unpack_def MESSAGE_SIZE_def)

lemma unpack_ranges:
  assumes "unpack bs = Inr (c, a0, a1, n, k)"
  shows "u32_range c" "u32_range a0" "u32_range a1" "u32_range n" "u32_range k"
proof -
  from assms obtain vs where vs: "struct_unpack 6 bs = Inr vs"
    "c = vs ! 0" "a0 = vs ! 1" "a1 = vs ! 2" "n = vs ! 3" "k = vs ! 4"
    by (auto simp: unpack_def split: sum.splits)
  then have "length vs = 6" "list_all u32_range vs" by (auto simp: struct_unpack_eq_Inr)
  then show "u32_range c" "u32_range a0" "u32_range a1" "u32_range n" "u32_range k"
    using vs(2-) by (auto simp: list_all_length)
qed

text \<open>\<open>int_to_cmd\<close> gives a known command's name back from its wire value.\<close>

lemma int_to_cmd_wire: "int_to_cmd (cmd_wire c) = Inr (cmd_bytes c)"
  by (cases c; simp only: cmd_wire_value cmd_bytes_def cmd_name.simps; code_simp)

section \<open>Properties\<close>

lemma fits_header:
  "AdbMessage c a0 a1 d = Inr m \<Longrightarrow> pack m = Inr bs \<Longrightarrow> \<exists>x y. a0 = Some x \<and> a1 = Some y"
  by (auto simp: pack_iff packable_AdbMessage)

text \<open>C35. Building a message and packing it either fails for one of exactly two reasons, an
  id that is no message command (\<open>KeyError\<close>) or a field that does not fit (\<open>struct.error\<close>),
  or gives 24 bytes from which \<open>unpack\<close> reads the command, both arguments, the length and the
  checksum of the data back.\<close>

theorem header_round_trip:
  "case e_bind (AdbMessage c a0 a1 d) pack of
     Inl e \<Rightarrow>
       if c \<in> set IDS
       then e = StructError \<and>
         (\<nexists>x y. a0 = Some x \<and> a1 = Some y \<and> u32_range x \<and> u32_range y \<and> length d < 2 ^ 32)
       else e = KeyError
   | Inr bs \<Rightarrow> c \<in> set IDS \<and> length bs = 24 \<and>
       (\<exists>x y. a0 = Some x \<and> a1 = Some y \<and>
          unpack bs = Inr (cmd_wire c, x, y, int (length d), checksum d))"
proof (cases "AdbMessage c a0 a1 d")
  case (Inl e)
  then show ?thesis by (auto simp: AdbMessage_eq split: if_splits)
next
  case (Inr m)
  then have c: "c \<in> set IDS" by (auto simp: AdbMessage_eq split: if_splits)
  show ?thesis
  proof (cases "pack m")
    case (Inl e)
    then have "e = StructError" "\<not> packable m" by (simp_all add: pack_error)
    with Inl Inr c packable_AdbMessage [OF Inr] show ?thesis by auto
  next
    case Inr': (Inr bs)
    obtain x y where "a0 = Some x" "a1 = Some y" using fits_header [OF Inr Inr'] by blast
    with Inr Inr' c length_pack [OF Inr'] show ?thesis
      by (auto simp: unpack_pack MESSAGE_SIZE_def)
  qed
qed

text \<open>\<open>unpack\<close> accepts exactly the strings of 24 bytes, every other one is a \<open>ValueError\<close>,
  and the five fields it returns are unsigned 32-bit numbers whose encodings are the first
  twenty bytes.\<close>

theorem unpack_exact:
  "case unpack bs of
     Inl e \<Rightarrow> e = ValueError \<and> length bs \<noteq> 24
   | Inr (c, a0, a1, n, k) \<Rightarrow> length bs = 24 \<and> list_all u32_range [c, a0, a1, n, k] \<and>
       take 20 bs = concat (map (le_bytes 4) [c, a0, a1, n, k])"
proof (cases "unpack bs")
  case (Inl e)
  then have "e = ValueError" "length bs \<noteq> 24" by (auto simp: unpack_error MESSAGE_SIZE_def)
  with Inl show ?thesis by simp
next
  case (Inr v)
  obtain c a0 a1 n k where v: "v = (c, a0, a1, n, k)" by (cases v)
  obtain vs where vs: "struct_unpack 6 bs = Inr vs"
    "c = vs ! 0" "a0 = vs ! 1" "a1 = vs ! 2" "n = vs ! 3" "k = vs ! 4"
    using Inr v by (auto simp: unpack_def split: sum.splits)
  then have l: "length vs = 6" "list_all u32_range vs" "bs = concat (map (le_bytes 4) vs)"
    by (auto simp: struct_unpack_eq_Inr)
  then obtain w where w: "vs = [c, a0, a1, n, k, w]"
    using vs(2-) by (auto simp: length_Suc_conv numeral_eq_Suc)
  have "length bs = 24" using l by simp
  with l(2,3) Inr v w show ?thesis by (simp del: le_bytes.simps)
qed

text \<open>Two payloads that differ in exactly one byte have different checksums.\<close>

theorem checksum_detects_byte: "checksum (xs @ b # ys) = checksum (xs @ c # ys) \<longleftrightarrow> b = c"
  by (auto dest: checksum_flip_detected)

text \<open>The checksum of a payload the protocol allows (up to \<open>MAX_ADB_DATA\<close>) is the plain sum
  of its bytes: the 32-bit mask never cuts anything off.\<close>

theorem checksum_is_sum:
  assumes "int (length data) \<le> MAX_ADB_DATA"
  shows "checksum data = sum_list (map uint data)"
  using assms by (intro checksum_no_wrap) (simp add: MAX_ADB_DATA_def)

theorem checksum_is_sum_witness:
  "checksum [255, 254, 3] = sum_list (map uint [255 :: byte, 254, 3])"
  by (rule checksum_is_sum) (simp add: MAX_ADB_DATA_def)

end
