(* ===== verification/IO_Manager.thy ===== *)
theory IO_Manager
  imports Transport Transaction_Info Packet_Store Adb_Message
begin

text \<open>
  \<open>_AdbIOManager\<close> of \<open>adb_shell_wifi/adb_device.py\<close>: every byte between the host and the
  device passes through it. Its state is the packet store and the transport; one thread
  runs at a time here, so taking and releasing the two locks leaves no trace. A loop whose
  end depends on the device or the clock is an \<open>io_loop\<close>, so \<open>None\<close> is "does not return".
\<close>

section \<open>State\<close>

record 'w io_manager =
  packet_store :: store
  transport_state :: 'w

text \<open>A call of one of the transport's methods, and a pure step on the packet store.\<close>

definition on_transport :: "('w, 'a) prog \<Rightarrow> ('w io_manager, 'a) prog" where
  "on_transport = io_zoom transport_state (\<lambda>w m. m\<lparr>transport_state := w\<rparr>)"

definition on_store :: "(store \<Rightarrow> (exn + 'a) \<times> store) \<Rightarrow> ('w io_manager, 'a) prog" where
  "on_store f = io_zoom packet_store (\<lambda>st m. m\<lparr>packet_store := st\<rparr>) (io_state f)"

section \<open>Reading bytes and packets\<close>

text \<open>
  The loop of \<open>_read_bytes_from_device\<close>: \<open>data\<close> has been read and \<open>len\<close> bytes are
  missing. As in the source, the clock is not consulted once nothing is missing, and
  reading more than was asked for leaves \<open>len\<close> negative.
\<close>

definition read_bytes_body ::
  "('w, 'x) transport_scheme \<Rightarrow> transaction_info \<Rightarrow> rat \<Rightarrow> int \<times> bytes \<Rightarrow>
     ('w io_manager, (int \<times> bytes, bytes) loop_ctl) prog" where
  "read_bytes_body T info start = (\<lambda>(len, data).
     if \<not> 0 < len then io_return (Break data)
     else io_bind (on_transport (tr_bulk_read T len (transport_timeout_s info))) (\<lambda>temp.
       (let data' = data @ temp; len' = len - int (length temp)
        in if len' = 0 then io_return (Break data')
           else io_bind (on_transport (tr_time T)) (\<lambda>now.
             if now - start > read_timeout_s info then io_raise AdbTimeoutError
             else io_return (Continue (len', data'))))))"

definition read_bytes_from_device ::
  "('w, 'x) transport_scheme \<Rightarrow> int \<Rightarrow> transaction_info \<Rightarrow> ('w io_manager, bytes) prog" where
  "read_bytes_from_device T len info =
     io_bind (on_transport (tr_time T)) (\<lambda>start. io_loop (read_bytes_body T info start) (len, []))"

definition read_packet_from_device ::
  "('w, 'x) transport_scheme \<Rightarrow> transaction_info \<Rightarrow> ('w io_manager, packet) prog" where
  "read_packet_from_device T info =
     io_bind (read_bytes_from_device T MESSAGE_SIZE info) (\<lambda>msg.
     io_bind (io_lift (unpack msg)) (\<lambda>(cmd, arg0, arg1, data_length, data_checksum).
       case WIRE_TO_ID cmd of
         None \<Rightarrow> io_raise (InvalidCommandError cmd)
       | Some command \<Rightarrow>
           if data_length = 0 then io_return (command, arg0, arg1, [])
           else
             io_bind (read_bytes_from_device T data_length info) (\<lambda>data.
               if checksum data \<noteq> data_checksum
               then io_raise (InvalidChecksumError (checksum data) data_checksum)
               else io_return (command, arg0, arg1, data))))"

definition read_expected_body ::
  "('w, 'x) transport_scheme \<Rightarrow> cmd list \<Rightarrow> transaction_info \<Rightarrow> rat \<Rightarrow> unit \<Rightarrow>
     ('w io_manager, (unit, packet) loop_ctl) prog" where
  "read_expected_body T expected_cmds info start _ =
     io_bind (read_packet_from_device T info) (\<lambda>p.
       if fst p \<in> set expected_cmds then io_return (Break p)
       else io_bind (on_transport (tr_time T)) (\<lambda>now.
         if now - start > read_timeout_s info then io_raise AdbTimeoutError
         else io_return (Continue ())))"

definition read_expected_packet_from_device ::
  "('w, 'x) transport_scheme \<Rightarrow> cmd list \<Rightarrow> transaction_info \<Rightarrow> ('w io_manager, packet) prog" where
  "read_expected_packet_from_device T expected_cmds info =
     io_bind (on_transport (tr_time T)) (\<lambda>start.
       io_loop (read_expected_body T expected_cmds info start) ())"

section \<open>Sending\<close>

text \<open>The numbers of bytes that \<open>bulk_write\<close> returns are not looked at.\<close>

definition send_raw ::
  "('w, 'x) transport_scheme \<Rightarrow> adb_message \<Rightarrow> transaction_info \<Rightarrow> ('w io_manager, unit) prog" where
  "send_raw T msg info =
     io_bind (io_lift (pack msg)) (\<lambda>packed.
     io_then (on_transport (tr_bulk_write T packed (transport_timeout_s info)))
       (if msg_data msg \<noteq> []
        then io_then (on_transport (tr_bulk_write T (msg_data msg) (transport_timeout_s info)))
               (io_return ())
        else io_return ()))"

definition io_send ::
  "('w, 'x) transport_scheme \<Rightarrow> adb_message \<Rightarrow> transaction_info \<Rightarrow> ('w io_manager, unit) prog" where
  "io_send T msg info = send_raw T msg info"

text \<open>Building a message (which raises \<open>KeyError\<close> for an id that is no command) and sending it.\<close>

definition send_new ::
  "('w, 'x) transport_scheme \<Rightarrow> cmd \<Rightarrow> int option \<Rightarrow> int option \<Rightarrow> bytes \<Rightarrow> transaction_info \<Rightarrow>
     ('w io_manager, unit) prog" where
  "send_new T c arg0 arg1 data info =
     io_bind (io_lift (AdbMessage c arg0 arg1 data)) (\<lambda>msg. io_send T msg info)"

section \<open>Reading the packets of one stream\<close>

definition store_lookup :: "transaction_info \<Rightarrow> bool \<Rightarrow> store \<Rightarrow> (int \<times> int) option" where
  "store_lookup info allow_zeros s =
     (if \<not> allow_zeros then store_find (remote_id info) (local_id info) s
      else store_find_allow_zeros (remote_id info) (local_id info) s)"

text \<open>
  The loop over the packet store: packets of the stream are taken until one has an
  expected command; the others are dropped. \<open>None\<close>: nothing (more) to take.
\<close>

function store_read :: "cmd list \<Rightarrow> transaction_info \<Rightarrow> bool \<Rightarrow> store \<Rightarrow> (exn + packet option) \<times> store" where
  "store_read expected_cmds info allow_zeros s =
     (case store_lookup info allow_zeros s of
        None \<Rightarrow> (Inr None, s)
      | Some (a0, a1) \<Rightarrow>
          (case store_get (Some a0) (Some a1) s of
             (Inl e, s') \<Rightarrow> (Inl e, s')
           | (Inr p, s') \<Rightarrow>
               if fst p \<in> set expected_cmds then (Inr (Some p), s')
               else store_read expected_cmds info allow_zeros s'))"
  by pat_completeness auto
termination
  by (relation "measure (\<lambda>(_, _, _, s). store_size s)") (auto dest: store_get_smaller [OF sym])

declare store_read.simps [simp del]

text \<open>One packet of another stream is stored; one of this stream ends the store's entry if it closes it.\<close>

definition dispatch_packet :: "transaction_info \<Rightarrow> bool \<Rightarrow> packet \<Rightarrow> store \<Rightarrow> store" where
  "dispatch_packet info allow_zeros p s =
     (case p of (cmd, arg0, arg1, data) \<Rightarrow>
        if \<not> args_match info arg0 arg1 allow_zeros then store_put arg0 arg1 cmd data s
        else if cmd = CLSE then store_clear arg0 arg1 s
        else s)"

definition io_read_body ::
  "('w, 'x) transport_scheme \<Rightarrow> cmd list \<Rightarrow> transaction_info \<Rightarrow> bool \<Rightarrow> rat \<Rightarrow> unit \<Rightarrow>
     ('w io_manager, (unit, packet) loop_ctl) prog" where
  "io_read_body T expected_cmds info allow_zeros start _ =
     io_bind (on_store (store_read expected_cmds info allow_zeros)) (\<lambda>stored.
       case stored of
         Some p \<Rightarrow> io_return (Break p)
       | None \<Rightarrow>
           io_bind (read_packet_from_device T info) (\<lambda>p.
           io_then (on_store (\<lambda>s. (Inr (), dispatch_packet info allow_zeros p s)))
             (if args_match info (fst (snd p)) (fst (snd (snd p))) allow_zeros
                  \<and> fst p \<in> set expected_cmds
              then io_return (Break p)
              else io_bind (on_transport (tr_time T)) (\<lambda>now.
                if now - start > read_timeout_s info then io_raise AdbTimeoutError
                else io_return (Continue ())))))"

definition io_read ::
  "('w, 'x) transport_scheme \<Rightarrow> cmd list \<Rightarrow> transaction_info \<Rightarrow> bool \<Rightarrow> ('w io_manager, packet) prog" where
  "io_read T expected_cmds info allow_zeros =
     io_bind (on_store (store_read expected_cmds info allow_zeros)) (\<lambda>stored.
       case stored of
         Some p \<Rightarrow> io_return p
       | None \<Rightarrow>
           io_bind (on_transport (tr_time T)) (\<lambda>start.
             io_loop (io_read_body T expected_cmds info allow_zeros start) ()))"

section \<open>Closing\<close>

definition io_close :: "('w, 'x) transport_scheme \<Rightarrow> ('w io_manager, unit) prog" where
  "io_close T =
     io_then (on_transport (tr_close T)) (on_store (\<lambda>s. (Inr (), store_clear_all s)))"

section \<open>Connecting\<close>

text \<open>
  A signer (\<open>auth/sign_*.py\<close>) signs a token and knows a public key, which is \<open>bytes\<close>,
  \<open>str\<close> or \<open>None\<close>; the signature itself is computed by a library.
\<close>

datatype pubkey = KeyBytes bytes | KeyStr pystr | KeyNone

record signer =
  Sign :: "bytes \<Rightarrow> exn + bytes"
  GetPublicKey :: pubkey

text \<open>\<open>bytearray(pubkey, 'utf-8')\<close> unless it is bytes already; raises \<open>TypeError\<close> for \<open>None\<close>.\<close>

definition pubkey_bytes :: "pubkey \<Rightarrow> exn + bytes" where
  "pubkey_bytes k =
     (case k of KeyBytes b \<Rightarrow> Inr b | KeyStr s \<Rightarrow> utf8_encode s | KeyNone \<Rightarrow> Inl TypeError)"

text \<open>Closing the transport before raising.\<close>

definition close_and_raise :: "('w, 'x) transport_scheme \<Rightarrow> exn \<Rightarrow> ('w io_manager, 'a) prog" where
  "close_and_raise T e = io_then (on_transport (tr_close T)) (io_raise e)"

text \<open>
  \<open>x509\<close> stands for loading the private key, generating the self-signed certificate and
  serialising both (\<open>auth/x509.py\<close>, over the \<open>cryptography\<close> package): from the PEM text it
  gives the certificate and the key, or raises.
\<close>

definition do_stls_upgrade ::
  "('w, 'x) transport_scheme \<Rightarrow> (bytes \<Rightarrow> exn + bytes \<times> bytes) \<Rightarrow> bytes option \<Rightarrow>
     transaction_info \<Rightarrow> ('w io_manager, unit) prog" where
  "do_stls_upgrade T x509 tls_priv_pem info =
     (case tls_priv_pem of
        None \<Rightarrow> close_and_raise T DeviceAuthError
      | Some pem \<Rightarrow>
          (case tr_tls_upgrade T of
             None \<Rightarrow> close_and_raise T DeviceAuthError
           | Some tls_upgrade \<Rightarrow>
               io_bind (io_lift (x509 pem)) (\<lambda>(cert_pem, key_pem).
               io_then (send_new T STLS (Some STLS_VERSION) (Some 0) [] info)
                 (on_transport (tls_upgrade cert_pem key_pem)))))"

text \<open>
  The loop over the keys: \<open>Some maxdata\<close> when the device answered \<open>CNXN\<close> to a signature,
  \<open>None\<close> when it accepted none of them.
\<close>

fun auth_keys ::
  "('w, 'x) transport_scheme \<Rightarrow> signer list \<Rightarrow> int \<Rightarrow> bytes \<Rightarrow> transaction_info \<Rightarrow>
     ('w io_manager, int option) prog" where
  "auth_keys T [] arg0 banner2 info = io_return None"
| "auth_keys T (rsa_key # ks) arg0 banner2 info =
     (if arg0 \<noteq> AUTH_TOKEN then close_and_raise T InvalidResponseError
      else
        io_bind (io_lift (Sign rsa_key banner2)) (\<lambda>signed_token.
        io_then (send_new T AUTH (Some AUTH_SIGNATURE) (Some 0) signed_token info)
        (io_bind (read_expected_packet_from_device T [CNXN, AUTH] info)
          (\<lambda>(cmd, arg0', maxdata', banner2').
             if cmd = CNXN then io_return (Some maxdata')
             else auth_keys T ks arg0' banner2' info))))"

text \<open>Step 7 and after: the public key is offered and the user asked to accept it.\<close>

definition offer_public_key ::
  "('w, 'x) transport_scheme \<Rightarrow> signer \<Rightarrow> rat option \<Rightarrow> ('w io_manager, unit) prog option \<Rightarrow>
     transaction_info \<Rightarrow> ('w io_manager, int) prog" where
  "offer_public_key T rsa_key auth_timeout_s auth_callback info =
     io_bind (io_lift (pubkey_bytes (GetPublicKey rsa_key))) (\<lambda>pubkey.
     io_then (case auth_callback of None \<Rightarrow> io_return () | Some callback \<Rightarrow> callback)
     (io_then (send_new T AUTH (Some AUTH_RSAPUBLICKEY) (Some 0) (pubkey @ [0]) info)
     (io_bind (read_expected_packet_from_device T [CNXN]
                 (info\<lparr>transport_timeout_s := auth_timeout_s\<rparr>))
       (\<lambda>(_, _, maxdata, _). io_return maxdata))))"

text \<open>\<open>b'host::%s\0' % banner\<close>\<close>

definition cnxn_payload :: "bytes \<Rightarrow> bytes" where
  "cnxn_payload banner = bytes_lit ''host::'' @ banner @ [0]"

definition io_connect ::
  "('w, 'x) transport_scheme \<Rightarrow> (bytes \<Rightarrow> exn + bytes \<times> bytes) \<Rightarrow> bytes \<Rightarrow> signer list \<Rightarrow>
     rat option \<Rightarrow> ('w io_manager, unit) prog option \<Rightarrow> transaction_info \<Rightarrow> bytes option \<Rightarrow>
     ('w io_manager, bool \<times> int) prog" where
  "io_connect T x509 banner rsa_keys auth_timeout_s auth_callback info tls_priv_pem =
     io_then (on_transport (tr_close T))
     (io_then (on_store (\<lambda>s. (Inr (), store_clear_all s)))
     (io_then (on_transport (tr_connect T (transport_timeout_s info)))
     (io_then (send_new T CNXN (Some VERSION) (Some MAX_ADB_DATA) (cnxn_payload banner) info)
     (io_bind (read_expected_packet_from_device T [AUTH, CNXN, STLS] info)
       (\<lambda>(cmd, arg0, maxdata, banner2).
          if cmd = STLS then
            io_then (do_stls_upgrade T x509 tls_priv_pem info)
            (io_bind (read_expected_packet_from_device T [CNXN]
                        (info\<lparr>transport_timeout_s := auth_timeout_s\<rparr>))
              (\<lambda>(_, _, maxdata', _). io_return (True, maxdata')))
          else if cmd \<noteq> AUTH then io_return (True, maxdata)
          else
            (case rsa_keys of
               [] \<Rightarrow> close_and_raise T DeviceAuthError
             | rsa_key # _ \<Rightarrow>
                 io_bind (auth_keys T rsa_keys arg0 banner2 info) (\<lambda>accepted.
                   case accepted of
                     Some maxdata' \<Rightarrow> io_return (True, maxdata')
                   | None \<Rightarrow>
                       io_bind (offer_public_key T rsa_key auth_timeout_s auth_callback info)
                         (\<lambda>maxdata'. io_return (True, maxdata')))))))))"

end
