(* ===== verification/IO_Manager_Spec.thy ===== *)
theory IO_Manager_Spec
  imports IO_Manager "HOL-Library.Sublist"
begin

text \<open>
  What \<open>_AdbIOManager\<close> guarantees over any byte transport: the framing of packets on the
  wire, exact consumption of the bytes read, which packet \<open>read\<close> returns, and what becomes
  of the packets of other streams; and what reaches the wire when packets are sent.
\<close>

section \<open>Frames on the wire\<close>

text \<open>
  The bytes of one packet: a header of 24 bytes whose command is one of \<open>IDS\<close> and whose
  length field fits the payload that follows. The checksum only counts with a payload.
\<close>

definition is_frame :: "packet \<Rightarrow> bytes \<Rightarrow> bool" where
  "is_frame p bs \<longleftrightarrow>
     (case p of (c, a0, a1, d) \<Rightarrow>
        \<exists>hdr k. bs = hdr @ d \<and> unpack hdr = Inr (cmd_wire c, a0, a1, int (length d), k) \<and>
          c \<in> set IDS \<and> (d \<noteq> [] \<longrightarrow> k = checksum d))"

fun are_frames :: "packet list \<Rightarrow> bytes \<Rightarrow> bool" where
  "are_frames [] bs \<longleftrightarrow> bs = []"
| "are_frames (p # ps) bs \<longleftrightarrow> (\<exists>f rest. bs = f @ rest \<and> is_frame p f \<and> are_frames ps rest)"

lemma are_frames_append:
  "are_frames (ps @ qs) bs \<longleftrightarrow> (\<exists>x y. bs = x @ y \<and> are_frames ps x \<and> are_frames qs y)"
proof (induction ps arbitrary: bs)
  case Nil
  then show ?case by simp
next
  case (Cons p ps)
  then show ?case by simp (metis append.assoc)
qed

lemma are_frames_single [simp]: "are_frames [p] bs = is_frame p bs"
  by simp

lemma unpack_length: "unpack hdr = Inr v \<Longrightarrow> length hdr = 24"
  using unpack_error [of hdr] by (cases "int (length hdr) = MESSAGE_SIZE") (auto simp: MESSAGE_SIZE_def)

lemma cmd_wire_inj: "cmd_wire c = cmd_wire c' \<Longrightarrow> c = c'"
  using inj_cmd_wire by (simp add: inj_def)

text \<open>The framing is unambiguous: a byte string starts with at most one packet.\<close>

lemma is_frame_unique:
  assumes "is_frame p f" and "is_frame q g" and "f @ x = g @ y"
  shows "p = q \<and> f = g \<and> x = y"
proof -
  obtain c a0 a1 d where p: "p = (c, a0, a1, d)" by (cases p)
  obtain c' b0 b1 d' where q: "q = (c', b0, b1, d')" by (cases q)
  obtain h k where f: "f = h @ d" "unpack h = Inr (cmd_wire c, a0, a1, int (length d), k)"
    using assms(1) p by (auto simp: is_frame_def)
  obtain h' k' where g: "g = h' @ d'" "unpack h' = Inr (cmd_wire c', b0, b1, int (length d'), k')"
    using assms(2) q by (auto simp: is_frame_def)
  have "h = h'" and rest: "d @ x = d' @ y"
    using assms(3) unpack_length [OF f(2)] unpack_length [OF g(2)] by (auto simp: f(1) g(1))
  with f g have "c = c'" "a0 = b0" "a1 = b1" "length d = length d'"
    by (auto dest: cmd_wire_inj)
  with rest \<open>h = h'\<close> f g p q show ?thesis by auto
qed

text \<open>What the host sends is a frame of the packet it means to send.\<close>

lemma pack_is_frame:
  assumes "AdbMessage c (Some a0) (Some a1) d = Inr m" and "pack m = Inr bs"
  shows "is_frame (c, a0, a1, d) (bs @ d)"
proof -
  have "c \<in> set IDS" using assms(1) by (auto simp: AdbMessage_eq split: if_splits)
  with unpack_pack [OF assms] show ?thesis by (auto simp: is_frame_def)
qed

section \<open>Calls on the two parts of the state\<close>

lemma wp_on_transport [wp_simps]:
  "wp t (on_transport p) Q E m =
     wp t p (\<lambda>x w. Q x (m\<lparr>transport_state := w\<rparr>)) (\<lambda>e w. E e (m\<lparr>transport_state := w\<rparr>))
       (transport_state m)"
  by (simp add: on_transport_def wp_simps)

lemma wp_on_store [wp_simps]:
  "wp t (on_store f) Q E m =
     (case f (packet_store m) of
        (r, s) \<Rightarrow> (case r of Inl e \<Rightarrow> E e (m\<lparr>packet_store := s\<rparr>) | Inr x \<Rightarrow> Q x (m\<lparr>packet_store := s\<rparr>)))"
  by (simp add: on_store_def wp_simps)

section \<open>The packets of one stream in the store\<close>

text \<open>The streams whose packets a reader with these settings takes from the store.\<close>

definition claims :: "transaction_info \<Rightarrow> bool \<Rightarrow> int \<times> int \<Rightarrow> bool" where
  "claims info allow_zeros k \<longleftrightarrow>
     (if \<not> allow_zeros then matches (remote_id info) (fst k) \<and> matches (local_id info) (snd k)
      else matches_zero (remote_id info) (fst k) \<and> matches_zero (local_id info) (snd k))"

lemma args_match_claims: "args_match info a b z \<Longrightarrow> claims info z (a, b)"
  by (auto simp: args_match_def claims_def matches_def matches_zero_def split: if_splits)

lemma claims_args_match: "local_id info \<noteq> None \<Longrightarrow> claims info z (a, b) = args_match info a b z"
  by (auto simp: args_match_def claims_def matches_def matches_zero_def)

lemma store_lookup_sound:
  "store_ok s \<Longrightarrow> store_lookup info z s = Some (a, b) \<Longrightarrow> claims info z (a, b) \<and> pending s a b"
  using store_find_sound find_allow_zeros_sound
  by (fastforce simp: store_lookup_def claims_def split: if_splits)

lemma store_lookup_complete:
  "store_ok s \<Longrightarrow> store_lookup info z s = None \<Longrightarrow> claims info z (a, b) \<Longrightarrow> \<not> pending s a b"
  using store_find_complete find_allow_zeros_complete
  by (fastforce simp: store_lookup_def claims_def split: if_splits)

text \<open>The queue of a stream, empty when there is none.\<close>

definition queue_of :: "store \<Rightarrow> int \<times> int \<Rightarrow> entry list" where
  "queue_of s k = (case store_abs s k of None \<Rightarrow> [] | Some q \<Rightarrow> q)"

lemma pending_queue: "pending s a b \<longleftrightarrow> queue_of s (a, b) \<noteq> []"
  by (auto simp: pending_def queue_of_def neq_Nil_conv split: option.split)

text \<open>
  What reading from the store may do: streams that are not claimed keep their queues, and
  of the others only a suffix of the queue is left.
\<close>

definition store_reduced :: "transaction_info \<Rightarrow> bool \<Rightarrow> store \<Rightarrow> store \<Rightarrow> bool" where
  "store_reduced info z s s' \<longleftrightarrow> store_ok s' \<and>
     (\<forall>k. \<not> claims info z k \<longrightarrow> store_abs s' k = store_abs s k) \<and>
     (\<forall>k. claims info z k \<longrightarrow> suffix (queue_of s' k) (queue_of s k))"

lemma store_reduced_refl: "store_ok s \<Longrightarrow> store_reduced info z s s"
  by (simp add: store_reduced_def)

lemma store_reduced_trans:
  "store_reduced info z s s1 \<Longrightarrow> store_reduced info z s1 s2 \<Longrightarrow> store_reduced info z s s2"
  unfolding store_reduced_def by (metis suffix_order.trans)

lemma store_get_reduced:
  assumes ok: "store_ok s" and found: "store_lookup info z s = Some (a, b)"
  obtains c x s' where "store_get (Some a) (Some b) s = (Inr (c, a, b, x), s')"
    and "store_reduced info z s s'" and "claims info z (a, b)" and "(c, x) \<in> set (queue_of s (a, b))"
proof -
  have cl: "claims info z (a, b)" and "pending s a b"
    using store_lookup_sound [OF assms] by simp_all
  then obtain c x q where q: "store_abs s (a, b) = Some ((c, x) # q)"
    by (auto simp: pending_def)
  let ?s' = "snd (store_get (Some a) (Some b) s)"
  have abs: "store_abs ?s' = (if c = CLSE then (store_abs s)((a, b) := None) else (store_abs s)((a, b) \<mapsto> q))"
    by (rule ps.abs_get [OF q])
  have "store_reduced info z s ?s'"
    using cl ps.ok_get [OF ok] q
    by (auto simp: store_reduced_def abs queue_of_def suffix_Cons)
  moreover have "store_get (Some a) (Some b) s = (Inr (c, a, b, x), ?s')"
    using ps.fst_get [OF q] by (simp add: prod_eq_iff)
  moreover have "(c, x) \<in> set (queue_of s (a, b))"
    by (simp add: queue_of_def q)
  ultimately show thesis using that cl by blast
qed

text \<open>
  \<open>store_read\<close> never raises on a well-formed store; what it returns has an expected
  command and belongs to a claimed stream, and if it returns nothing, nothing is pending.
\<close>

lemma store_read_spec:
  assumes "store_ok s"
  shows "\<exists>r s'. store_read cmds info z s = (Inr r, s') \<and> store_reduced info z s s' \<and>
     (case r of
        None \<Rightarrow> \<forall>a b. claims info z (a, b) \<longrightarrow> \<not> pending s' a b
      | Some (c, a, b, x) \<Rightarrow> c \<in> set cmds \<and> claims info z (a, b) \<and> (c, x) \<in> set (queue_of s (a, b)))"
  using assms
proof (induction cmds info z s rule: store_read.induct)
  case (1 cmds info z s)
  show ?case
  proof (cases "store_lookup info z s")
    case None
    then show ?thesis
      using 1(2) store_lookup_complete
      by (auto simp: store_read.simps [of cmds info z s] store_reduced_refl)
  next
    case (Some k)
    obtain a b where k: "k = (a, b)" by (cases k)
    obtain c x s1 where get: "store_get (Some a) (Some b) s = (Inr (c, a, b, x), s1)"
      and red: "store_reduced info z s s1"
      and cl: "claims info z (a, b)" and q: "(c, x) \<in> set (queue_of s (a, b))"
      by (rule store_get_reduced [OF 1(2) Some [unfolded k]])
    show ?thesis
    proof (cases "c \<in> set cmds")
      case True
      with Some k get red cl q show ?thesis
        by (auto simp: store_read.simps [of cmds info z s])
    next
      case False
      have rd: "store_read cmds info z s = store_read cmds info z s1"
        using Some k get False by (simp add: store_read.simps [of cmds info z s])
      obtain r s' where r: "store_read cmds info z s1 = (Inr r, s')" "store_reduced info z s1 s'"
        "case r of None \<Rightarrow> \<forall>a b. claims info z (a, b) \<longrightarrow> \<not> pending s' a b
         | Some (c, a, b, x) \<Rightarrow> c \<in> set cmds \<and> claims info z (a, b) \<and> (c, x) \<in> set (queue_of s1 (a, b))"
        using 1(1) [OF Some k [symmetric] get [symmetric] refl] False red by (auto simp: store_reduced_def)
      have "set (queue_of s1 j) \<subseteq> set (queue_of s j)" if "claims info z j" for j
        using red that unfolding store_reduced_def by (meson set_mono_suffix)
      with r rd red show ?thesis
        by (auto intro!: exI [of _ r] exI [of _ s'] intro: store_reduced_trans split: option.splits)
    qed
  qed
qed

section \<open>Storing the packets of other streams\<close>

text \<open>The effect of one packet on the queue it belongs to, and of a run of packets on one stream.\<close>

definition stream_put :: "entry \<Rightarrow> entry list option \<Rightarrow> entry list option" where
  "stream_put p q =
     (case q of None \<Rightarrow> if fst p = CLSE then None else Some [p] | Some es \<Rightarrow> Some (es @ [p]))"

definition stream_puts :: "packet list \<Rightarrow> int \<times> int \<Rightarrow> entry list option \<Rightarrow> entry list option" where
  "stream_puts ps k = fold (\<lambda>(c, a, b, x) q. if (a, b) = k then stream_put (c, x) q else q) ps"

lemma stream_puts_simps [simp]:
  "stream_puts [] k q = q"
  "stream_puts (ps @ [(c, a, b, x)]) k q =
     (if (a, b) = k then stream_put (c, x) (stream_puts ps k q) else stream_puts ps k q)"
  by (simp_all add: stream_puts_def)

lemma store_abs_put_stream:
  "store_abs (store_put a b c x s) = (store_abs s)((a, b) := stream_put (c, x) (store_abs s (a, b)))"
  by (auto simp: store_abs_put stream_put_def split: option.split)

lemma dispatch_ok: "store_ok s \<Longrightarrow> store_ok (dispatch_packet info z p s)"
  by (auto simp: dispatch_packet_def store_ok_put store_ok_clear split: prod.split)

lemma dispatch_other:
  "\<not> claims info z k \<Longrightarrow>
     store_abs (dispatch_packet info z (c, a, b, x) s) k =
       (if (a, b) = k then stream_put (c, x) (store_abs s k) else store_abs s k)"
  by (auto simp: dispatch_packet_def store_abs_put_stream store_abs_clear dest: args_match_claims)

lemma dispatch_claimed:
  assumes "local_id info \<noteq> None" and "claims info z k"
  shows "suffix (queue_of (dispatch_packet info z p s) k) (queue_of s k)"
  using assms claims_args_match [OF assms(1)]
  by (cases p) (auto simp: dispatch_packet_def queue_of_def store_abs_put_stream store_abs_clear)

text \<open>
  The effect on the store of reading the packets \<open>ps\<close> from the device on behalf of one
  transaction: every other stream gets its own packets, in order; nothing is added to the
  streams the transaction claims.
\<close>

definition store_after :: "transaction_info \<Rightarrow> bool \<Rightarrow> packet list \<Rightarrow> store \<Rightarrow> store \<Rightarrow> bool" where
  "store_after info z ps s s' \<longleftrightarrow> store_ok s' \<and>
     (\<forall>k. \<not> claims info z k \<longrightarrow> store_abs s' k = stream_puts ps k (store_abs s k)) \<and>
     (\<forall>k. claims info z k \<longrightarrow> suffix (queue_of s' k) (queue_of s k))"

lemma store_after_reduced:
  "store_after info z ps s s1 \<Longrightarrow> store_reduced info z s1 s2 \<Longrightarrow> store_after info z ps s s2"
  unfolding store_after_def store_reduced_def by (metis suffix_order.trans)

lemma store_after_Nil: "store_reduced info z s s1 \<Longrightarrow> store_after info z [] s s1"
  by (simp add: store_after_def store_reduced_def)

lemma store_after_dispatch:
  assumes "store_after info z ps s s1" and "local_id info \<noteq> None"
  shows "store_after info z (ps @ [p]) s (dispatch_packet info z p s1)"
proof -
  have "suffix (queue_of (dispatch_packet info z p s1) k) (queue_of s k)" if "claims info z k" for k
    using dispatch_claimed [OF assms(2) that, of p s1] assms(1) that
    unfolding store_after_def by (meson suffix_order.trans)
  moreover obtain c a b x where p: "p = (c, a, b, x)" by (cases p)
  ultimately show ?thesis
    using assms(1) by (auto simp: store_after_def p dispatch_ok dispatch_other)
qed

definition nothing_pending :: "transaction_info \<Rightarrow> bool \<Rightarrow> store \<Rightarrow> bool" where
  "nothing_pending info z s \<longleftrightarrow> (\<forall>k. claims info z k \<longrightarrow> queue_of s k = [])"

lemma nothing_pending_dispatch:
  "nothing_pending info z s \<Longrightarrow> local_id info \<noteq> None \<Longrightarrow>
     nothing_pending info z (dispatch_packet info z p s)"
  unfolding nothing_pending_def by (metis dispatch_claimed suffix_bot.extremum_uniqueI)

lemma nothing_pending_read:
  assumes "store_ok s" and "nothing_pending info z s"
  shows "\<exists>s'. store_read cmds info z s = (Inr None, s') \<and> store_reduced info z s s' \<and>
     nothing_pending info z s'"
proof -
  obtain r s' where r: "store_read cmds info z s = (Inr r, s')" "store_reduced info z s s'"
    "case r of None \<Rightarrow> \<forall>a b. claims info z (a, b) \<longrightarrow> \<not> pending s' a b
     | Some (c, a, b, x) \<Rightarrow> c \<in> set cmds \<and> claims info z (a, b) \<and> (c, x) \<in> set (queue_of s (a, b))"
    using store_read_spec [OF assms(1)] by blast
  then have "r = None" using assms(2) by (auto simp: nothing_pending_def split: option.splits)
  with r show ?thesis by (auto simp: nothing_pending_def pending_queue)
qed

text \<open>A packet the reader is waiting for.\<close>

definition wanted :: "cmd list \<Rightarrow> transaction_info \<Rightarrow> bool \<Rightarrow> packet \<Rightarrow> bool" where
  "wanted cmds info z p \<longleftrightarrow> args_match info (fst (snd p)) (fst (snd (snd p))) z \<and> fst p \<in> set cmds"

section \<open>What one call does\<close>

text \<open>
  \<open>inp\<close> and \<open>out\<close> are the bytes still to come from the device and those sent to it. Nothing
  has changed but that \<open>bs\<close> has been written:
\<close>

definition bytes_written ::
  "('w \<Rightarrow> bytes) \<Rightarrow> ('w \<Rightarrow> bytes) \<Rightarrow> bytes \<Rightarrow> 'w io_manager \<Rightarrow> 'w io_manager \<Rightarrow> bool" where
  "bytes_written inp out bs m m' \<longleftrightarrow>
     out (transport_state m') = out (transport_state m) @ bs \<and>
     inp (transport_state m') = inp (transport_state m) \<and> packet_store m' = packet_store m"

text \<open>
  The packets \<open>ps\<close>, none of them wanted, and the bytes \<open>rest\<close> after them have been read from
  the device for a transaction, and the store is as it should be:
\<close>

definition packets_scanned ::
  "('w \<Rightarrow> bytes) \<Rightarrow> ('w \<Rightarrow> bytes) \<Rightarrow> cmd list \<Rightarrow> transaction_info \<Rightarrow> bool \<Rightarrow> packet list \<Rightarrow> bytes \<Rightarrow>
     'w io_manager \<Rightarrow> 'w io_manager \<Rightarrow> bool" where
  "packets_scanned inp out cmds info z ps rest m m' \<longleftrightarrow>
     (\<forall>q \<in> set ps. \<not> wanted cmds info z q) \<and>
     (\<exists>fs. are_frames ps fs \<and> inp (transport_state m) = fs @ rest @ inp (transport_state m')) \<and>
     out (transport_state m') = out (transport_state m) \<and>
     store_after info z ps (packet_store m) (packet_store m')"

text \<open>
  The packet \<open>p\<close> has been found for a transaction: it is wanted, and it is either from the
  store or the first wanted packet on the wire.
\<close>

definition packet_found ::
  "('w \<Rightarrow> bytes) \<Rightarrow> ('w \<Rightarrow> bytes) \<Rightarrow> cmd list \<Rightarrow> transaction_info \<Rightarrow> bool \<Rightarrow> packet \<Rightarrow>
     'w io_manager \<Rightarrow> 'w io_manager \<Rightarrow> bool" where
  "packet_found inp out cmds info z p m m' \<longleftrightarrow>
     wanted cmds info z p \<and> out (transport_state m') = out (transport_state m) \<and>
     ((case p of (c, a, b, x) \<Rightarrow> (c, x) \<in> set (queue_of (packet_store m) (a, b))) \<and>
        inp (transport_state m') = inp (transport_state m) \<and>
        store_after info z [] (packet_store m) (packet_store m') \<or>
      (\<exists>ps fs. (\<forall>q \<in> set ps. \<not> wanted cmds info z q) \<and>
         are_frames (ps @ [p]) fs \<and> inp (transport_state m) = fs @ inp (transport_state m') \<and>
         store_after info z (ps @ [p]) (packet_store m) (packet_store m')))"

section \<open>Reading over a byte transport\<close>

context byte_transport
begin

abbreviation minp :: "'w io_manager \<Rightarrow> bytes" where "minp m \<equiv> inp (transport_state m)"
abbreviation mout :: "'w io_manager \<Rightarrow> bytes" where "mout m \<equiv> out (transport_state m)"

text \<open>Nothing has changed but that the bytes \<open>bs\<close> have been read.\<close>

definition reads :: "bytes \<Rightarrow> 'w io_manager \<Rightarrow> 'w io_manager \<Rightarrow> bool" where
  "reads bs m m' \<longleftrightarrow> minp m = bs @ minp m' \<and> mout m' = mout m \<and> packet_store m' = packet_store m"

lemma reads_refl [simp]: "reads [] m m"
  by (simp add: reads_def)

lemma reads_trans: "reads xs m m1 \<Longrightarrow> reads ys m1 m2 \<Longrightarrow> reads (xs @ ys) m m2"
  by (simp add: reads_def)

definition read_some :: "'w io_manager \<Rightarrow> 'w io_manager \<Rightarrow> bool" where
  "read_some m m' \<longleftrightarrow> (\<exists>bs. reads bs m m')"

text \<open>The bytes that have been read are those of the packets \<open>ps\<close>.\<close>

definition framed :: "packet list \<Rightarrow> 'w io_manager \<Rightarrow> 'w io_manager \<Rightarrow> bool" where
  "framed ps m m' \<longleftrightarrow> (\<exists>fs. are_frames ps fs \<and> reads fs m m')"

lemma reads_some: "reads xs m m1 \<Longrightarrow> read_some m m1"
  by (auto simp: read_some_def)

lemma read_some_trans: "read_some m m1 \<Longrightarrow> read_some m1 m2 \<Longrightarrow> read_some m m2"
  by (auto simp: read_some_def intro: reads_trans)

lemma framed_Nil [simp]: "framed [] m m"
  by (simp add: framed_def)

lemma framed_some: "framed ps m m1 \<Longrightarrow> read_some m m1"
  by (auto simp: framed_def read_some_def)

lemma framed_append: "framed ps m m1 \<Longrightarrow> framed qs m1 m2 \<Longrightarrow> framed (ps @ qs) m m2"
  unfolding framed_def are_frames_append by (blast intro: reads_trans)

definition same :: "'w io_manager \<Rightarrow> 'w io_manager \<Rightarrow> bool" where
  "same m m' \<longleftrightarrow> reads [] m m'"

lemma same_reads:
  "same m1 m2 \<Longrightarrow> reads xs m m2 = reads xs m m1"
  "same m1 m2 \<Longrightarrow> read_some m m2 = read_some m m1"
  "same m1 m2 \<Longrightarrow> framed ps m m2 = framed ps m m1"
  by (auto simp: same_def reads_def read_some_def framed_def)

lemma bulk_read_spec:
  assumes "0 < n"
  shows "wp False (on_transport (tr_bulk_read T n t))
    (\<lambda>d m'. int (length d) \<le> n \<and> reads d m m') (\<lambda>e m'. same m m' \<and> \<not> malformed e) m"
  unfolding wp_simps
  by (rule wp_mono [OF read_law [OF assms]]) (auto simp: same_def reads_def)

lemma time_spec: "wp False (on_transport (tr_time T)) (\<lambda>_ m'. same m m') (\<lambda>_ _. False) m"
  unfolding wp_simps by (rule wp_mono [OF time_law]) (auto simp: same_def reads_def)

lemma timeout_not_malformed [simp]: "\<not> malformed AdbTimeoutError"
  by (simp add: malformed_def)

lemma read_bytes_spec:
  assumes n: "0 \<le> n"
  shows "wp False (read_bytes_from_device T n info)
    (\<lambda>d m'. int (length d) = n \<and> reads d m m') (\<lambda>e m'. read_some m m' \<and> \<not> malformed e) m"
proof -
  define I where "I = (\<lambda>(len, data) m'. 0 \<le> len \<and> int (length data) + len = n \<and> reads data m m')"
  have body: "wp False (read_bytes_body T info start a)
      (loop_post I (\<lambda>d m'. int (length d) = n \<and> reads d m m')) (\<lambda>e m'. read_some m m' \<and> \<not> malformed e) m1"
    if "I a m1" for a m1 start
  proof -
    obtain len data where a: "a = (len, data)" by (cases a)
    with that have i: "0 \<le> len" "int (length data) + len = n" "reads data m m1" by (auto simp: I_def)
    show ?thesis
    proof (cases "0 < len")
      case False
      with i show ?thesis by (simp add: a read_bytes_body_def wp_simps)
    next
      case True
      show ?thesis
        unfolding a read_bytes_body_def using True
        by (simp add: wp_bind Let_def)
          (rule wp_mono [OF bulk_read_spec [OF True]],
            use i in \<open>(auto simp: wp_bind wp_return wp_raise wp_if I_def same_reads
              intro!: wp_mono [OF time_spec], (blast intro: reads_trans reads_some)+)\<close>)
    qed
  qed
  show ?thesis
    unfolding read_bytes_from_device_def wp_bind
  proof (rule wp_mono [OF time_spec])
    fix start m1 assume "same m m1"
    with n show "wp False (io_loop (read_bytes_body T info start) (n, []))
        (\<lambda>d m'. int (length d) = n \<and> reads d m m') (\<lambda>e m'. read_some m m' \<and> \<not> malformed e) m1"
      by (intro loop_partial [where I = I, OF body]) (simp_all add: I_def same_reads)
  qed simp
qed

text \<open>The rest of \<open>_read_packet_from_device\<close> after the header.\<close>

lemma read_payload_spec:
  assumes hdr: "reads hdr m m1" and u: "unpack hdr = Inr (w, a0, a1, n, k)"
    and c: "WIRE_TO_ID w = Some c" and n: "0 < n"
  shows "wp False (read_bytes_from_device T n info)
     (\<lambda>d m'. read_some m m' \<and> (k = checksum d \<longrightarrow> framed [(c, a0, a1, d)] m m'))
     (\<lambda>e m'. read_some m m') m1"
proof (rule wp_mono [OF read_bytes_spec])
  fix d m2 assume d: "int (length d) = n \<and> reads d m1 m2"
  then have "reads (hdr @ d) m m2" using hdr by (auto intro: reads_trans)
  moreover from this have "framed [(c, a0, a1, d)] m m2" if "k = checksum d"
    using d u c that by (auto simp: framed_def is_frame_def WIRE_TO_ID_Some)
  ultimately show "read_some m m2 \<and> (k = checksum d \<longrightarrow> framed [(c, a0, a1, d)] m m2)"
    by (auto intro: reads_some)
qed (use n hdr in \<open>auto intro: reads_some read_some_trans\<close>)

lemma read_packet_spec:
  "wp False (read_packet_from_device T info)
    (\<lambda>p m'. framed [p] m m') (\<lambda>e m'. read_some m m') m"
  unfolding read_packet_from_device_def wp_bind
proof (rule wp_mono [OF read_bytes_spec])
  show "0 \<le> MESSAGE_SIZE" by (simp add: MESSAGE_SIZE_def)
next
  fix hdr m1
  assume "int (length hdr) = MESSAGE_SIZE \<and> reads hdr m m1"
  then have hdr: "reads hdr m m1" ..
  show "wp False (io_lift (unpack hdr))
      (\<lambda>x. wp False
        (case x of (cmd, arg0, arg1, data_length, data_checksum) \<Rightarrow>
           case WIRE_TO_ID cmd of None \<Rightarrow> io_raise (InvalidCommandError cmd)
           | Some command \<Rightarrow>
               if data_length = 0 then io_return (command, arg0, arg1, [])
               else io_bind (read_bytes_from_device T data_length info)
                 (\<lambda>data. if checksum data \<noteq> data_checksum
                     then io_raise (InvalidChecksumError (checksum data) data_checksum)
                     else io_return (command, arg0, arg1, data)))
        (\<lambda>p m'. framed [p] m m') (\<lambda>e m'. read_some m m'))
      (\<lambda>e m'. read_some m m') m1"
  proof (cases "unpack hdr")
    case (Inl e)
    with hdr show ?thesis by (auto simp: wp_simps intro: reads_some)
  next
    case (Inr v)
    obtain w a0 a1 n k where v: "v = (w, a0, a1, n, k)" by (cases v)
    have n: "0 \<le> n" using unpack_ranges(4) Inr v by (auto simp: u32_range_def)
    show ?thesis
    proof (cases "WIRE_TO_ID w")
      case None
      with hdr Inr v show ?thesis by (auto simp: wp_simps intro: reads_some)
    next
      case (Some c)
      have "framed [(c, a0, a1, [])] m m1" if "n = 0"
        using hdr Inr v Some that by (auto simp: framed_def is_frame_def WIRE_TO_ID_Some)
      with Inr v Some n hdr show ?thesis
        by (auto simp: wp_bind wp_lift wp_if wp_return wp_raise
            intro!: wp_mono [OF read_payload_spec [OF hdr]])
    qed
  qed
qed auto

lemma read_expected_spec:
  "wp False (read_expected_packet_from_device T cmds info)
    (\<lambda>p m'. fst p \<in> set cmds \<and> (\<exists>ps. (\<forall>q \<in> set ps. fst q \<notin> set cmds) \<and> framed (ps @ [p]) m m'))
    (\<lambda>e m'. read_some m m') m"
  (is "wp False _ ?Q ?E m")
proof -
  define I where "I = (\<lambda>(_ :: unit) m'. \<exists>ps. (\<forall>q \<in> set ps. fst q \<notin> set cmds) \<and> framed ps m m')"
  have body: "wp False (read_expected_body T cmds info start u) (loop_post I ?Q) ?E m1"
    if inv: "I u m1" for u start m1
  proof -
    obtain ps where ps: "\<forall>q \<in> set ps. fst q \<notin> set cmds" "framed ps m m1"
      using inv by (auto simp: I_def)
    show ?thesis
      unfolding read_expected_body_def wp_bind
    proof (rule wp_mono [OF read_packet_spec])
      fix p m2 assume "framed [p] m1 m2"
      with ps(2) have fr: "framed (ps @ [p]) m m2" by (rule framed_append)
      with ps(1) have "I () m2" if "fst p \<notin> set cmds"
        using that unfolding I_def by (intro exI [of _ "ps @ [p]"]) auto
      moreover have "?Q p m2" if "fst p \<in> set cmds"
        using that ps(1) fr by blast
      ultimately show "wp False (if fst p \<in> set cmds then io_return (Break p)
          else io_bind (on_transport (tr_time T)) (\<lambda>now.
            if now - start > read_timeout_s info then io_raise AdbTimeoutError
            else io_return (Continue ()))) (loop_post I ?Q) ?E m2"
        using framed_some [OF fr]
        by (auto simp: wp_bind wp_if wp_return wp_raise I_def same_reads intro!: wp_mono [OF time_spec])
    qed (use ps in \<open>auto intro: framed_some read_some_trans\<close>)
  qed
  show ?thesis
    unfolding read_expected_packet_from_device_def wp_bind
  proof (rule wp_mono [OF time_spec])
    fix start m1 assume "same m m1"
    then have "I () m1" by (auto simp: I_def same_reads intro!: exI [of _ "[]"])
    then show "wp False (io_loop (read_expected_body T cmds info start) ()) ?Q ?E m1"
      by (intro loop_partial [where I = I, OF body])
  qed simp
qed

abbreviation scanned :: "cmd list \<Rightarrow> transaction_info \<Rightarrow> bool \<Rightarrow> packet list \<Rightarrow> bytes \<Rightarrow>
    'w io_manager \<Rightarrow> 'w io_manager \<Rightarrow> bool" where
  "scanned \<equiv> packets_scanned inp out"

abbreviation found :: "cmd list \<Rightarrow> transaction_info \<Rightarrow> bool \<Rightarrow> packet \<Rightarrow>
    'w io_manager \<Rightarrow> 'w io_manager \<Rightarrow> bool" where
  "found \<equiv> packet_found inp out"

lemmas scanned_def = packets_scanned_def [of inp out]
lemmas found_def = packet_found_def [of inp out]

lemma same_scanned:
  "same m1 m2 \<Longrightarrow> scanned cmds info z ps r m m2 = scanned cmds info z ps r m m1"
  "same m1 m2 \<Longrightarrow> packet_store m2 = packet_store m1"
  by (auto simp: scanned_def same_def reads_def)

lemma scanned_some: "scanned cmds info z ps [] m m1 \<Longrightarrow> read_some m1 m2 \<Longrightarrow> \<exists>r. scanned cmds info z ps r m m2"
  unfolding scanned_def read_some_def reads_def by (metis append.assoc append_Nil)

lemma io_read_body_spec:
  assumes l: "local_id info \<noteq> None"
    and sc: "scanned cmds info z ps [] m m1" and np: "nothing_pending info z (packet_store m1)"
  shows "wp False (io_read_body T cmds info z start u)
    (loop_post (\<lambda>_ m'. (\<exists>ps. scanned cmds info z ps [] m m') \<and> nothing_pending info z (packet_store m'))
       (\<lambda>p m'. found cmds info z p m m'))
    (\<lambda>e m'. \<exists>ps r. scanned cmds info z ps r m m') m1"
  (is "wp False _ ?Q ?E m1")
proof -
  have "store_ok (packet_store m1)" using sc by (simp add: scanned_def store_after_def)
  then obtain s' where s': "store_read cmds info z (packet_store m1) = (Inr None, s')"
    "store_reduced info z (packet_store m1) s'" "nothing_pending info z s'"
    using nothing_pending_read np by blast
  let ?m2 = "m1\<lparr>packet_store := s'\<rparr>"
  have sc2: "scanned cmds info z ps [] m ?m2"
    using sc s'(2) by (auto simp: scanned_def intro: store_after_reduced)
  show ?thesis
    unfolding io_read_body_def wp_bind wp_on_store s'(1)
  proof (simp only: prod.case sum.case option.case wp_bind, rule wp_mono [OF read_packet_spec])
    fix p m3 assume fr: "framed [p] ?m2 m3"
    let ?m4 = "m3\<lparr>packet_store := dispatch_packet info z p (packet_store m3)\<rparr>"
    have st: "packet_store m3 = s'" using fr by (auto simp: framed_def reads_def)
    have np4: "nothing_pending info z (packet_store ?m4)"
      using nothing_pending_dispatch [OF s'(3) l] st by simp
    have after: "store_after info z (ps @ [p]) (packet_store m) (packet_store ?m4)"
      using sc2 st store_after_dispatch [OF _ l] by (simp add: scanned_def)
    obtain fs where fs: "are_frames (ps @ [p]) fs" "minp m = fs @ minp ?m4" "mout ?m4 = mout m"
    proof -
      obtain f0 f where "are_frames ps f0" "minp m = f0 @ minp m1" "is_frame p f" "minp m1 = f @ minp m3"
        "mout m3 = mout m1" "mout m1 = mout m"
        using sc fr by (auto simp: scanned_def framed_def reads_def)
      then show thesis by (intro that [of "f0 @ f"]) (auto simp: are_frames_append simp del: are_frames.simps)
    qed
    have "scanned cmds info z (ps @ [p]) [] m ?m4" if "\<not> wanted cmds info z p"
      using that sc fs after by (auto simp: scanned_def)
    then have go: "\<exists>ps. scanned cmds info z ps [] m ?m4" "\<exists>ps r. scanned cmds info z ps r m ?m4"
      if "\<not> wanted cmds info z p"
      using that by blast+
    have stop: "found cmds info z p m ?m4" if "wanted cmds info z p"
      using that sc fs after unfolding found_def scanned_def by blast
    show "wp False (io_then (on_store (\<lambda>s. (Inr (), dispatch_packet info z p s)))
          (if args_match info (fst (snd p)) (fst (snd (snd p))) z \<and> fst p \<in> set cmds
           then io_return (Break p)
           else io_bind (on_transport (tr_time T)) (\<lambda>now.
             if now - start > read_timeout_s info then io_raise AdbTimeoutError
             else io_return (Continue ())))) ?Q ?E m3"
      using go stop np4 unfolding wanted_def [symmetric] wp_bind wp_on_store
      by (auto simp: wp_bind wp_if wp_return wp_raise same_scanned
          intro!: wp_mono [OF time_spec])
  next
    fix e m3 assume "read_some ?m2 m3"
    with sc2 show "?E e m3" by (blast dest: scanned_some)
  qed
qed

lemma io_read_spec:
  assumes ok: "store_ok (packet_store m)" and l: "local_id info \<noteq> None"
  shows "wp False (io_read T cmds info z) (\<lambda>p m'. found cmds info z p m m')
    (\<lambda>e m'. \<exists>ps r. scanned cmds info z ps r m m') m"
proof -
  obtain r s' where r: "store_read cmds info z (packet_store m) = (Inr r, s')"
    and red: "store_reduced info z (packet_store m) s'"
    and res: "case r of None \<Rightarrow> \<forall>a b. claims info z (a, b) \<longrightarrow> \<not> pending s' a b
     | Some (c, a, b, x) \<Rightarrow> c \<in> set cmds \<and> claims info z (a, b) \<and>
         (c, x) \<in> set (queue_of (packet_store m) (a, b))"
    using store_read_spec [OF ok] by blast
  show ?thesis
  proof (cases r)
    case (Some p)
    with r red res show ?thesis
      by (auto simp: io_read_def wp_simps found_def wanted_def claims_args_match [OF l]
          intro: store_after_Nil)
  next
    case None
    have sc: "scanned cmds info z [] [] m (m\<lparr>packet_store := s'\<rparr>)"
      using store_after_Nil [OF red] by (simp add: scanned_def)
    have np: "nothing_pending info z s'"
      using res None by (auto simp: nothing_pending_def pending_queue)
    show ?thesis
      unfolding io_read_def wp_bind wp_on_store r None
    proof (simp add: wp_bind, rule wp_mono [OF time_spec])
      fix start m2 assume "same (m\<lparr>packet_store := s'\<rparr>) m2"
      with sc np have "(\<exists>ps. scanned cmds info z ps [] m m2) \<and> nothing_pending info z (packet_store m2)"
        by (auto simp: same_scanned)
      then show "wp False (io_loop (io_read_body T cmds info z start) ())
          (\<lambda>p m'. found cmds info z p m m') (\<lambda>e m'. \<exists>ps r. scanned cmds info z ps r m m') m2"
        by (intro loop_partial [where I = "\<lambda>_ m'. (\<exists>ps. scanned cmds info z ps [] m m') \<and>
          nothing_pending info z (packet_store m')"]) (auto intro!: io_read_body_spec [OF l])
    qed simp
  qed
qed

end
section \<open>Sending over a byte transport\<close>

context byte_transport
begin

abbreviation writes :: "bytes \<Rightarrow> 'w io_manager \<Rightarrow> 'w io_manager \<Rightarrow> bool" where
  "writes \<equiv> bytes_written inp out"

lemmas writes_def = bytes_written_def [of inp out]

lemma writes_refl [simp]: "writes [] m m"
  by (simp add: writes_def)

lemma writes_trans: "writes xs m m1 \<Longrightarrow> writes ys m1 m2 \<Longrightarrow> writes (xs @ ys) m m2"
  by (simp add: writes_def)

lemma bulk_write_spec:
  "wp False (on_transport (tr_bulk_write T d t))
    (\<lambda>_ m'. \<exists>k. writes (take k d) m m') (\<lambda>e m'. \<exists>k. writes (take k d) m m') m"
  unfolding wp_simps by (rule wp_mono [OF write_law]) (auto simp: writes_def)

text \<open>
  A sent message puts a prefix of its header and then a prefix of its payload on the wire:
  what the transport did not take is not sent again.
\<close>

lemma send_spec:
  "wp False (io_send T msg info)
    (\<lambda>_ m'. \<exists>bs j k. pack msg = Inr bs \<and> writes (take j bs @ take k (msg_data msg)) m m')
    (\<lambda>e m'. \<exists>j k. writes (case pack msg of Inr bs \<Rightarrow> take j bs @ take k (msg_data msg) | Inl _ \<Rightarrow> []) m m') m"
proof (cases "pack msg")
  case (Inl e)
  then show ?thesis by (simp add: io_send_def send_raw_def wp_simps)
next
  case (Inr bs)
  show ?thesis
    unfolding io_send_def send_raw_def Inr io_lift_Inr io_bind_return wp_bind sum.case
  proof (rule wp_mono [OF bulk_write_spec], elim exE)
    fix m1 j assume j: "writes (take j bs) m m1"
    have "wp False (on_transport (tr_bulk_write T (msg_data msg) (transport_timeout_s info)))
        (\<lambda>_ m'. \<exists>k. writes (take j bs @ take k (msg_data msg)) m m')
        (\<lambda>_ m'. \<exists>k. writes (take j bs @ take k (msg_data msg)) m m') m1"
      by (rule wp_mono [OF bulk_write_spec]) (use j in \<open>auto dest: writes_trans\<close>)
    then show "wp False (if msg_data msg \<noteq> [] then io_then (on_transport (tr_bulk_write T (msg_data msg)
          (transport_timeout_s info))) (io_return ()) else io_return ())
        (\<lambda>_ m'. \<exists>bs' j k. Inr bs = Inr bs' \<and> writes (take j bs' @ take k (msg_data msg)) m m')
        (\<lambda>e m'. \<exists>j k. writes (take j bs @ take k (msg_data msg)) m m') m1"
      using j by (auto simp: wp_simps(1,3) wp_if elim!: wp_mono) blast+
  next
    fix e m1 assume "\<exists>k. writes (take k bs) m m1"
    then obtain j where "writes (take j bs @ take 0 (msg_data msg)) m m1" by auto
    then show "\<exists>j k. writes (take j bs @ take k (msg_data msg)) m m1" by blast
  qed
qed

end

section \<open>Sending without short writes\<close>

context full_write_transport
begin

definition mroomy :: "'a io_manager \<Rightarrow> bool" where
  "mroomy m \<longleftrightarrow> roomy (transport_state m)"

lemma mroomy_store [simp]: "mroomy (m\<lparr>packet_store := s\<rparr>) = mroomy m"
  by (simp add: mroomy_def)

lemma full_bulk_write:
  assumes "mroomy m"
  shows "wp False (on_transport (tr_bulk_write T d t))
    (\<lambda>_ m'. writes d m m' \<and> mroomy m') (\<lambda>e m'. (\<exists>k. writes (take k d) m m') \<and> mroomy m') m"
  unfolding wp_simps
  by (rule wp_mono [OF wp_conj [OF write_law room_write [OF assms [unfolded mroomy_def]]]])
    (auto simp: writes_def mroomy_def)

lemma full_send:
  assumes "mroomy m"
  shows "wp False (io_send T msg info)
    (\<lambda>_ m'. mroomy m' \<and> (\<exists>bs. pack msg = Inr bs \<and> writes (bs @ msg_data msg) m m')) (\<lambda>e m'. mroomy m') m"
proof (cases "pack msg")
  case (Inl e)
  with assms show ?thesis by (simp add: io_send_def send_raw_def wp_simps)
next
  case (Inr bs)
  show ?thesis
    unfolding io_send_def send_raw_def Inr io_lift_Inr io_bind_return wp_bind sum.case
  proof (rule wp_mono [OF full_bulk_write [OF assms]])
    fix x m1 assume w: "writes bs m m1 \<and> mroomy m1"
    then have "wp False (on_transport (tr_bulk_write T (msg_data msg) (transport_timeout_s info)))
        (\<lambda>_ m'. writes (bs @ msg_data msg) m m' \<and> mroomy m') (\<lambda>_ m'. mroomy m') m1"
      by (intro wp_mono [OF full_bulk_write]) (auto dest: writes_trans)
    then show "wp False (if msg_data msg \<noteq> [] then io_then (on_transport (tr_bulk_write T (msg_data msg)
          (transport_timeout_s info))) (io_return ()) else io_return ())
        (\<lambda>_ m'. mroomy m' \<and> (\<exists>bs'. Inr bs = Inr bs' \<and> writes (bs' @ msg_data msg) m m'))
        (\<lambda>e m'. mroomy m') m1"
      using w by (auto simp: wp_simps(1,3) wp_if elim!: wp_mono)
  qed auto
qed

text \<open>\<open>send_new\<close> writes exactly one frame, of the packet that was meant.\<close>

lemma full_send_new:
  assumes "mroomy m"
  shows "wp False (send_new T c a0 a1 d info)
    (\<lambda>_ m'. mroomy m' \<and> (\<exists>x y f. a0 = Some x \<and> a1 = Some y \<and> is_frame (c, x, y, d) f \<and> writes f m m'))
    (\<lambda>e m'. mroomy m') m"
proof (cases "AdbMessage c a0 a1 d")
  case (Inl e)
  with assms show ?thesis by (simp add: send_new_def wp_simps)
next
  case (Inr msg)
  have d: "msg_data msg = d" using Inr by (auto simp: AdbMessage_eq split: if_splits)
  have frame: "\<exists>x y. a0 = Some x \<and> a1 = Some y \<and> is_frame (c, x, y, d) (bs @ d)" if p: "pack msg = Inr bs" for bs
  proof -
    obtain x y where "a0 = Some x" "a1 = Some y"
      using pack_Inr_packable [OF p] packable_AdbMessage [OF Inr] by auto
    with pack_is_frame p Inr show ?thesis by blast
  qed
  show ?thesis
    unfolding send_new_def Inr io_lift_Inr io_bind_return
    by (rule wp_mono [OF full_send [OF assms]]) (use frame in \<open>fastforce simp: d\<close>)+
qed

end

text \<open>Where a failed write passes on nothing, a failed \<open>send_new\<close> has sent at most a header.\<close>

context clean_write_transport
begin

lemma clean_bulk_write:
  assumes "mroomy m"
  shows "wp False (on_transport (tr_bulk_write T d t)) (\<lambda>_ m'. writes d m m' \<and> mroomy m') (\<lambda>_ m'. writes [] m m') m"
  unfolding wp_simps
  by (rule wp_mono [OF wp_conj [OF failed_write wp_conj [OF write_law room_write [OF assms [unfolded mroomy_def]]]]])
    (auto simp: writes_def mroomy_def)

lemma clean_send_new:
  assumes "mroomy m"
  shows "wp False (send_new T c a0 a1 d info) (\<lambda>_ _. True) (\<lambda>_ m'. \<exists>f. writes f m m' \<and> length f \<le> 24) m"
proof -
  have unsent: "\<exists>f. writes f m m \<and> length f \<le> 24" by (intro exI [of _ "[]"]) simp
  have "wp False (send_raw T msg info) (\<lambda>_ _. True) (\<lambda>_ m'. \<exists>f. writes f m m' \<and> length f \<le> 24) m" for msg
  proof (cases "pack msg")
    case (Inr bs)
    then have len: "length bs \<le> 24" using length_pack [of msg] by (simp add: MESSAGE_SIZE_def)
    have data: "wp False (on_transport (tr_bulk_write T (msg_data msg) (transport_timeout_s info))) (\<lambda>_ _. True)
        (\<lambda>_ m'. \<exists>f. writes f m m' \<and> length f \<le> 24) m1" if "writes bs m m1 \<and> mroomy m1" for m1
      by (rule wp_mono [OF clean_bulk_write]) (use that len in \<open>auto dest: writes_trans intro!: exI [of _ bs]\<close>)
    show ?thesis
      unfolding send_raw_def Inr io_lift_Inr io_bind_return wp_bind
      by (rule wp_mono [OF clean_bulk_write [OF assms]])
        (auto simp: wp_if wp_bind wp_return intro!: wp_mono [OF data] exI [of _ "[]"])
  qed (use unsent in \<open>simp add: send_raw_def wp_simps\<close>)
  then show ?thesis
    unfolding send_new_def io_send_def wp_bind wp_lift by (auto simp: unsent split: sum.split)
qed

end

section \<open>Reading what was sent\<close>

context byte_transport
begin

text \<open>Input that starts with the frame of \<open>p\<close> gives \<open>p\<close>, and exactly that frame is consumed.\<close>

lemma read_exactly:
  assumes "minp m = d @ rest"
  shows "wp False (read_bytes_from_device T (int (length d)) info)
    (\<lambda>x m'. x = d \<and> reads d m m') (\<lambda>e m'. read_some m m' \<and> \<not> malformed e) m"
  by (rule wp_mono [OF read_bytes_spec]) (use assms in \<open>auto simp: reads_def\<close>)

lemma read_frame:
  assumes f: "is_frame p f" and inp: "minp m = f @ rest"
  shows "wp False (read_packet_from_device T info)
    (\<lambda>q m'. q = p \<and> reads f m m') (\<lambda>e m'. read_some m m' \<and> \<not> malformed e) m"
proof -
  obtain c a0 a1 d where p: "p = (c, a0, a1, d)" by (cases p)
  obtain h k where h: "f = h @ d" "unpack h = Inr (cmd_wire c, a0, a1, int (length d), k)"
    and c: "c \<in> set IDS" and k: "d \<noteq> [] \<longrightarrow> k = checksum d"
    using f p by (auto simp: is_frame_def)
  have size: "MESSAGE_SIZE = int (length h)"
    using unpack_length [OF h(2)] by (simp add: MESSAGE_SIZE_def)
  have wire: "WIRE_TO_ID (cmd_wire c) = Some c" using c by (simp add: WIRE_TO_ID_Some)
  have payload: "wp False (read_bytes_from_device T (int (length d)) info)
      (\<lambda>x m'. x = d \<and> reads f m m') (\<lambda>e m'. read_some m m' \<and> \<not> malformed e) m1"
    if "reads h m m1" for m1
  proof -
    have "minp m1 = d @ rest" using that inp h(1) by (simp add: reads_def)
    from read_exactly [OF this] show ?thesis
      by (rule wp_mono) (use that h(1) in \<open>auto intro: reads_trans reads_some read_some_trans\<close>)
  qed
  show ?thesis
    unfolding read_packet_from_device_def size wp_bind
    by (rule wp_mono [OF read_exactly [where rest = "d @ rest"]])
      (use h k wire inp p in \<open>auto simp: wp_simps reads_def intro!: wp_mono [OF payload]\<close>)
qed

text \<open>A payload that does not have the announced checksum is never returned.\<close>

lemma read_corrupt:
  assumes u: "unpack hdr = Inr (w, a0, a1, int (length d), k)" and d: "d \<noteq> []" "k \<noteq> checksum d"
    and inp: "minp m = hdr @ d @ rest"
  shows "wp False (read_packet_from_device T info) (\<lambda>_ _. False) (\<lambda>_ _. True) m"
proof (rule wp_mono [OF read_packet_spec])
  fix q m' assume "framed [q] m m'"
  then obtain g where g: "is_frame q g" "minp m = g @ minp m'"
    by (auto simp: framed_def reads_def)
  obtain c b0 b1 x where q: "q = (c, b0, b1, x)" by (cases q)
  obtain h j where h: "g = h @ x" "unpack h = Inr (cmd_wire c, b0, b1, int (length x), j)"
    "x \<noteq> [] \<longrightarrow> j = checksum x"
    using g(1) q by (auto simp: is_frame_def)
  have "h = hdr" and "d @ rest = x @ minp m'"
    using g(2) inp unpack_length [OF u] unpack_length [OF h(2)] by (auto simp: h(1))
  with h u d show False by auto
qed simp

end

section \<open>The store stays well-formed\<close>

text \<open>Whatever the transport does, every operation of the manager keeps the store's invariant.\<close>

definition manager_ok :: "'w io_manager \<Rightarrow> bool" where
  "manager_ok m \<longleftrightarrow> store_ok (packet_store m)"

lemma on_transport_keeps [keeps_intros]: "keeps manager_ok (on_transport p)"
  unfolding on_transport_def by (rule keeps_zoom) (simp add: manager_ok_def)

lemma on_store_keeps:
  "(\<And>s. store_ok s \<Longrightarrow> store_ok (snd (f s))) \<Longrightarrow> keeps manager_ok (on_store f)"
  unfolding keeps_def wp_on_store manager_ok_def
  by (auto split: prod.split sum.split) (metis snd_conv)+

lemma read_bytes_keeps [keeps_intros]: "keeps manager_ok (read_bytes_from_device T n info)"
  unfolding read_bytes_from_device_def read_bytes_body_def by (auto intro!: keeps_intros simp: Let_def)

lemma read_packet_keeps [keeps_intros]: "keeps manager_ok (read_packet_from_device T info)"
  unfolding read_packet_from_device_def by (intro keeps_intros)

lemma read_expected_keeps [keeps_intros]: "keeps manager_ok (read_expected_packet_from_device T cmds info)"
  unfolding read_expected_packet_from_device_def read_expected_body_def by (intro keeps_intros)

lemma send_keeps [keeps_intros]: "keeps manager_ok (io_send T msg info)"
  unfolding io_send_def send_raw_def by (intro keeps_intros)

lemma send_new_keeps [keeps_intros]: "keeps manager_ok (send_new T c a0 a1 d info)"
  unfolding send_new_def by (intro keeps_intros)

lemma store_read_ok: "store_ok s \<Longrightarrow> store_ok (snd (store_read cmds info z s))"
  using store_read_spec [of s cmds info z] by (auto simp: store_reduced_def)

lemma io_read_keeps [keeps_intros]: "keeps manager_ok (io_read T cmds info z)"
  unfolding io_read_def io_read_body_def
  by (intro keeps_intros on_store_keeps) (simp_all add: store_read_ok dispatch_ok)

lemma io_close_keeps [keeps_intros]: "keeps manager_ok (io_close T)"
  unfolding io_close_def by (intro keeps_intros on_store_keeps) (simp add: store_clear_all_def)

lemma close_and_raise_keeps [keeps_intros]: "keeps manager_ok (close_and_raise T e)"
  unfolding close_and_raise_def by (intro keeps_intros)

lemma stls_keeps [keeps_intros]: "keeps manager_ok (do_stls_upgrade T x509 pem info)"
  unfolding do_stls_upgrade_def by (intro keeps_intros)

lemma auth_keys_keeps [keeps_intros]: "keeps manager_ok (auth_keys T ks arg0 banner2 info)"
  by (induction ks arbitrary: arg0 banner2) (auto intro!: keeps_intros)

lemma offer_keeps [keeps_intros]:
  assumes "\<forall>p. cb = Some p \<longrightarrow> keeps manager_ok p"
  shows "keeps manager_ok (offer_public_key T key t cb info)"
  unfolding offer_public_key_def using assms by (cases cb) (auto intro!: keeps_intros)

lemma connect_keeps [keeps_intros]:
  assumes "\<forall>p. cb = Some p \<longrightarrow> keeps manager_ok p"
  shows "keeps manager_ok (io_connect T x509 b ks t cb info pem)"
  unfolding io_connect_def using assms
  by (intro keeps_intros on_store_keeps) (simp_all add: store_clear_all_def)

section \<open>What the transport's calls keep, the manager keeps\<close>

definition of_transport :: "('w \<Rightarrow> bool) \<Rightarrow> 'w io_manager \<Rightarrow> bool" where
  "of_transport W m = W (transport_state m)"

lemma of_transport_store: "keeps (of_transport W) (on_store f)"
  by (auto simp: keeps_def wp_on_store of_transport_def split: prod.split sum.split)

lemma of_transport_call: "keeps W p \<Longrightarrow> keeps (of_transport W) (on_transport p)"
  by (simp add: keeps_def wp_on_transport of_transport_def)

lemma of_transport_calls:
  assumes "calls_keep T W"
  shows "keeps (of_transport W) (on_transport (tr_bulk_read T n t))"
    "keeps (of_transport W) (on_transport (tr_bulk_write T d t))"
    "keeps (of_transport W) (on_transport (tr_time T))"
  using assms by (auto simp: calls_keep_def intro: of_transport_call)

lemma read_packet_world:
  "calls_keep T W \<Longrightarrow> keeps (of_transport W) (read_packet_from_device T info)"
  unfolding read_packet_from_device_def read_bytes_from_device_def read_bytes_body_def
  by (intro keeps_intros of_transport_calls)

lemma read_expected_world:
  "calls_keep T W \<Longrightarrow> keeps (of_transport W) (read_expected_packet_from_device T cmds info)"
  unfolding read_expected_packet_from_device_def read_expected_body_def
  by (intro keeps_intros of_transport_calls read_packet_world)

lemma io_read_world: "calls_keep T W \<Longrightarrow> keeps (of_transport W) (io_read T cmds info z)"
  unfolding io_read_def io_read_body_def
  by (intro keeps_intros of_transport_store of_transport_calls read_packet_world)

lemma send_new_world: "calls_keep T W \<Longrightarrow> keeps (of_transport W) (send_new T c a0 a1 d info)"
  unfolding send_new_def io_send_def send_raw_def by (intro keeps_intros of_transport_calls)

end
