(* ===== verification/Deadlines.thy ===== *)
theory Deadlines
  imports IO_Monad
begin

text \<open>
  Loops with a deadline, over any state with a clock that never goes back: a loop ends if each
  round of it ends and goes on only after it has read the clock and found the deadline not passed.
\<close>

definition later_by :: "('s \<Rightarrow> rat) \<Rightarrow> 's \<Rightarrow> 's \<Rightarrow> bool" where
  "later_by clk s s' \<longleftrightarrow> clk s \<le> clk s'"

lemma later_by_refl [simp]: "later_by clk s s"
  by (simp add: later_by_def)

lemma later_by_trans: "later_by clk s s1 \<Longrightarrow> later_by clk s1 s2 \<Longrightarrow> later_by clk s s2"
  by (simp add: later_by_def)

text \<open>\<open>p\<close> ends, with a value or an exception, and time has not gone back.\<close>

definition ends_by :: "('s \<Rightarrow> rat) \<Rightarrow> ('s, 'a) prog \<Rightarrow> 's \<Rightarrow> bool" where
  "ends_by clk p s \<longleftrightarrow> wp True p (\<lambda>_ s'. later_by clk s s') (\<lambda>_ s'. later_by clk s s') s"

lemma ends_by_bind:
  assumes "ends_by clk p s" and "\<And>x s1. later_by clk s s1 \<Longrightarrow> ends_by clk (f x) s1"
  shows "ends_by clk (io_bind p f) s"
  unfolding ends_by_def wp_bind
  by (rule wp_mono [OF assms(1) [unfolded ends_by_def]])
    (auto intro!: wp_mono [OF assms(2) [unfolded ends_by_def]] intro: later_by_trans)

lemma ends_by_finally:
  assumes "ends_by clk p s" and "\<And>s1. later_by clk s s1 \<Longrightarrow> ends_by clk c s1"
  shows "ends_by clk (io_finally p c) s"
  unfolding ends_by_def wp_finally
  by (rule wp_mono [OF assms(1) [unfolded ends_by_def]])
    (auto intro!: wp_mono [OF assms(2) [unfolded ends_by_def]] intro: later_by_trans)

lemma ends_by_simple [simp]:
  "ends_by clk (io_return x) s" "ends_by clk (io_raise e) s" "ends_by clk (io_lift r) s"
  by (auto simp: ends_by_def wp_simps split: sum.split)

text \<open>The number of times the clock can still be read before a deadline.\<close>

definition ticks_by :: "('s \<Rightarrow> rat) \<Rightarrow> rat \<Rightarrow> rat \<Rightarrow> 's \<Rightarrow> nat" where
  "ticks_by clk tick deadline s = nat (\<lfloor>(deadline - clk s) / tick\<rfloor> + 1)"

lemma ticks_by_decrease:
  assumes "0 < tick" and "clk s \<le> deadline" and "clk s + tick \<le> clk s1"
  shows "ticks_by clk tick deadline s1 < ticks_by clk tick deadline s"
proof -
  have "(deadline - clk s1) / tick \<le> (deadline - clk s) / tick - 1"
    using assms divide_right_mono [of "deadline - clk s1" "deadline - clk s - tick" tick]
    by (simp add: diff_divide_distrib [of _ tick])
  then have "\<lfloor>(deadline - clk s1) / tick\<rfloor> \<le> \<lfloor>(deadline - clk s) / tick\<rfloor> - 1"
    by (metis floor_diff_one floor_mono)
  moreover have "0 \<le> \<lfloor>(deadline - clk s) / tick\<rfloor>"
    using assms(1,2) by simp
  ultimately show ?thesis by (simp add: ticks_by_def)
qed

lemma ticks_by_mono: "0 < tick \<Longrightarrow> later_by clk s s1 \<Longrightarrow> ticks_by clk tick d s1 \<le> ticks_by clk tick d s"
  unfolding ticks_by_def later_by_def
  by (intro nat_mono add_right_mono floor_mono divide_right_mono) auto

text \<open>One round of such a loop.\<close>

definition round_ends ::
  "('s \<Rightarrow> rat) \<Rightarrow> rat \<Rightarrow> rat \<Rightarrow> ('s, ('a, 'b) loop_ctl) prog \<Rightarrow> 's \<Rightarrow> bool" where
  "round_ends clk tick deadline p s \<longleftrightarrow>
     wp True p (\<lambda>c s'. later_by clk s s' \<and>
         (case c of Break _ \<Rightarrow> True | Continue _ \<Rightarrow> ticks_by clk tick deadline s' < ticks_by clk tick deadline s))
       (\<lambda>_ s'. later_by clk s s') s"

lemma ends_by_loop:
  assumes "\<And>a s. round_ends clk tick deadline (body a) s"
  shows "ends_by clk (io_loop body a) s"
  unfolding ends_by_def
proof (rule loop_total [where I = "\<lambda>_ s'. later_by clk s s'" and \<mu> = "\<lambda>_. ticks_by clk tick deadline"])
  fix a s1 assume "later_by clk s s1"
  then show "wp True (body a) (loop_post (\<lambda>a' s'. later_by clk s s' \<and>
        ticks_by clk tick deadline s' < ticks_by clk tick deadline s1)
      (\<lambda>_ s'. later_by clk s s')) (\<lambda>_ s'. later_by clk s s') s1"
    by (intro wp_mono [OF assms [unfolded round_ends_def]])
      (auto simp: loop_post_def intro: later_by_trans split: loop_ctl.splits)
qed simp

lemma round_ends_bind:
  assumes "0 < tick" and "ends_by clk p s" and "\<And>x s1. later_by clk s s1 \<Longrightarrow> round_ends clk tick d (f x) s1"
  shows "round_ends clk tick d (io_bind p f) s"
  unfolding round_ends_def wp_bind
proof (rule wp_mono [OF assms(2) [unfolded ends_by_def]])
  fix x s1 assume l: "later_by clk s s1"
  show "wp True (f x) (\<lambda>c s'. later_by clk s s' \<and>
      (case c of Continue x \<Rightarrow> ticks_by clk tick d s' < ticks_by clk tick d s | Break x \<Rightarrow> True))
      (\<lambda>_ s'. later_by clk s s') s1"
    by (rule wp_mono [OF assms(3) [OF l, unfolded round_ends_def]])
      (use ticks_by_mono [OF assms(1) l, of d] in \<open>auto intro: later_by_trans [OF l] split: loop_ctl.splits\<close>)
qed auto

lemma round_ends_break [simp]: "round_ends clk tick d (io_return (Break b)) s"
  by (simp add: round_ends_def wp_return)

text \<open>The check of the deadline at the end of a round.\<close>

lemma round_ends_check:
  assumes "0 < tick" and "d = start + budget"
    and time: "wp True now_prog (\<lambda>now s'. now = clk s \<and> clk s + tick \<le> clk s') (\<lambda>_ _. False) s"
  shows "round_ends clk tick d (io_bind now_prog (\<lambda>now.
      if now - start > budget then io_raise e else io_return (Continue a))) s"
  unfolding round_ends_def wp_bind
proof (rule wp_mono [OF time])
  fix now s1 assume n: "now = clk s \<and> clk s + tick \<le> clk s1"
  then have "later_by clk s s1" using assms(1) by (simp add: later_by_def)
  moreover have "ticks_by clk tick d s1 < ticks_by clk tick d s" if "\<not> budget < now - start"
    using ticks_by_decrease [OF assms(1), of clk s d s1] n that assms(2) by simp
  ultimately show "wp True (if budget < now - start then io_raise e else io_return (Continue a))
      (\<lambda>c s'. later_by clk s s' \<and>
        (case c of Continue x \<Rightarrow> ticks_by clk tick d s' < ticks_by clk tick d s | Break x \<Rightarrow> True))
      (\<lambda>_ s'. later_by clk s s') s1"
    by (simp add: wp_raise wp_return)
qed simp

end
