(* ===== verification/IO_Manager_Live.thy ===== *)
theory IO_Manager_Live
  imports IO_Manager_Spec Deadlines
begin

text \<open>
  Every operation of the I/O manager that waits for the device ends on a transport that
  honours its timeouts: the read timeout bounds the number of rounds of each loop.
\<close>

section \<open>Everything ends on a live transport\<close>

context live_transport
begin

abbreviation mclock :: "'w io_manager \<Rightarrow> rat" where
  "mclock m \<equiv> clock (transport_state m)"

abbreviation later :: "'w io_manager \<Rightarrow> 'w io_manager \<Rightarrow> bool" where
  "later \<equiv> later_by mclock"

lemmas later_def = later_by_def [of mclock]

abbreviation ends :: "('w io_manager, 'a) prog \<Rightarrow> 'w io_manager \<Rightarrow> bool" where
  "ends \<equiv> ends_by mclock"

lemmas ends_def = ends_by_def [of mclock]
lemmas ends_bind = ends_by_bind [of mclock]
lemmas ends_loop = ends_by_loop [of mclock tick]

lemma ends_store: "ends (on_store f) m"
  by (auto simp: ends_def later_def wp_on_store split: prod.split sum.split)

lemma ends_read: "ends (on_transport (tr_bulk_read T n (Some t))) m"
  unfolding ends_def wp_on_transport by (rule wp_mono [OF read_live]) (auto simp: later_def)

lemma ends_write: "ends (on_transport (tr_bulk_write T d (Some t))) m"
  unfolding ends_def wp_on_transport by (rule wp_mono [OF write_live]) (auto simp: later_def)

lemma time_ends:
  "wp True (on_transport (tr_time T)) (\<lambda>now m'. now = mclock m \<and> mclock m + tick \<le> mclock m') (\<lambda>_ _. False) m"
  unfolding wp_on_transport by (rule wp_mono [OF time_live]) simp_all

lemma ends_time: "ends (on_transport (tr_time T)) m"
  unfolding ends_def by (rule wp_mono [OF time_ends]) (use tick_pos in \<open>auto simp: later_def\<close>)

lemmas ends_or_ticks_bind = round_ends_bind [OF tick_pos, of mclock]
lemmas ends_or_ticks_check = round_ends_check [OF tick_pos _ time_ends]

lemma read_bytes_ends:
  assumes "transport_timeout_s info = Some t"
  shows "ends (read_bytes_from_device T n info) m"
  unfolding read_bytes_from_device_def
proof (intro ends_bind ends_time ends_loop)
  fix start a m
  show "round_ends mclock tick (start + read_timeout_s info) (read_bytes_body T info start a) m"
    unfolding read_bytes_body_def
    by (auto simp: Let_def assms intro!: ends_or_ticks_bind ends_read ends_or_ticks_check split: prod.split)
qed

lemma read_packet_ends:
  assumes "transport_timeout_s info = Some t"
  shows "ends (read_packet_from_device T info) m"
  unfolding read_packet_from_device_def
  by (intro ends_bind read_bytes_ends [OF assms] ends_by_simple)
    (auto intro!: ends_bind read_bytes_ends [OF assms] split: prod.split option.split)

lemma read_expected_ends:
  assumes "transport_timeout_s info = Some t"
  shows "ends (read_expected_packet_from_device T cmds info) m"
  unfolding read_expected_packet_from_device_def
proof (intro ends_bind ends_time ends_loop)
  fix start a m
  show "round_ends mclock tick (start + read_timeout_s info) (read_expected_body T cmds info start a) m"
    unfolding read_expected_body_def
    by (auto intro!: ends_or_ticks_bind read_packet_ends [OF assms] ends_or_ticks_check)
qed

lemma io_read_ends:
  assumes "transport_timeout_s info = Some t"
  shows "ends (io_read T cmds info z) m"
proof -
  have body: "round_ends mclock tick (start + read_timeout_s info) (io_read_body T cmds info z start a) m" for start a m
    unfolding io_read_body_def
    by (auto intro!: ends_or_ticks_bind ends_store read_packet_ends [OF assms] ends_or_ticks_check
        split: option.split)
  show ?thesis
    unfolding io_read_def
    by (auto intro!: ends_bind ends_store ends_time ends_loop [OF body] split: option.split)
qed

lemma send_ends:
  assumes "transport_timeout_s info = Some t"
  shows "ends (io_send T msg info) m"
  unfolding io_send_def send_raw_def assms
  by (auto intro!: ends_bind ends_write)

lemma ends_transport:
  assumes "wp True p (\<lambda>_ w'. clock (transport_state m) \<le> clock w')
    (\<lambda>_ w'. clock (transport_state m) \<le> clock w') (transport_state m)"
  shows "ends (on_transport p) m"
  unfolding ends_def wp_on_transport by (rule wp_mono [OF assms]) (auto simp: later_def)

lemma send_new_ends:
  assumes "transport_timeout_s info = Some t"
  shows "ends (send_new T c a0 a1 d info) m"
  unfolding send_new_def by (intro ends_bind ends_by_simple send_ends [OF assms])

lemma close_ends: "ends (io_close T) m"
  unfolding io_close_def by (intro ends_bind ends_transport close_live ends_store)

lemma close_and_raise_ends: "ends (close_and_raise T e) m"
  unfolding close_and_raise_def by (intro ends_bind ends_transport close_live ends_by_simple)

text \<open>Connecting ends when both timeouts are finite and the caller's callback ends.\<close>

lemma stls_ends:
  assumes "transport_timeout_s info = Some t"
  shows "ends (do_stls_upgrade T x509 pem info) m"
  unfolding do_stls_upgrade_def
  by (auto intro!: ends_bind close_and_raise_ends send_new_ends [OF assms] ends_transport upgrade_live
      split: option.split prod.split)

lemma auth_keys_ends:
  assumes "transport_timeout_s info = Some t"
  shows "ends (auth_keys T ks arg0 banner2 info) m"
proof (induction ks arbitrary: arg0 banner2 m)
  case (Cons k ks)
  then show ?case
    by (auto intro!: ends_bind close_and_raise_ends send_new_ends [OF assms] read_expected_ends [OF assms]
        split: prod.split)
qed simp

lemma offer_ends:
  assumes "transport_timeout_s info = Some t" and "\<And>p m. cb = Some p \<Longrightarrow> ends p m"
  shows "ends (offer_public_key T key (Some aut) cb info) m"
  unfolding offer_public_key_def
  by (auto intro!: ends_bind send_new_ends [OF assms(1)] assms(2) read_expected_ends [where t = aut]
      split: option.split prod.split)

lemma connect_ends:
  assumes "transport_timeout_s info = Some t" and "\<And>p m. cb = Some p \<Longrightarrow> ends p m"
  shows "ends (io_connect T x509 b ks (Some aut) cb info pem) m"
  unfolding io_connect_def assms(1)
  by (auto intro!: ends_bind ends_transport close_live connect_live ends_store send_new_ends [OF assms(1)]
      read_expected_ends [OF assms(1)] read_expected_ends [where t = aut] stls_ends [OF assms(1)]
      close_and_raise_ends auth_keys_ends [OF assms(1)] offer_ends [OF assms]
      split: prod.split list.split option.split)

end
section \<open>Total correctness\<close>

lemma wp_total_from: "wp False m Q E s \<Longrightarrow> wp True m Q' E' s \<Longrightarrow> wp True m Q E s"
  by (auto simp: wp_def split: option.splits)

context timed_byte_transport
begin

lemma read_bytes_total:
  assumes "0 \<le> n" and "transport_timeout_s info = Some t"
  shows "wp True (read_bytes_from_device T n info)
    (\<lambda>d m'. int (length d) = n \<and> reads d m m') (\<lambda>e m'. read_some m m' \<and> \<not> malformed e) m"
  by (rule wp_total_from [OF read_bytes_spec [OF assms(1)] read_bytes_ends [OF assms(2), unfolded ends_def]])

lemma io_read_total:
  assumes "store_ok (packet_store m)" and "local_id info \<noteq> None" and "transport_timeout_s info = Some t"
  shows "wp True (io_read T cmds info z) (\<lambda>p m'. found cmds info z p m m')
    (\<lambda>e m'. \<exists>ps r. scanned cmds info z ps r m m') m"
  by (rule wp_total_from [OF io_read_spec [OF assms(1,2)] io_read_ends [OF assms(3), unfolded ends_def]])

lemma read_frame_total:
  assumes "is_frame p f" and "minp m = f @ rest" and "transport_timeout_s info = Some t"
  shows "wp True (read_packet_from_device T info)
    (\<lambda>q m'. q = p \<and> reads f m m') (\<lambda>e m'. read_some m m' \<and> \<not> malformed e) m"
  by (rule wp_total_from [OF read_frame [OF assms(1,2)] read_packet_ends [OF assms(3), unfolded ends_def]])

lemma read_expected_total:
  assumes "transport_timeout_s info = Some t"
  shows "wp True (read_expected_packet_from_device T cmds info)
    (\<lambda>p m'. fst p \<in> set cmds \<and> (\<exists>ps. (\<forall>q \<in> set ps. fst q \<notin> set cmds) \<and> framed (ps @ [p]) m m'))
    (\<lambda>e m'. read_some m m') m"
  by (rule wp_total_from [OF read_expected_spec read_expected_ends [OF assms, unfolded ends_def]])

end

end
