(* ===== verification/IO_Manager_Progress.thy ===== *)
theory IO_Manager_Progress
  imports IO_Manager_Live
begin

text \<open>
  Amortised progress of the I/O manager: what is still to be read (the bytes the device has
  sent and the packets in the store) has a weight, which no operation raises and which every
  packet that \<open>read\<close> returns lowers by more than the length of its payload.
\<close>

section \<open>The weight of what is still to be read\<close>

text \<open>A stored packet weighs its payload and one more; a byte to come weighs one.\<close>

definition queue_weight :: "entry list \<Rightarrow> nat" where
  "queue_weight q = (\<Sum>(_, x) \<leftarrow> q. Suc (length x))"

definition store_weight :: "store \<Rightarrow> nat" where
  "store_weight s = (\<Sum>(_, val1) \<leftarrow> s. \<Sum>(_, val0) \<leftarrow> val1. queue_weight val0)"

lemma queue_weight_simps [simp]:
  "queue_weight [] = 0"
  "queue_weight ((c, x) # q) = Suc (length x) + queue_weight q"
  "queue_weight (q @ [(c, x)]) = queue_weight q + Suc (length x)"
  by (simp_all add: queue_weight_def)

abbreviation table_weight :: "(int \<times> entry list) list \<Rightarrow> nat" where
  "table_weight d \<equiv> (\<Sum>(_, q) \<leftarrow> d. queue_weight q)"

lemma sum_insert: "map_of xs k = None \<Longrightarrow> (\<Sum>(_, x) \<leftarrow> AList.update k v xs. f x) = (\<Sum>(_, x) \<leftarrow> xs. f x) + (f v :: nat)"
  by (induction xs) (auto split: if_splits)

lemma store_weight_clear: "store_weight (store_clear a b s) \<le> store_weight s"
proof -
  have "store_weight (AList.update b (AList.delete a d) s) \<le> store_weight s" if "map_of s b = Some d" for d
    using sum_update [OF that, of table_weight "AList.delete a d"] sum_delete [of queue_weight a d]
    by (simp add: store_weight_def)
  moreover have "store_weight (AList.delete b s) \<le> store_weight s"
    using sum_delete [of table_weight b s] by (simp add: store_weight_def)
  ultimately show ?thesis by (auto simp: store_clear_def Let_def split: option.split)
qed

lemma store_weight_put: "store_weight (store_put a b c x s) \<le> store_weight s + Suc (length x)"
proof (cases "map_of s b")
  case None
  then show ?thesis using sum_insert [OF None, of table_weight] by (auto simp: store_put_def store_weight_def)
next
  case (Some d)
  let ?s = "\<lambda>q. AList.update b (AList.update a q d) s"
  have s: "store_weight (?s q) + table_weight d = store_weight s + table_weight (AList.update a q d)" for q
    using sum_update [OF Some, of table_weight] by (simp add: store_weight_def)
  show ?thesis
  proof (cases "map_of d a")
    case None
    have "table_weight (AList.update a [(c, x)] d) = table_weight d + queue_weight [(c, x)]"
      by (rule sum_insert [OF None])
    with s [of "[(c, x)]"] Some None show ?thesis by (auto simp: store_put_def)
  next
    case q: (Some q)
    have "table_weight (AList.update a (q @ [(c, x)]) d) + queue_weight q
        = table_weight d + queue_weight (q @ [(c, x)])"
      by (rule sum_update [OF q])
    with s [of "q @ [(c, x)]"] Some q show ?thesis by (simp add: store_put_def)
  qed
qed

lemma store_weight_get:
  assumes "store_get a0 a1 s = (Inr (c, a, b, x), s')"
  shows "store_weight s' + Suc (length x) \<le> store_weight s"
proof -
  obtain d q where d: "map_of s b = Some d" and q: "map_of d a = Some ((c, x) # q)"
    and s': "s' = AList.update b (AList.update a q d) s \<or>
             s' = store_clear a b (AList.update b (AList.update a q d) s)"
    using assms by (auto simp: store_get_def Let_def split: option.splits prod.splits list.splits if_splits)
  have "store_weight (AList.update b (AList.update a q d) s) + Suc (length x) = store_weight s"
    using sum_update [OF d, of table_weight "AList.update a q d"] sum_update [OF q, of queue_weight q]
    by (simp add: store_weight_def)
  with s' store_weight_clear [of a b "AList.update b (AList.update a q d) s"] show ?thesis by auto
qed

lemma store_get_raises: "store_get a0 a1 s = (Inl e, s') \<Longrightarrow> s' = s"
  by (auto simp: store_get_def Let_def split: option.splits prod.splits list.splits if_splits)

lemma store_weight_read:
  "store_read cmds info z s = (r, s') \<Longrightarrow>
     (case r of Inr (Some (c, a, b, x)) \<Rightarrow> store_weight s' + Suc (length x) \<le> store_weight s
      | _ \<Rightarrow> store_weight s' \<le> store_weight s)"
proof (induction cmds info z s rule: store_read.induct)
  case (1 cmds info z s)
  show ?case
  proof (cases "store_lookup info z s")
    case None
    with 1 show ?thesis by (auto simp: store_read.simps [of cmds info z s])
  next
    case (Some k)
    obtain a b where k: "k = (a, b)" by (cases k)
    obtain g s1 where g: "store_get (Some a) (Some b) s = (g, s1)" by (cases "store_get (Some a) (Some b) s")
    show ?thesis
    proof (cases g)
      case (Inl e)
      with 1(2) Some k g store_get_raises [OF g [unfolded Inl]] show ?thesis by (auto simp: store_read.simps [of cmds info z s])
    next
      case (Inr p)
      obtain c a' b' x where p: "p = (c, a', b', x)" by (cases p)
      have w: "store_weight s1 + Suc (length x) \<le> store_weight s"
        by (rule store_weight_get) (use g Inr p in blast)
      show ?thesis
      proof (cases "c \<in> set cmds")
        case True
        with 1(2) Some k g Inr p w show ?thesis by (auto simp: store_read.simps [of cmds info z s])
      next
        case False
        then have "store_read cmds info z s1 = (r, s')"
          using 1(2) Some k g Inr p by (simp add: store_read.simps [of cmds info z s])
        from 1(1) [OF Some k [symmetric] g [symmetric] Inr _ this] False p w show ?thesis
          by (auto split: sum.splits option.splits)
      qed
    qed
  qed
qed

lemma store_weight_dispatch:
  "store_weight (dispatch_packet info z (c, a, b, x) s) \<le> store_weight s + Suc (length x)"
  using store_weight_put [of a b c x s] store_weight_clear [of a b s]
  by (auto simp: dispatch_packet_def)

lemma store_weight_dispatch_mine:
  "args_match info a b z \<Longrightarrow> store_weight (dispatch_packet info z (c, a, b, x) s) \<le> store_weight s"
  using store_weight_clear [of a b s] by (auto simp: dispatch_packet_def)

lemma frame_length: "is_frame (c, a, b, x) f \<Longrightarrow> length f = 24 + length x"
  by (auto simp: is_frame_def dest: unpack_length)

section \<open>Every call consumes\<close>

context byte_transport
begin

definition weight :: "'w io_manager \<Rightarrow> nat" where
  "weight m = length (minp m) + store_weight (packet_store m)"

lemma weight_reads: "reads xs m m' \<Longrightarrow> weight m' + length xs = weight m"
  by (simp add: weight_def reads_def)

lemma weight_some: "read_some m m' \<Longrightarrow> weight m' \<le> weight m"
  by (auto simp: read_some_def dest: weight_reads)

lemma weight_same: "same m m' \<Longrightarrow> weight m' = weight m"
  by (auto simp: same_def dest: weight_reads)

lemma weight_framed: "framed [(c, a, b, x)] m m' \<Longrightarrow> weight m' + 24 + length x = weight m"
  by (auto simp: framed_def dest!: weight_reads frame_length)

lemma weight_written: "writes xs m m' \<Longrightarrow> weight m' = weight m"
  by (simp add: weight_def writes_def)

lemma weight_store:
  "weight (m\<lparr>packet_store := s\<rparr>) + store_weight (packet_store m) = weight m + store_weight s"
  by (simp add: weight_def)

definition taken :: "nat \<Rightarrow> packet \<Rightarrow> 'w io_manager \<Rightarrow> bool" where
  "taken n p m \<longleftrightarrow> weight m + Suc (length (snd (snd (snd p)))) \<le> n"

lemma store_read_takes:
  "wp False (on_store (store_read cmds info z))
     (\<lambda>r m'. case r of None \<Rightarrow> weight m' \<le> weight m | Some p \<Rightarrow> taken (weight m) p m')
     (\<lambda>_ m'. weight m' \<le> weight m) m"
proof -
  obtain r s' where r: "store_read cmds info z (packet_store m) = (r, s')"
    by (cases "store_read cmds info z (packet_store m)")
  show ?thesis
    using store_weight_read [OF r] weight_store [where m = m and s = s']
    by (auto simp: wp_on_store r taken_def split: sum.splits option.splits)
qed

lemma io_read_body_takes:
  assumes n: "weight m \<le> n"
  shows "wp False (io_read_body T cmds info z start u)
     (loop_post (\<lambda>_ m'. weight m' \<le> n) (taken n)) (\<lambda>_ m'. weight m' \<le> n) m"
  unfolding io_read_body_def wp_bind
proof (rule wp_mono [OF store_read_takes])
  fix r m1 assume r: "case r of None \<Rightarrow> weight m1 \<le> weight m | Some p \<Rightarrow> taken (weight m) p m1"
  show "wp False (case r of Some p \<Rightarrow> io_return (Break p)
      | None \<Rightarrow> io_bind (read_packet_from_device T info) (\<lambda>p.
          io_then (on_store (\<lambda>s. (Inr (), dispatch_packet info z p s)))
            (if args_match info (fst (snd p)) (fst (snd (snd p))) z \<and> fst p \<in> set cmds
             then io_return (Break p)
             else io_bind (on_transport (tr_time T)) (\<lambda>now.
               if now - start > read_timeout_s info then io_raise AdbTimeoutError
               else io_return (Continue ())))))
      (loop_post (\<lambda>_ m'. weight m' \<le> n) (taken n)) (\<lambda>_ m'. weight m' \<le> n) m1"
  proof (cases r)
    case (Some p)
    with r n show ?thesis by (auto simp: wp_return taken_def)
  next
    case None
    with r n have m1: "weight m1 \<le> n" by simp
    show ?thesis
      unfolding None option.case wp_bind
    proof (rule wp_mono [OF read_packet_spec])
      fix p m2 assume f: "framed [p] m1 m2"
      obtain c a b x where p: "p = (c, a, b, x)" by (cases p)
      let ?m3 = "m2\<lparr>packet_store := dispatch_packet info z p (packet_store m2)\<rparr>"
      have w2: "weight m2 + 24 + length x = weight m1" by (rule weight_framed [OF f [unfolded p]])
      have w3: "weight ?m3 \<le> n"
        using w2 m1 weight_store [where m = m2 and s = "dispatch_packet info z p (packet_store m2)"]
          store_weight_dispatch [of info z c a b x "packet_store m2"] by (simp add: p)
      have mine: "taken n p ?m3" if "args_match info a b z"
        using w2 m1 weight_store [where m = m2 and s = "dispatch_packet info z p (packet_store m2)"]
          store_weight_dispatch_mine [OF that, of c x "packet_store m2"] by (simp add: p taken_def)
      show "wp False (on_store (\<lambda>s. (Inr (), dispatch_packet info z p s)))
          (\<lambda>_. wp False (if args_match info (fst (snd p)) (fst (snd (snd p))) z \<and> fst p \<in> set cmds
             then io_return (Break p)
             else io_bind (on_transport (tr_time T)) (\<lambda>now.
               if now - start > read_timeout_s info then io_raise AdbTimeoutError
               else io_return (Continue ())))
             (loop_post (\<lambda>_ m'. weight m' \<le> n) (taken n)) (\<lambda>_ m'. weight m' \<le> n))
          (\<lambda>_ m'. weight m' \<le> n) m2"
        using mine w3 by (auto simp: p wp_on_store wp_bind wp_return wp_raise wp_if
            intro!: wp_mono [OF time_spec] dest!: weight_same)
    qed (use m1 in \<open>auto dest: weight_some\<close>)
  qed
qed (use n in auto)

lemma io_read_takes:
  "wp False (io_read T cmds info z) (taken (weight m)) (\<lambda>_ m'. weight m' \<le> weight m) m"
  unfolding io_read_def wp_bind
proof (rule wp_mono [OF store_read_takes])
  fix r m1 assume r: "case r of None \<Rightarrow> weight m1 \<le> weight m | Some p \<Rightarrow> taken (weight m) p m1"
  show "wp False (case r of Some p \<Rightarrow> io_return p
      | None \<Rightarrow> io_bind (on_transport (tr_time T)) (\<lambda>start.
          io_loop (io_read_body T cmds info z start) ()))
      (taken (weight m)) (\<lambda>_ m'. weight m' \<le> weight m) m1"
  proof (cases r)
    case (Some p)
    with r show ?thesis by (simp add: wp_return)
  next
    case None
    have loop: "wp False (io_loop (io_read_body T cmds info z start) ()) (taken (weight m))
        (\<lambda>_ m'. weight m' \<le> weight m) m2" if "weight m2 \<le> weight m" for start m2
      by (rule loop_partial [where I = "\<lambda>_ m'. weight m' \<le> weight m", OF io_read_body_takes]) (use that in auto)
    show ?thesis
      unfolding None option.case wp_bind
      by (rule wp_mono [OF time_spec]) (use r None in \<open>auto intro!: loop dest: weight_same\<close>)
  qed
qed simp

lemma send_new_weight:
  "wp False (send_new T c a0 a1 d info) (\<lambda>_ m'. weight m' \<le> weight m) (\<lambda>_ m'. weight m' \<le> weight m) m"
  unfolding send_new_def wp_bind wp_lift
  by (auto split: sum.split intro!: wp_mono [OF send_spec] dest!: weight_written)

end

end
