(* ===== verification/Adb_Device.thy ===== *)
theory Adb_Device
  imports IO_Manager
begin

text \<open>
  \<open>AdbDevice\<close> of \<open>adb_shell_wifi/adb_device.py\<close>: its attributes, connecting and closing,
  streams (\<open>_open\<close>, \<open>_read_until\<close>, \<open>_clse\<close>, \<open>_okay\<close>) and the shell services. A
  generator is modelled together with the loop that consumes it: the consumer is a
  function of the yielded value and of an accumulator.
\<close>

section \<open>State\<close>

record 'w adb_device =
  io_manager :: "'w io_manager"
  available :: bool
  banner :: "bytes option"
  default_transport_timeout_s :: "rat option"
  dev_local_id :: int
  maxdata :: int

definition on_io :: "('w io_manager, 'a) prog \<Rightarrow> ('w adb_device, 'a) prog" where
  "on_io = io_zoom io_manager (\<lambda>m d. d\<lparr>io_manager := m\<rparr>)"

definition on_world :: "('w, 'a) prog \<Rightarrow> ('w adb_device, 'a) prog" where
  "on_world p = on_io (on_transport p)"

text \<open>The \<open>banner\<close> argument of the constructor.\<close>

datatype banner_arg = BannerBytes bytes | BannerStr pystr | BannerNone

definition banner_of :: "banner_arg \<Rightarrow> exn + bytes option" where
  "banner_of b =
     (case b of
        BannerNone \<Rightarrow> Inr None
      | BannerBytes bs \<Rightarrow> Inr (Some bs)
      | BannerStr s \<Rightarrow>
          if s = [] then Inr (Some []) else e_bind (utf8_encode s) (\<lambda>bs. Inr (Some bs)))"

text \<open>\<open>None\<close> for the transport: the argument is no instance of \<open>BaseTransport\<close>.\<close>

definition AdbDevice ::
  "'w option \<Rightarrow> rat option \<Rightarrow> banner_arg \<Rightarrow> exn + 'w adb_device" where
  "AdbDevice transport default_timeout b =
     e_bind (banner_of b) (\<lambda>bn.
       case transport of
         None \<Rightarrow> Inl InvalidTransportError
       | Some w \<Rightarrow>
           Inr \<lparr>io_manager = \<lparr>packet_store = [], transport_state = w\<rparr>, available = False,
                banner = bn, default_transport_timeout_s = default_timeout,
                dev_local_id = 0, maxdata = MAX_PUSH_DATA\<rparr>)"

definition max_chunk_size :: "'w adb_device \<Rightarrow> int" where
  "max_chunk_size d =
     (let c = min MAX_CHUNK_SIZE (maxdata d div 2) in if c \<noteq> 0 then c else MAX_PUSH_DATA)"

definition get_transport_timeout_s :: "rat option \<Rightarrow> 'w adb_device \<Rightarrow> rat option" where
  "get_transport_timeout_s t d = (case t of Some x \<Rightarrow> Some x | None \<Rightarrow> default_transport_timeout_s d)"

section \<open>Close and connect\<close>

definition dev_close :: "('w, 'x) host_scheme \<Rightarrow> ('w adb_device, unit) prog" where
  "dev_close H = io_then (io_modify (\<lambda>d. d\<lparr>available := False\<rparr>)) (on_io (io_close H))"

definition ensure_banner :: "('w, 'x) host_scheme \<Rightarrow> ('w adb_device, bytes) prog" where
  "ensure_banner H =
     io_bind (io_gets banner) (\<lambda>b.
       case b of
         Some (x # xs) \<Rightarrow> io_return (x # xs)
       | _ \<Rightarrow>
           io_bind (on_world (get_banner H)) (\<lambda>bn.
           io_then (io_modify (\<lambda>d. d\<lparr>banner := Some bn\<rparr>)) (io_return bn)))"

definition dev_connect ::
  "('w, 'x) host_scheme \<Rightarrow> (bytes \<Rightarrow> exn + bytes \<times> bytes) \<Rightarrow> signer list \<Rightarrow> rat option \<Rightarrow>
     rat option \<Rightarrow> rat \<Rightarrow> ('w io_manager, unit) prog option \<Rightarrow> bytes option \<Rightarrow>
     ('w adb_device, bool) prog" where
  "dev_connect H x509 rsa_keys transport_timeout auth_timeout read_timeout auth_callback tls_priv_pem =
     io_bind (ensure_banner H) (\<lambda>bn.
     io_bind (io_gets (get_transport_timeout_s transport_timeout)) (\<lambda>tt.
     io_then (io_modify (\<lambda>d. d\<lparr>available := False\<rparr>))
     (io_bind (on_io (io_connect H x509 bn rsa_keys auth_timeout auth_callback
                 (AdbTransactionInfo None None tt read_timeout None) tls_priv_pem))
       (\<lambda>(av, md).
          io_then (io_modify (\<lambda>d. d\<lparr>available := av, maxdata := md\<rparr>)) (io_return av)))))"

section \<open>Streams\<close>

text \<open>The next local id: incremented, and 1 again after \<open>2\<^bsup>32\<^esup> - 1\<close>.\<close>

definition next_local_id :: "int \<Rightarrow> int" where
  "next_local_id i = (if i + 1 = 2 ^ 32 then 1 else i + 1)"

definition dev_open ::
  "('w, 'x) host_scheme \<Rightarrow> bytes \<Rightarrow> rat option \<Rightarrow> rat \<Rightarrow> rat option \<Rightarrow>
     ('w adb_device, transaction_info) prog" where
  "dev_open H destination transport_timeout read_timeout timeout =
     io_then (io_modify (\<lambda>d. d\<lparr>dev_local_id := next_local_id (dev_local_id d)\<rparr>))
     (io_bind (io_gets (\<lambda>d. AdbTransactionInfo (Some (dev_local_id d)) None
                 (get_transport_timeout_s transport_timeout d) read_timeout timeout)) (\<lambda>info.
     io_then (on_io (send_new H OPEN (local_id info) (Some 0) (destination @ [0]) info))
     (io_bind (on_io (io_read H [OKAY] info False)) (\<lambda>(_, remote, _, _).
       io_return (info\<lparr>remote_id := Some remote\<rparr>)))))"

definition dev_okay :: "('w, 'x) host_scheme \<Rightarrow> transaction_info \<Rightarrow> ('w adb_device, unit) prog" where
  "dev_okay H info = on_io (send_new H OKAY (local_id info) (remote_id info) [] info)"

definition read_until ::
  "('w, 'x) host_scheme \<Rightarrow> cmd list \<Rightarrow> transaction_info \<Rightarrow> ('w adb_device, cmd \<times> bytes) prog" where
  "read_until H expected_cmds info =
     io_bind (on_io (io_read H expected_cmds info True)) (\<lambda>(cmd, _, _, data).
       if cmd = WRTE then io_then (dev_okay H info) (io_return (cmd, data))
       else io_return (cmd, data))"

definition dev_clse :: "('w, 'x) host_scheme \<Rightarrow> transaction_info \<Rightarrow> ('w adb_device, unit) prog" where
  "dev_clse H info =
     io_then (on_io (send_new H CLSE (local_id info) (remote_id info) [] info))
       (io_then (read_until H [CLSE] info) (io_return ()))"

definition read_until_close_body ::
  "('w, 'x) host_scheme \<Rightarrow> transaction_info \<Rightarrow> rat \<Rightarrow> (bytes \<Rightarrow> 'a \<Rightarrow> ('w adb_device, 'a) prog) \<Rightarrow>
     'a \<Rightarrow> ('w adb_device, ('a, 'a) loop_ctl) prog" where
  "read_until_close_body H info start body acc =
     io_bind (read_until H [CLSE, WRTE] info) (\<lambda>(cmd, data).
       if cmd = CLSE then
         io_then (on_io (send_new H CLSE (local_id info) (remote_id info) [] info))
           (io_return (Break acc))
       else
         io_bind (body data acc) (\<lambda>acc'.
           case timeout_s info of
             None \<Rightarrow> io_return (Continue acc')
           | Some t \<Rightarrow>
               io_bind (on_world (tr_time H)) (\<lambda>now.
                 if now - start > t then io_raise AdbTimeoutError
                 else io_return (Continue acc'))))"

definition read_until_close ::
  "('w, 'x) host_scheme \<Rightarrow> transaction_info \<Rightarrow> (bytes \<Rightarrow> 'a \<Rightarrow> ('w adb_device, 'a) prog) \<Rightarrow> 'a \<Rightarrow>
     ('w adb_device, 'a) prog" where
  "read_until_close H info body acc =
     io_bind (on_world (tr_time H)) (\<lambda>start. io_loop (read_until_close_body H info start body) acc)"

definition streaming_command ::
  "('w, 'x) host_scheme \<Rightarrow> bytes \<Rightarrow> bytes \<Rightarrow> rat option \<Rightarrow> rat \<Rightarrow> rat option \<Rightarrow>
     (bytes \<Rightarrow> 'a \<Rightarrow> ('w adb_device, 'a) prog) \<Rightarrow> 'a \<Rightarrow> ('w adb_device, 'a) prog" where
  "streaming_command H service command transport_timeout read_timeout timeout body acc =
     io_bind (dev_open H (service @ bytes_lit '':'' @ command) transport_timeout read_timeout timeout)
       (\<lambda>info. read_until_close H info body acc)"

section \<open>Services\<close>

text \<open>The result of a service: \<open>str\<close> when it is decoded, \<open>bytes\<close> otherwise.\<close>

datatype service_output = OutStr pystr | OutBytes bytes

definition decode_output :: "bool \<Rightarrow> bytes \<Rightarrow> service_output" where
  "decode_output decode b = (if decode then OutStr (utf8_decode b) else OutBytes b)"

definition dev_service ::
  "('w, 'x) host_scheme \<Rightarrow> bytes \<Rightarrow> bytes \<Rightarrow> rat option \<Rightarrow> rat \<Rightarrow> rat option \<Rightarrow> bool \<Rightarrow>
     ('w adb_device, service_output) prog" where
  "dev_service H service command transport_timeout read_timeout timeout decode =
     io_bind (streaming_command H service command transport_timeout read_timeout timeout
                (\<lambda>data acc. io_return (acc @ data)) [])
       (\<lambda>b. io_return (decode_output decode b))"

text \<open>The lines of a streaming service go to the caller's loop body one by one.\<close>

definition streaming_service ::
  "('w, 'x) host_scheme \<Rightarrow> bytes \<Rightarrow> bytes \<Rightarrow> rat option \<Rightarrow> rat \<Rightarrow> bool \<Rightarrow>
     (service_output \<Rightarrow> 'a \<Rightarrow> ('w adb_device, 'a) prog) \<Rightarrow> 'a \<Rightarrow> ('w adb_device, 'a) prog" where
  "streaming_service H service command transport_timeout read_timeout decode body acc =
     streaming_command H service command transport_timeout read_timeout None
       (\<lambda>line acc. body (decode_output decode line) acc) acc"

text \<open>\<open>if not self.available: raise AdbConnectionError\<close>\<close>

definition require_available :: "('w adb_device, 'a) prog \<Rightarrow> ('w adb_device, 'a) prog" where
  "require_available p =
     io_bind (io_gets available) (\<lambda>av. if \<not> av then io_raise AdbConnectionError else p)"

definition exec_out ::
  "('w, 'x) host_scheme \<Rightarrow> pystr \<Rightarrow> rat option \<Rightarrow> rat \<Rightarrow> rat option \<Rightarrow> bool \<Rightarrow>
     ('w adb_device, service_output) prog" where
  "exec_out H command transport_timeout read_timeout timeout decode =
     require_available
       (io_bind (io_lift (utf8_encode command)) (\<lambda>c.
          dev_service H (bytes_lit ''exec'') c transport_timeout read_timeout timeout decode))"

definition reboot ::
  "('w, 'x) host_scheme \<Rightarrow> bool \<Rightarrow> rat option \<Rightarrow> rat \<Rightarrow> rat option \<Rightarrow> ('w adb_device, unit) prog" where
  "reboot H fastboot transport_timeout read_timeout timeout =
     require_available
       (io_then (dev_open H (if fastboot then bytes_lit ''reboot:bootloader'' else bytes_lit ''reboot:'')
                   transport_timeout read_timeout timeout)
          (io_return ()))"

definition root ::
  "('w, 'x) host_scheme \<Rightarrow> rat option \<Rightarrow> rat \<Rightarrow> rat option \<Rightarrow> ('w adb_device, unit) prog" where
  "root H transport_timeout read_timeout timeout =
     require_available
       (io_then (dev_service H (bytes_lit ''root'') [] transport_timeout read_timeout timeout False)
          (io_return ()))"

definition shell ::
  "('w, 'x) host_scheme \<Rightarrow> pystr \<Rightarrow> rat option \<Rightarrow> rat \<Rightarrow> rat option \<Rightarrow> bool \<Rightarrow>
     ('w adb_device, service_output) prog" where
  "shell H command transport_timeout read_timeout timeout decode =
     require_available
       (io_bind (io_lift (utf8_encode command)) (\<lambda>c.
          dev_service H (bytes_lit ''shell'') c transport_timeout read_timeout timeout decode))"

definition streaming_shell ::
  "('w, 'x) host_scheme \<Rightarrow> pystr \<Rightarrow> rat option \<Rightarrow> rat \<Rightarrow> bool \<Rightarrow>
     (service_output \<Rightarrow> 'a \<Rightarrow> ('w adb_device, 'a) prog) \<Rightarrow> 'a \<Rightarrow> ('w adb_device, 'a) prog" where
  "streaming_shell H command transport_timeout read_timeout decode body acc =
     require_available
       (io_bind (io_lift (utf8_encode command)) (\<lambda>c.
          streaming_service H (bytes_lit ''shell'') c transport_timeout read_timeout decode body acc))"

end
