(* ===== verification/File_Sync.thy ===== *)
theory File_Sync
  imports Adb_Device
begin

text \<open>
  The FileSync half of \<open>AdbDevice\<close>: buffered packets inside \<open>WRTE\<close> messages, and the
  operations \<open>list\<close>, \<open>stat\<close>, \<open>pull\<close> and \<open>push\<close> built on them. The object
  \<open>_FileSyncTransactionInfo\<close> that the source mutates is an argument, and its new value a
  result, of each function; after an exception the source never looks at it again.
\<close>

section \<open>Buffered packets\<close>

text \<open>Data to send is \<open>bytes\<close>, or a \<open>str\<close> that is encoded first.\<close>

definition data_bytes :: "py_data \<Rightarrow> exn + bytes" where
  "data_bytes d = (case d of PyBytes b \<Rightarrow> Inr b | PyStr s \<Rightarrow> utf8_encode s)"

definition filesync_flush ::
  "('w, 'x) host_scheme \<Rightarrow> transaction_info \<Rightarrow> filesync_info \<Rightarrow> ('w adb_device, filesync_info) prog" where
  "filesync_flush H info fsi =
     io_then (on_io (send_new H WRTE (local_id info) (remote_id info)
                (take (send_idx fsi) (send_buffer fsi)) info))
     (io_then (read_until H [OKAY] info)
       (io_return (fsi\<lparr>send_idx := 0\<rparr>)))"

text \<open>\<open>buffer[i:i + len(buf)] = buf\<close>, which makes the buffer longer when it runs over its end.\<close>

definition slice_assign :: "nat \<Rightarrow> bytes \<Rightarrow> bytes \<Rightarrow> bytes" where
  "slice_assign i buf b = take i b @ buf @ drop (i + length buf) b"

definition buffer_packet :: "bytes \<Rightarrow> filesync_info \<Rightarrow> filesync_info" where
  "buffer_packet buf fsi =
     fsi\<lparr>send_buffer := slice_assign (send_idx fsi) buf (send_buffer fsi),
         send_idx := send_idx fsi + length buf\<rparr>"

definition filesync_send ::
  "('w, 'x) host_scheme \<Rightarrow> cmd \<Rightarrow> transaction_info \<Rightarrow> filesync_info \<Rightarrow> py_data \<Rightarrow> int option \<Rightarrow>
     ('w adb_device, filesync_info) prog" where
  "filesync_send H command_id info fsi data osize =
     io_bind (io_lift (data_bytes data)) (\<lambda>bs.
       (let sz = (case osize of None \<Rightarrow> int (length bs) | Some n \<Rightarrow> n)
        in io_bind (if \<not> can_add_to_send_buffer fsi (length bs)
                    then filesync_flush H info fsi else io_return fsi) (\<lambda>fsi'.
           io_bind (io_lift (py_lookup FILESYNC_ID_TO_WIRE command_id)) (\<lambda>w.
           io_bind (io_lift (struct_pack [Some w, Some sz])) (\<lambda>hdr.
             io_return (buffer_packet (hdr @ bs) fsi'))))))"

definition read_buffered_body ::
  "('w, 'x) host_scheme \<Rightarrow> int \<Rightarrow> transaction_info \<Rightarrow> filesync_info \<Rightarrow>
     ('w adb_device, (filesync_info, filesync_info) loop_ctl) prog" where
  "read_buffered_body H n info fsi =
     (if int (length (recv_buffer fsi)) < n then
        io_bind (read_until H [WRTE] info) (\<lambda>(_, data).
          io_return (Continue (fsi\<lparr>recv_buffer := recv_buffer fsi @ data\<rparr>)))
      else io_return (Break fsi))"

definition filesync_read_buffered ::
  "('w, 'x) host_scheme \<Rightarrow> int \<Rightarrow> transaction_info \<Rightarrow> filesync_info \<Rightarrow>
     ('w adb_device, bytes \<times> filesync_info) prog" where
  "filesync_read_buffered H n info fsi =
     io_bind (io_loop (read_buffered_body H n info) fsi) (\<lambda>fsi'.
       io_return (take (nat n) (recv_buffer fsi'),
                  fsi'\<lparr>recv_buffer := drop (nat n) (recv_buffer fsi')\<rparr>))"

text \<open>A FileSync packet: its id, the header fields and the data (\<open>None\<close> for \<open>STAT\<close>).\<close>

type_synonym fs_packet = "cmd \<times> int list \<times> bytes option"

definition filesync_read ::
  "('w, 'x) host_scheme \<Rightarrow> cmd list \<Rightarrow> transaction_info \<Rightarrow> filesync_info \<Rightarrow>
     ('w adb_device, fs_packet \<times> filesync_info) prog" where
  "filesync_read H expected_ids info fsi =
     io_bind (if send_idx fsi \<noteq> 0 then filesync_flush H info fsi else io_return fsi) (\<lambda>fsi1.
     io_bind (filesync_read_buffered H (int (recv_message_size fsi1)) info fsi1) (\<lambda>(header_data, fsi2).
     io_bind (io_lift (struct_unpack (recv_message_format fsi2) header_data)) (\<lambda>header.
     io_bind (io_lift (py_lookup FILESYNC_WIRE_TO_ID (hd header))) (\<lambda>command_id.
     io_bind (if command_id \<noteq> STAT then filesync_read_buffered H (last header) info fsi2
              else io_return ([], fsi2)) (\<lambda>(data, fsi3).
       if command_id \<notin> set expected_ids then
         (if command_id = FAIL then io_raise (AdbCommandFailureException (utf8_decode data))
          else io_raise InvalidResponseError)
       else if command_id = STAT then io_return ((command_id, tl header, None), fsi3)
       else io_return ((command_id, butlast (tl header), Some data), fsi3))))))"

text \<open>
  \<open>for cmd_id, header, data in self._filesync_read_until(...)\<close> with its body, which ends
  the loop (\<open>Break\<close>) or asks for the next packet (\<open>Continue\<close>).
\<close>

definition filesync_for_body ::
  "('w, 'x) host_scheme \<Rightarrow> cmd list \<Rightarrow> cmd list \<Rightarrow> transaction_info \<Rightarrow>
     (fs_packet \<Rightarrow> 'a \<Rightarrow> ('w adb_device, ('a, 'a) loop_ctl) prog) \<Rightarrow> filesync_info \<times> 'a \<Rightarrow>
     ('w adb_device, (filesync_info \<times> 'a, 'a \<times> filesync_info) loop_ctl) prog" where
  "filesync_for_body H expected_ids finish_ids info body = (\<lambda>(fsi, acc).
     io_bind (filesync_read H (expected_ids @ finish_ids) info fsi) (\<lambda>(p, fsi').
       io_bind (body p acc) (\<lambda>ctl.
         case ctl of
           Break a \<Rightarrow> io_return (Break (a, fsi'))
         | Continue a \<Rightarrow>
             if fst p \<in> set finish_ids then io_return (Break (a, fsi'))
             else io_return (Continue (fsi', a)))))"

definition filesync_for ::
  "('w, 'x) host_scheme \<Rightarrow> cmd list \<Rightarrow> cmd list \<Rightarrow> transaction_info \<Rightarrow>
     (fs_packet \<Rightarrow> 'a \<Rightarrow> ('w adb_device, ('a, 'a) loop_ctl) prog) \<Rightarrow> filesync_info \<Rightarrow> 'a \<Rightarrow>
     ('w adb_device, 'a \<times> filesync_info) prog" where
  "filesync_for H expected_ids finish_ids info body fsi acc =
     io_loop (filesync_for_body H expected_ids finish_ids info body) (fsi, acc)"

section \<open>Listing and stat\<close>

record DeviceFile =
  filename :: bytes
  df_mode :: int
  df_size :: int
  df_mtime :: int

text \<open>\<open>mode, size, mtime = header\<close>\<close>

definition unpack3 :: "int list \<Rightarrow> exn + int \<times> int \<times> int" where
  "unpack3 xs = (case xs of [a, b, c] \<Rightarrow> Inr (a, b, c) | _ \<Rightarrow> Inl ValueError)"

definition opt_bytes :: "bytes option \<Rightarrow> bytes" where
  "opt_bytes b = (case b of None \<Rightarrow> [] | Some x \<Rightarrow> x)"

definition new_filesync :: "fs_format \<Rightarrow> ('w adb_device, filesync_info) prog" where
  "new_filesync fmt =
     io_bind (io_gets maxdata) (\<lambda>md. io_lift (FileSyncTransactionInfo fmt md))"

definition list_body ::
  "fs_packet \<Rightarrow> DeviceFile list \<Rightarrow> ('w adb_device, (DeviceFile list, DeviceFile list) loop_ctl) prog" where
  "list_body p files =
     (case p of (cmd_id, header, name) \<Rightarrow>
        if cmd_id = DONE then io_return (Break files)
        else io_bind (io_lift (unpack3 header)) (\<lambda>(mode, size, mtime).
          io_return (Continue (files @
            [\<lparr>filename = opt_bytes name, df_mode = mode, df_size = size, df_mtime = mtime\<rparr>]))))"

definition dev_list ::
  "('w, 'x) host_scheme \<Rightarrow> pystr \<Rightarrow> rat option \<Rightarrow> rat \<Rightarrow> ('w adb_device, DeviceFile list) prog" where
  "dev_list H device_path transport_timeout read_timeout =
     (if device_path = [] then io_raise DevicePathInvalidError
      else require_available
        (io_bind (dev_open H (bytes_lit ''sync:'') transport_timeout read_timeout None) (\<lambda>info.
         io_bind (new_filesync FILESYNC_LIST_FORMAT) (\<lambda>fsi.
         io_bind (filesync_send H LIST info fsi (PyStr device_path) None) (\<lambda>fsi1.
         io_bind (filesync_for H [DENT] [DONE] info list_body fsi1 []) (\<lambda>(files, _).
         io_then (dev_clse H info) (io_return files)))))))"

definition dev_stat ::
  "('w, 'x) host_scheme \<Rightarrow> pystr \<Rightarrow> rat option \<Rightarrow> rat \<Rightarrow> ('w adb_device, int \<times> int \<times> int) prog" where
  "dev_stat H device_path transport_timeout read_timeout =
     (if device_path = [] then io_raise DevicePathInvalidError
      else require_available
        (io_bind (dev_open H (bytes_lit ''sync:'') transport_timeout read_timeout None) (\<lambda>info.
         io_bind (new_filesync FILESYNC_STAT_FORMAT) (\<lambda>fsi.
         io_bind (filesync_send H STAT info fsi (PyStr device_path) None) (\<lambda>fsi1.
         io_bind (filesync_read H [STAT] info fsi1) (\<lambda>((_, header, _), _).
         io_bind (io_lift (unpack3 header)) (\<lambda>r.
         io_then (dev_clse H info) (io_return r))))))))"

section \<open>Pulling\<close>

text \<open>
  A progress callback gets the path, the number of bytes just copied and the total_bytes; every
  exception it raises is swallowed.
\<close>

type_synonym 'w progress = "pystr \<Rightarrow> int \<Rightarrow> int \<Rightarrow> ('w adb_device, unit) prog"

definition call_progress ::
  "'w progress option \<Rightarrow> pystr \<Rightarrow> int \<Rightarrow> int \<Rightarrow> ('w adb_device, unit) prog" where
  "call_progress progress device_path n total_bytes =
     (case progress of
        None \<Rightarrow> io_return ()
      | Some callback \<Rightarrow> io_catch (callback device_path n total_bytes) (\<lambda>_. io_return ()))"

definition pull_body ::
  "'w stream \<Rightarrow> 'w progress option \<Rightarrow> pystr \<Rightarrow> int \<Rightarrow> fs_packet \<Rightarrow> unit \<Rightarrow>
     ('w adb_device, (unit, unit) loop_ctl) prog" where
  "pull_body stream progress device_path total_bytes p u =
     (case p of (cmd_id, _, data) \<Rightarrow>
        if cmd_id = DONE then io_return (Break ())
        else io_then (on_world (st_write stream (opt_bytes data)))
          (io_then (call_progress progress device_path (int (length (opt_bytes data))) total_bytes)
            (io_return (Continue ()))))"

text \<open>\<open>stat\<close> is called with its default timeouts.\<close>

definition pull_data ::
  "('w, 'x) host_scheme \<Rightarrow> pystr \<Rightarrow> 'w stream \<Rightarrow> 'w progress option \<Rightarrow> transaction_info \<Rightarrow>
     filesync_info \<Rightarrow> ('w adb_device, unit) prog" where
  "pull_data H device_path stream progress info fsi =
     io_bind (case progress of
                None \<Rightarrow> io_return 0
              | Some _ \<Rightarrow> io_bind (dev_stat H device_path None DEFAULT_READ_TIMEOUT_S)
                            (\<lambda>(_, size, _). io_return size)) (\<lambda>total_bytes.
     io_bind (filesync_send H RECV info fsi (PyStr device_path) None) (\<lambda>fsi1.
     io_then (filesync_for H [DATA] [DONE] info (pull_body stream progress device_path total_bytes) fsi1 ())
       (io_return ())))"

text \<open>\<open>with opener(local_path, mode) as stream\<close>: an opened file is closed at the end, a \<open>BytesIO\<close> is not.\<close>

definition with_stream ::
  "(pystr \<Rightarrow> ('w, 'w stream) prog) \<Rightarrow> 'w stream local_path \<Rightarrow> ('w stream \<Rightarrow> ('w adb_device, 'a) prog) \<Rightarrow>
     ('w adb_device, 'a) prog" where
  "with_stream opener path body =
     (case path of
        LBytesIO s \<Rightarrow> body s
      | LPath p \<Rightarrow>
          io_bind (on_world (opener p)) (\<lambda>s. io_finally (body s) (on_world (st_close s))))"

definition dev_pull ::
  "('w, 'x) host_scheme \<Rightarrow> pystr \<Rightarrow> 'w stream local_path \<Rightarrow> 'w progress option \<Rightarrow> rat option \<Rightarrow> rat \<Rightarrow>
     ('w adb_device, unit) prog" where
  "dev_pull H device_path local_path progress transport_timeout read_timeout =
     (if device_path = [] then io_raise DevicePathInvalidError
      else require_available
        (with_stream (open_wb H) local_path (\<lambda>stream.
           io_bind (dev_open H (bytes_lit ''sync:'') transport_timeout read_timeout None) (\<lambda>info.
           io_bind (new_filesync FILESYNC_PULL_FORMAT) (\<lambda>fsi.
             io_finally (pull_data H device_path stream progress info fsi) (dev_clse H info))))))"

section \<open>Pushing\<close>

text \<open>Decimal digits, as \<open>'{}'.format\<close> prints an integer.\<close>

fun nat_digits :: "nat \<Rightarrow> pystr" where
  "nat_digits n = (if n < 10 then [48 + n] else nat_digits (n div 10) @ [48 + n mod 10])"

declare nat_digits.simps [simp del]

definition int_str :: "int \<Rightarrow> pystr" where
  "int_str i = (if i < 0 then str_lit ''-'' @ nat_digits (nat (- i)) else nat_digits (nat i))"

definition push_fileinfo :: "pystr \<Rightarrow> int \<Rightarrow> exn + bytes" where
  "push_fileinfo device_path st_mode = utf8_encode (device_path @ str_lit '','' @ int_str st_mode)"

definition push_chunks_body ::
  "('w, 'x) host_scheme \<Rightarrow> 'w stream \<Rightarrow> pystr \<Rightarrow> 'w progress option \<Rightarrow> int \<Rightarrow> transaction_info \<Rightarrow>
     filesync_info \<Rightarrow> ('w adb_device, (filesync_info, filesync_info) loop_ctl) prog" where
  "push_chunks_body H stream device_path progress total_bytes info fsi =
     io_bind (io_gets max_chunk_size) (\<lambda>n.
     io_bind (on_world (st_read stream n)) (\<lambda>data.
       if data \<noteq> [] then
         io_bind (filesync_send H DATA info fsi (PyBytes data) None) (\<lambda>fsi'.
         io_then (call_progress progress device_path (int (length data)) total_bytes)
           (io_return (Continue fsi')))
       else io_return (Break fsi)))"

definition push_chunks ::
  "('w, 'x) host_scheme \<Rightarrow> 'w stream \<Rightarrow> pystr \<Rightarrow> 'w progress option \<Rightarrow> int \<Rightarrow> transaction_info \<Rightarrow>
     filesync_info \<Rightarrow> ('w adb_device, filesync_info) prog" where
  "push_chunks H stream device_path progress total_bytes info fsi =
     io_loop (push_chunks_body H stream device_path progress total_bytes info) fsi"

definition push_reply :: "fs_packet \<Rightarrow> unit \<Rightarrow> ('w adb_device, (unit, unit) loop_ctl) prog" where
  "push_reply p u =
     (case p of (cmd_id, _, data) \<Rightarrow>
        if cmd_id = OKAY then io_return (Break ()) else io_raise (PushFailedError data))"

text \<open>\<open>int(time.time())\<close> for a modification time of 0.\<close>

definition push_mtime :: "('w, 'x) host_scheme \<Rightarrow> int \<Rightarrow> ('w adb_device, int) prog" where
  "push_mtime H mtime =
     (if mtime = 0 then io_bind (on_world (tr_time H)) (\<lambda>now. io_return \<lfloor>now\<rfloor>) else io_return mtime)"

definition push_stream ::
  "('w, 'x) host_scheme \<Rightarrow> 'w stream \<Rightarrow> pystr \<Rightarrow> int \<Rightarrow> int \<Rightarrow> 'w progress option \<Rightarrow>
     transaction_info \<Rightarrow> filesync_info \<Rightarrow> ('w adb_device, unit) prog" where
  "push_stream H stream device_path st_mode mtime progress info fsi =
     io_bind (io_lift (push_fileinfo device_path st_mode)) (\<lambda>fileinfo.
     io_bind (filesync_send H SEND info fsi (PyBytes fileinfo) None) (\<lambda>fsi1.
     io_bind (case progress of None \<Rightarrow> io_return 0 | Some _ \<Rightarrow> on_world (st_fstat_size stream)) (\<lambda>total_bytes.
     io_bind (push_chunks H stream device_path progress total_bytes info fsi1) (\<lambda>fsi2.
     io_bind (push_mtime H mtime) (\<lambda>mt.
     io_bind (filesync_send H DONE info fsi2 (PyBytes []) (Some mt)) (\<lambda>fsi3.
     io_then (filesync_for H [] [OKAY, FAIL] info push_reply fsi3 ())
       (io_return ())))))))"

text \<open>The loop over \<open>zip(local_paths, device_paths)\<close>.\<close>

fun push_files ::
  "('w, 'x) host_scheme \<Rightarrow> ('w stream local_path \<times> pystr) list \<Rightarrow> int \<Rightarrow> int \<Rightarrow> 'w progress option \<Rightarrow>
     rat option \<Rightarrow> rat \<Rightarrow> ('w adb_device, unit) prog" where
  "push_files H [] st_mode mtime progress transport_timeout read_timeout = io_return ()"
| "push_files H ((lpath, dpath) # ps) st_mode mtime progress transport_timeout read_timeout =
     io_bind (with_stream (open_rb H) lpath (\<lambda>stream.
       io_bind (dev_open H (bytes_lit ''sync:'') transport_timeout read_timeout None) (\<lambda>info.
       io_bind (new_filesync FILESYNC_PUSH_FORMAT) (\<lambda>fsi.
       io_then (push_stream H stream dpath st_mode mtime progress info fsi)
         (io_return info))))) (\<lambda>info.
     io_then (dev_clse H info)
       (push_files H ps st_mode mtime progress transport_timeout read_timeout))"

definition dev_push ::
  "('w, 'x) host_scheme \<Rightarrow> 'w stream local_path \<Rightarrow> pystr \<Rightarrow> int \<Rightarrow> int \<Rightarrow> 'w progress option \<Rightarrow>
     rat option \<Rightarrow> rat \<Rightarrow> ('w adb_device, unit) prog" where
  "dev_push H local_path device_path st_mode mtime progress transport_timeout read_timeout =
     (if device_path = [] then io_raise DevicePathInvalidError
      else require_available
        (io_bind (on_world (get_files_to_push H local_path device_path))
          (\<lambda>(is_dir, local_paths, device_paths).
             io_then
               (if is_dir
                then io_then (shell H (str_lit ''mkdir '' @ device_path) transport_timeout
                                read_timeout None True) (io_return ())
                else io_return ())
               (push_files H (zip local_paths device_paths) st_mode mtime progress
                  transport_timeout read_timeout))))"

end
