(* ===== verification/Device_Invariant.thy ===== *)
theory Device_Invariant
  imports File_Sync IO_Manager_Spec
begin

text \<open>
  The invariant of a device: its packet store is well-formed and its last local id is a
  32-bit number. Every operation of \<open>AdbDevice\<close> keeps it, however it ends, on every
  transport, provided the caller's callbacks and loop bodies do.
\<close>


definition device_ok :: "'w adb_device \<Rightarrow> bool" where
  "device_ok d \<longleftrightarrow> manager_ok (io_manager d) \<and> 0 \<le> dev_local_id d \<and> dev_local_id d < 2 ^ 32"

lemma on_io_keeps [keeps_intros]: "keeps manager_ok p \<Longrightarrow> keeps device_ok (on_io p)"
  unfolding keeps_def on_io_def wp_zoom device_ok_def by (auto elim!: wp_mono)

lemma on_world_keeps [keeps_intros]: "keeps device_ok (on_world p)"
  unfolding on_world_def by (intro keeps_intros)

section \<open>Connections, streams and services\<close>

lemma next_local_id_range: "0 \<le> i \<Longrightarrow> i < 2 ^ 32 \<Longrightarrow> 1 \<le> next_local_id i \<and> next_local_id i < 2 ^ 32"
  by (auto simp: next_local_id_def)

lemma close_dev_keeps [keeps_intros]: "keeps device_ok (dev_close H)"
  unfolding dev_close_def by (intro keeps_intros) (simp add: device_ok_def)

lemma dev_connect_keeps [keeps_intros]:
  assumes "\<forall>p. cb = Some p \<longrightarrow> keeps manager_ok p"
  shows "keeps device_ok (dev_connect H x509 ks tt aut rt cb pem)"
  unfolding dev_connect_def ensure_banner_def
  by (intro keeps_intros assms) (simp_all add: device_ok_def)

lemma open_keeps [keeps_intros]: "keeps device_ok (dev_open H dest tt rt t)"
  unfolding dev_open_def
  by (intro keeps_intros) (use next_local_id_range in \<open>fastforce simp: device_ok_def\<close>)

lemma stream_keeps [keeps_intros]:
  "keeps device_ok (dev_okay H info)" "keeps device_ok (read_until H cmds info)"
  "keeps device_ok (dev_clse H info)"
  unfolding dev_okay_def read_until_def dev_clse_def by (intro keeps_intros)+

lemma read_until_close_keeps [keeps_intros]:
  "(\<And>d a. keeps device_ok (body d a)) \<Longrightarrow> keeps device_ok (read_until_close H info body acc)"
  unfolding read_until_close_def read_until_close_body_def by (intro keeps_intros)

lemma streaming_command_keeps [keeps_intros]:
  "(\<And>d a. keeps device_ok (body d a)) \<Longrightarrow> keeps device_ok (streaming_command H s c tt rt t body acc)"
  unfolding streaming_command_def by (intro keeps_intros)

lemma require_available_keeps [keeps_intros]: "keeps device_ok p \<Longrightarrow> keeps device_ok (require_available p)"
  unfolding require_available_def by (intro keeps_intros)

lemma service_keeps [keeps_intros]: "keeps device_ok (dev_service H s c tt rt t dec)"
  unfolding dev_service_def by (intro keeps_intros)

lemma shell_keeps [keeps_intros]: "keeps device_ok (shell H c tt rt t dec)"
  unfolding shell_def by (intro keeps_intros)

lemma services_keep:
  "keeps device_ok (exec_out H c tt rt t dec)" "keeps device_ok (reboot H fb tt rt t)"
  "keeps device_ok (root H tt rt t)"
  unfolding exec_out_def reboot_def root_def by (intro keeps_intros)+

lemma streaming_shell_keeps:
  "(\<And>l a. keeps device_ok (body l a)) \<Longrightarrow> keeps device_ok (streaming_shell H c tt rt dec body acc)"
  unfolding streaming_shell_def streaming_service_def by (intro keeps_intros)

section \<open>File operations\<close>
lemma flush_keeps [keeps_intros]: "keeps device_ok (filesync_flush H info fsi)"
  unfolding filesync_flush_def by (intro keeps_intros)

lemma filesync_send_keeps [keeps_intros]: "keeps device_ok (filesync_send H c info fsi d n)"
  unfolding filesync_send_def by (intro keeps_intros)

lemma filesync_read_keeps [keeps_intros]: "keeps device_ok (filesync_read H ids info fsi)"
  unfolding filesync_read_def filesync_read_buffered_def read_buffered_body_def by (intro keeps_intros)

lemma filesync_for_keeps [keeps_intros]:
  "(\<And>p a. keeps device_ok (body p a)) \<Longrightarrow> keeps device_ok (filesync_for H e f info body fsi acc)"
  unfolding filesync_for_def filesync_for_body_def by (intro keeps_intros)


lemma list_keeps: "keeps device_ok (dev_list H path tt rt)"
  unfolding dev_list_def list_body_def new_filesync_def by (intro keeps_intros)

lemma stat_keeps [keeps_intros]: "keeps device_ok (dev_stat H path tt rt)"
  unfolding dev_stat_def new_filesync_def by (intro keeps_intros)

lemma progress_keeps [keeps_intros]:
  assumes "\<forall>f p n t. cb = Some f \<longrightarrow> keeps device_ok (f p n t)"
  shows "keeps device_ok (call_progress cb p n t)"
  unfolding call_progress_def using assms by (cases cb) (auto intro!: keeps_intros)

lemma with_stream_keeps [keeps_intros]:
  "(\<And>s. keeps device_ok (body s)) \<Longrightarrow> keeps device_ok (with_stream opener path body)"
  unfolding with_stream_def by (cases path) (auto intro!: keeps_intros)

lemma pull_keeps:
  assumes "\<forall>f p n t. cb = Some f \<longrightarrow> keeps device_ok (f p n t)"
  shows "keeps device_ok (dev_pull H path local cb tt rt)"
  unfolding dev_pull_def pull_data_def pull_body_def new_filesync_def
  by (intro keeps_intros assms)

lemma push_stream_keeps [keeps_intros]:
  assumes "\<forall>f p n t. cb = Some f \<longrightarrow> keeps device_ok (f p n t)"
  shows "keeps device_ok (push_stream H s path mode mtime cb info fsi)"
  unfolding push_stream_def push_chunks_def push_chunks_body_def push_mtime_def push_reply_def
  by (intro keeps_intros assms)

lemma push_files_keeps [keeps_intros]:
  assumes "\<forall>f p n t. cb = Some f \<longrightarrow> keeps device_ok (f p n t)"
  shows "keeps device_ok (push_files H ps mode mtime cb tt rt)"
  by (induction ps) (auto intro!: keeps_intros assms simp: new_filesync_def)

lemma push_keeps:
  assumes "\<forall>f p n t. cb = Some f \<longrightarrow> keeps device_ok (f p n t)"
  shows "keeps device_ok (dev_push H local path mode mtime cb tt rt)"
  unfolding dev_push_def by (intro keeps_intros assms)

section \<open>What the transport's calls keep, the stream operations keep\<close>

definition of_world :: "('w \<Rightarrow> bool) \<Rightarrow> 'w adb_device \<Rightarrow> bool" where
  "of_world W d = W (transport_state (io_manager d))"

lemma of_world_io: "keeps (of_transport W) p \<Longrightarrow> keeps (of_world W) (on_io p)"
  unfolding keeps_def on_io_def wp_zoom of_world_def of_transport_def by (auto elim!: wp_mono)

lemma of_world_call: "keeps W p \<Longrightarrow> keeps (of_world W) (on_world p)"
  unfolding on_world_def by (intro of_world_io of_transport_call)

lemma of_world_modify:
  "(\<And>d. io_manager (f d) = io_manager d) \<Longrightarrow> keeps (of_world W) (io_modify f)"
  by (rule keeps_modify) (simp add: of_world_def)

lemma stream_world:
  assumes "calls_keep H W"
  shows "keeps (of_world W) (dev_okay H info)" "keeps (of_world W) (read_until H cmds info)"
    "keeps (of_world W) (dev_clse H info)" "keeps (of_world W) (dev_open H dest tt rt t)"
  unfolding dev_okay_def read_until_def dev_clse_def dev_open_def
  by (intro keeps_intros of_world_io of_world_modify io_read_world [OF assms] send_new_world [OF assms]; simp)+

lemma filesync_world:
  assumes "calls_keep H W"
  shows "keeps (of_world W) (filesync_flush H info fsi)"
    "keeps (of_world W) (filesync_send H c info fsi x n)"
    "keeps (of_world W) (filesync_read H ids info fsi)"
  unfolding filesync_send_def filesync_read_def filesync_read_buffered_def read_buffered_body_def
    filesync_flush_def
  by (intro keeps_intros of_world_io send_new_world [OF assms] stream_world [OF assms])+

end
