(* ===== verification/Conversation.thy ===== *)
theory Conversation
  imports IO_Manager_Spec
begin

text \<open>
  Conversations: what a run of operations sends and which packets it receives, as a list of
  events. The relation \<open>conversation\<close> ties the events to the bytes on the wire and to the
  packet store; the specifications of streams, services and file transfers are stated by
  the lists of events they allow.
\<close>

section \<open>Events\<close>

text \<open>
  A received packet comes with the settings of the transaction that asked for it.
\<close>

datatype event = Sent packet | Recv transaction_info packet

inductive conversation ::
  "('w \<Rightarrow> bytes) \<Rightarrow> ('w \<Rightarrow> bytes) \<Rightarrow> 'w io_manager \<Rightarrow> event list \<Rightarrow> 'w io_manager \<Rightarrow> bool"
  for inp out m where
  start: "conversation inp out m [] m"
| send: "conversation inp out m es m1 \<Longrightarrow> is_frame p f \<Longrightarrow> bytes_written inp out f m1 m2 \<Longrightarrow>
    conversation inp out m (es @ [Sent p]) m2"
| recv: "conversation inp out m es m1 \<Longrightarrow> packet_found inp out cmds info z p m1 m2 \<Longrightarrow>
    conversation inp out m (es @ [Recv info p]) m2"
| idle: "conversation inp out m es m1 \<Longrightarrow> bytes_written inp out [] m1 m2 \<Longrightarrow>
    conversation inp out m es m2"

fun sent_packets :: "event list \<Rightarrow> packet list" where
  "sent_packets [] = []"
| "sent_packets (Sent p # es) = p # sent_packets es"
| "sent_packets (Recv _ _ # es) = sent_packets es"

lemma sent_packets_append [simp]: "sent_packets (es @ fs) = sent_packets es @ sent_packets fs"
  by (induction es rule: sent_packets.induct) auto

fun recv_packets :: "event list \<Rightarrow> packet list" where
  "recv_packets [] = []"
| "recv_packets (Sent _ # es) = recv_packets es"
| "recv_packets (Recv _ p # es) = p # recv_packets es"

lemma recv_packets_append [simp]: "recv_packets (es @ fs) = recv_packets es @ recv_packets fs"
  by (induction es rule: recv_packets.induct) auto

text \<open>What reaches the device is exactly the frames of the packets sent, in order.\<close>

lemma conversation_output:
  assumes "conversation inp out m es m'"
  shows "\<exists>fs. are_frames (sent_packets es) fs \<and> out (transport_state m') = out (transport_state m) @ fs"
  using assms
proof induction
  case (send es m1 p f m2)
  then obtain fs where "are_frames (sent_packets es) fs" "out (transport_state m1) = out (transport_state m) @ fs"
    by blast
  with send show ?case
    by (intro exI [of _ "fs @ f"]) (auto simp: are_frames_append bytes_written_def simp del: are_frames.simps)
next
  case (recv es m1 cmds info z p m2)
  then show ?case by (auto simp: packet_found_def)
next
  case (idle es m1 m2)
  then show ?case by (simp add: bytes_written_def)
qed simp

text \<open>Whole packets are taken from the wire, and nothing of the other streams is lost.\<close>

definition unclaimed :: "event list \<Rightarrow> int \<times> int \<Rightarrow> bool" where
  "unclaimed es k \<longleftrightarrow> (\<forall>info p. Recv info p \<in> set es \<longrightarrow> \<not> claims info True k)"

lemma claims_weaken: "claims info z k \<Longrightarrow> claims info True k"
  by (auto simp: claims_def matches_zero_def split: if_splits)

lemma stream_puts_append: "stream_puts (ps @ qs) k q = stream_puts qs k (stream_puts ps k q)"
  by (simp add: stream_puts_def)

lemma packet_found_wire:
  assumes "packet_found inp out cmds info z p m m'"
  shows "\<exists>ps fs. are_frames ps fs \<and> inp (transport_state m) = fs @ inp (transport_state m') \<and>
    store_after info z ps (packet_store m) (packet_store m')"
  using assms unfolding packet_found_def by (metis are_frames.simps(1) append_Nil)

lemma conversation_input:
  assumes "conversation inp out m es m'" and "store_ok (packet_store m)"
  shows "store_ok (packet_store m') \<and>
    (\<exists>ps fs. are_frames ps fs \<and> inp (transport_state m) = fs @ inp (transport_state m') \<and>
       (\<forall>k. unclaimed es k \<longrightarrow> store_abs (packet_store m') k = stream_puts ps k (store_abs (packet_store m) k)))"
  using assms
proof induction
  case start
  then show ?case by (auto intro!: exI [of _ "[]"])
next
  case (send es m1 p f m2)
  then show ?case by (auto simp: bytes_written_def unclaimed_def)
next
  case (idle es m1 m2)
  then show ?case by (simp add: bytes_written_def)
next
  case (recv es m1 cmds info z p m2)
  then obtain ps fs where 1: "are_frames ps fs" "inp (transport_state m) = fs @ inp (transport_state m1)"
    "\<forall>k. unclaimed es k \<longrightarrow> store_abs (packet_store m1) k = stream_puts ps k (store_abs (packet_store m) k)"
    by blast
  obtain qs gs where 2: "are_frames qs gs" "inp (transport_state m1) = gs @ inp (transport_state m2)"
    "store_after info z qs (packet_store m1) (packet_store m2)"
    using packet_found_wire [OF recv.hyps(2)] by blast
  have "are_frames (ps @ qs) (fs @ gs)" using 1 2 by (auto simp: are_frames_append)
  moreover have "store_abs (packet_store m2) k = stream_puts (ps @ qs) k (store_abs (packet_store m) k)"
    if "unclaimed (es @ [Recv info p]) k" for k
  proof -
    have "unclaimed es k" and "\<not> claims info z k"
      using that claims_weaken [of info z k] unfolding unclaimed_def by fastforce+
    with 1(3) 2(3) show ?thesis
      unfolding store_after_def by (metis stream_puts_append)
  qed
  moreover have "store_ok (packet_store m2)" using 2(3) by (simp add: store_after_def)
  ultimately show ?case using 1(2) 2(2) by (intro conjI exI [of _ "ps @ qs"] exI [of _ "fs @ gs"]) auto
qed

section \<open>The operations of the manager hold conversations\<close>

context full_write_transport
begin

lemma roomy_calls: "calls_keep T roomy"
  using room_read room_time room_write unfolding calls_keep_def keeps_def by (blast intro: wp_mono)

lemma mroomy_eq: "mroomy = of_transport roomy"
  by (intro ext) (simp add: mroomy_def of_transport_def)

lemma mroomy_transport_keeps: "keeps mroomy (on_transport (tr_time T))"
  unfolding mroomy_eq by (rule of_transport_calls(3) [OF roomy_calls])

lemma mroomy_io_read: "keeps mroomy (io_read T cmds info z)"
  unfolding mroomy_eq by (rule io_read_world [OF roomy_calls])

lemma mroomy_read_expected: "keeps mroomy (read_expected_packet_from_device T cmds info)"
  unfolding mroomy_eq by (rule read_expected_world [OF roomy_calls])

text \<open>A state reached from \<open>m0\<close> by the conversation \<open>es\<close>.\<close>

definition reached :: "'a io_manager \<Rightarrow> event list \<Rightarrow> 'a io_manager \<Rightarrow> bool" where
  "reached m0 es m \<longleftrightarrow> conversation inp out m0 es m \<and> mroomy m \<and> store_ok (packet_store m)"

lemma found_store_ok: "found cmds info z p m m' \<Longrightarrow> wanted cmds info z p \<and> store_ok (packet_store m')"
  by (auto simp: found_def store_after_def)

lemma reached_start: "mroomy m \<Longrightarrow> store_ok (packet_store m) \<Longrightarrow> reached m [] m"
  by (simp add: reached_def conversation.start)

lemma reached_time:
  assumes "reached m0 es m"
  shows "wp False (on_transport (tr_time T)) (\<lambda>_ m'. reached m0 es m') (\<lambda>_ _. False) m"
proof -
  have roomy: "mroomy m" using assms by (simp add: reached_def)
  show ?thesis
    by (rule wp_mono [OF wp_conj [OF time_spec keepsD [OF mroomy_transport_keeps roomy]]])
      (use assms in \<open>auto simp: reached_def same_def reads_def writes_def intro: conversation.idle\<close>)
qed

lemma reached_read:
  assumes "reached m0 es m" and "local_id info \<noteq> None"
  shows "wp False (io_read T cmds info z)
    (\<lambda>p m'. wanted cmds info z p \<and> reached m0 (es @ [Recv info p]) m') (\<lambda>_ _. True) m"
proof -
  have m: "mroomy m" "store_ok (packet_store m)" using assms(1) by (auto simp: reached_def)
  show ?thesis
    by (rule wp_mono [OF wp_conj [OF io_read_spec [OF m(2) assms(2)] keepsD [OF mroomy_io_read m(1)]]])
      (use assms in \<open>auto simp: reached_def dest: found_store_ok intro: conversation.recv\<close>)
qed

lemma reached_send:
  assumes "reached m0 es m"
  shows "wp False (send_new T c a0 a1 d info)
    (\<lambda>_ m'. \<exists>x y. a0 = Some x \<and> a1 = Some y \<and> reached m0 (es @ [Sent (c, x, y, d)]) m') (\<lambda>_ _. True) m"
proof -
  have "mroomy m" using assms by (simp add: reached_def)
  from full_send_new [OF this] show ?thesis
    by (rule wp_mono) (use assms in \<open>auto simp: reached_def writes_def intro!: conversation.send\<close>)
qed

end

end
