(* ===== verification/Adb_Device_Spec.thy ===== *)
theory Adb_Device_Spec
  imports Adb_Device Conversation
begin

text \<open>
  What the stream operations and the services of \<open>AdbDevice\<close> send and receive, stated as
  conversations over any host whose writes are not partial.
\<close>

section \<open>The events of a stream\<close>

text \<open>The settings of an opened stream.\<close>

definition opened :: "transaction_info \<Rightarrow> int \<Rightarrow> int \<Rightarrow> bool" where
  "opened info l r \<longleftrightarrow> local_id info = Some l \<and> remote_id info = Some r"

text \<open>The answer to a packet received on an open stream: \<open>OKAY\<close> to \<open>WRTE\<close>, nothing to the others.\<close>

definition acked :: "int \<Rightarrow> int \<Rightarrow> transaction_info \<Rightarrow> packet \<Rightarrow> event list" where
  "acked l r info p = Recv info p # (if fst p = WRTE then [Sent (OKAY, l, r, [])] else [])"

text \<open>Receiving the packets \<open>ps\<close> of a stream, each acknowledged; their payloads.\<close>

definition wrte_events :: "int \<Rightarrow> int \<Rightarrow> transaction_info \<Rightarrow> packet list \<Rightarrow> event list" where
  "wrte_events l r info ps = concat (map (acked l r info) ps)"

definition payloads :: "packet list \<Rightarrow> bytes list" where
  "payloads ps = map (\<lambda>(c, a, b, x). x) ps"

lemma wrte_events_snoc [simp]: "wrte_events l r info (ps @ [p]) = wrte_events l r info ps @ acked l r info p"
  by (simp add: wrte_events_def)

lemma payloads_snoc [simp]: "payloads (ps @ [(c, a, b, x)]) = payloads ps @ [x]"
  by (simp add: payloads_def)

definition all_wrte :: "packet list \<Rightarrow> bool" where
  "all_wrte ps \<longleftrightarrow> (\<forall>p \<in> set ps. fst p = WRTE)"

lemma all_wrte_snoc [simp]: "all_wrte (ps @ [p]) \<longleftrightarrow> all_wrte ps \<and> fst p = WRTE"
  by (auto simp: all_wrte_def)

text \<open>
  The events of a service that is asked for as \<open>dest\<close> on the stream \<open>l\<close>: it is opened, the
  device accepts and names its end of the stream, its \<open>WRTE\<close> packets \<open>ps\<close> are acknowledged,
  and it closes the stream, which is answered.
\<close>

definition is_service :: "int \<Rightarrow> bytes \<Rightarrow> packet list \<Rightarrow> event list \<Rightarrow> bool" where
  "is_service l dest ps es \<longleftrightarrow>
     (\<exists>r info0 info x a b y.
        local_id info0 = Some l \<and> remote_id info0 = None \<and> opened info l r \<and> all_wrte ps \<and>
        es = [Sent (OPEN, l, 0, dest @ [0]), Recv info0 (OKAY, r, l, x)] @ wrte_events l r info ps @
             [Recv info (CLSE, a, b, y), Sent (CLSE, l, r, [])])"

section \<open>The state of a device in a conversation\<close>

lemma wp_on_io:
  "wp t (on_io p) Q E d =
     wp t p (\<lambda>x m. Q x (d\<lparr>io_manager := m\<rparr>)) (\<lambda>e m. E e (d\<lparr>io_manager := m\<rparr>)) (io_manager d)"
  by (simp add: on_io_def wp_zoom)

context device_host
begin

text \<open>Since \<open>d0\<close>, only the manager has changed, by the conversation \<open>es\<close>.\<close>

definition talked :: "'w adb_device \<Rightarrow> event list \<Rightarrow> 'w adb_device \<Rightarrow> bool" where
  "talked d0 es d \<longleftrightarrow>
     reached (io_manager d0) es (io_manager d) \<and> d = d0\<lparr>io_manager := io_manager d\<rparr>"

lemma talkedE:
  assumes "talked d0 es d"
  obtains m where "d = d0\<lparr>io_manager := m\<rparr>" and "reached (io_manager d0) es m"
  using assms unfolding talked_def by (metis (no_types))

lemma talked_iff [simp]: "talked d0 es (d0\<lparr>io_manager := m\<rparr>) = reached (io_manager d0) es m"
  by (simp add: talked_def)

lemma talked_sel:
  assumes "talked d0 es d"
  shows "available d = available d0" "maxdata d = maxdata d0" "dev_local_id d = dev_local_id d0"
    "default_transport_timeout_s d = default_transport_timeout_s d0" "banner d = banner d0"
  by (rule talkedE [OF assms], simp)+

lemma talked_start:
  assumes "mroomy (io_manager d)" and "store_ok (packet_store (io_manager d))"
  shows "talked d [] d"
  using reached_start [OF assms] by (simp add: talked_def)

lemma talked_io:
  assumes d: "talked d0 es d"
    and p: "\<And>m. reached (io_manager d0) es m \<Longrightarrow> wp False p Q (\<lambda>_ _. True) m"
    and Q: "\<And>x m. Q x m \<Longrightarrow> R x (d0\<lparr>io_manager := m\<rparr>)"
  shows "wp False (on_io p) R (\<lambda>_ _. True) d"
proof (rule talkedE [OF d])
  fix m assume "d = d0\<lparr>io_manager := m\<rparr>" and "reached (io_manager d0) es m"
  with p Q show ?thesis by (auto simp: wp_on_io intro: wp_mono)
qed

lemma talked_time:
  assumes "talked d0 es d"
  shows "wp False (on_world (tr_time H)) (\<lambda>_ d'. talked d0 es d') (\<lambda>_ _. True) d"
  unfolding on_world_def
  by (rule talked_io [OF assms]) (auto intro: wp_mono [OF reached_time])

lemma talked_send:
  assumes "talked d0 es d"
  shows "wp False (on_io (send_new H c a0 a1 x info))
    (\<lambda>_ d'. \<exists>i j. a0 = Some i \<and> a1 = Some j \<and> talked d0 (es @ [Sent (c, i, j, x)]) d') (\<lambda>_ _. True) d"
  by (rule talked_io [OF assms reached_send]) auto

lemma talked_read:
  assumes "talked d0 es d" and "local_id info \<noteq> None"
  shows "wp False (on_io (io_read H cmds info z))
    (\<lambda>p d'. wanted cmds info z p \<and> talked d0 (es @ [Recv info p]) d') (\<lambda>_ _. True) d"
  by (rule talked_io [OF assms(1) reached_read [OF _ assms(2)]]) auto

section \<open>Streams\<close>

lemma open_spec:
  assumes "talked d0 es d"
  defines "l \<equiv> next_local_id (dev_local_id d0)"
  shows "wp False (dev_open H dest tt rt t)
    (\<lambda>info d'. \<exists>r x info0. opened info l r \<and> timeout_s info = t \<and> local_id info0 = Some l \<and> remote_id info0 = None \<and>
       talked (d0\<lparr>dev_local_id := l\<rparr>)
         (es @ [Sent (OPEN, l, 0, dest @ [0]), Recv info0 (OKAY, r, l, x)]) d')
    (\<lambda>_ _. True) d"
proof (rule talkedE [OF assms(1)])
  fix m assume d: "d = d0\<lparr>io_manager := m\<rparr>" and m: "reached (io_manager d0) es m"
  let ?d = "d0\<lparr>io_manager := m, dev_local_id := l\<rparr>"
  have t: "talked (d0\<lparr>dev_local_id := l\<rparr>) es (d0\<lparr>io_manager := m, dev_local_id := l\<rparr>)"
    using m by (simp add: talked_def)
  let ?i = "AdbTransactionInfo (Some l) None (get_transport_timeout_s tt ?d) rt t"
  let ?post = "\<lambda>r d'. \<exists>x info0. local_id info0 = Some l \<and> remote_id info0 = None \<and>
      talked (d0\<lparr>dev_local_id := l\<rparr>) (es @ [Sent (OPEN, l, 0, dest @ [0]), Recv info0 (OKAY, r, l, x)]) d'"
  have rd: "wp False (on_io (io_read H [OKAY] ?i False)) (\<lambda>p. ?post (fst (snd p))) (\<lambda>_ _. True) d1"
    if d1: "talked (d0\<lparr>dev_local_id := l\<rparr>) (es @ [Sent (OPEN, l, 0, dest @ [0])]) d1" for d1
    by (rule wp_mono [OF talked_read [OF d1]]) (auto simp: wanted_def args_match_def intro!: exI [of _ ?i])
  show ?thesis
    unfolding dev_open_def d using t
    by (auto simp: wp_bind wp_modify wp_gets l_def [symmetric] wp_return wp_case_prod opened_def
      intro!: wp_mono [OF talked_send] wp_mono [OF rd] split: prod.splits) blast
qed

lemma okay_spec:
  assumes "talked d0 es d" and "opened info l r"
  shows "wp False (dev_okay H info) (\<lambda>_ d'. talked d0 (es @ [Sent (OKAY, l, r, [])]) d') (\<lambda>_ _. True) d"
  unfolding dev_okay_def by (rule wp_mono [OF talked_send [OF assms(1)]]) (use assms(2) in \<open>auto simp: opened_def\<close>)

lemma read_until_spec:
  assumes "talked d0 es d" and o: "opened info l r"
  shows "wp False (read_until H cmds info)
    (\<lambda>(c, x) d'. \<exists>a b. wanted cmds info True (c, a, b, x) \<and> talked d0 (es @ acked l r info (c, a, b, x)) d')
    (\<lambda>_ _. True) d"
  unfolding read_until_def wp_bind
proof (rule wp_mono [OF talked_read [OF assms(1)]])
  fix p d1
  assume p: "wanted cmds info True p \<and> talked d0 (es @ [Recv info p]) d1"
  obtain c a b x where eq: "p = (c, a, b, x)" by (cases p)
  have "wp False (dev_okay H info) (\<lambda>_ d'. talked d0 (es @ [Recv info p, Sent (OKAY, l, r, [])]) d')
      (\<lambda>_ _. True) d1"
    using okay_spec [OF conjunct2 [OF p] o] by simp
  with p show "wp False (case p of (cmd, _, _, data) \<Rightarrow>
        if cmd = WRTE then io_then (dev_okay H info) (io_return (cmd, data)) else io_return (cmd, data))
      (\<lambda>(c, x) d'. \<exists>a b. wanted cmds info True (c, a, b, x) \<and> talked d0 (es @ acked l r info (c, a, b, x)) d')
      (\<lambda>_ _. True) d1"
    by (auto simp: eq wp_bind wp_return acked_def elim!: wp_mono) blast
qed (use o in \<open>auto simp: opened_def\<close>)

lemma clse_spec:
  assumes "talked d0 es d" and o: "opened info l r"
  shows "wp False (dev_clse H info)
    (\<lambda>_ d'. \<exists>a b x. talked d0 (es @ [Sent (CLSE, l, r, []), Recv info (CLSE, a, b, x)]) d')
    (\<lambda>_ _. True) d"
  unfolding dev_clse_def wp_bind
proof (rule wp_mono [OF talked_send [OF assms(1)]])
  fix u d1
  assume "\<exists>i j. local_id info = Some i \<and> remote_id info = Some j \<and> talked d0 (es @ [Sent (CLSE, i, j, [])]) d1"
  with o have "talked d0 (es @ [Sent (CLSE, l, r, [])]) d1" by (simp add: opened_def)
  from read_until_spec [OF this o, of "[CLSE]"]
  show "wp False (read_until H [CLSE] info)
      (\<lambda>_. wp False (io_return ())
         (\<lambda>_ d'. \<exists>a b x. talked d0 (es @ [Sent (CLSE, l, r, []), Recv info (CLSE, a, b, x)]) d') (\<lambda>_ _. True))
      (\<lambda>_ _. True) d1"
    by (rule wp_mono) (auto simp: wp_return wanted_def acked_def, blast)
qed simp

text \<open>
  Reading a stream until it is closed: each \<open>WRTE\<close> is acknowledged, the \<open>CLSE\<close> is
  answered, and the consumer gets the payloads in order.
\<close>

lemma read_until_close_spec:
  fixes f :: "bytes \<Rightarrow> 'a \<Rightarrow> 'a"
  assumes d: "talked d0 es d" and o: "opened info l r"
  defines "body \<equiv> \<lambda>x acc. io_return (f x acc)"
  shows "wp False (read_until_close H info body acc)
    (\<lambda>res d'. \<exists>ps a b x. all_wrte ps \<and> res = fold f (payloads ps) acc \<and>
       talked d0 (es @ wrte_events l r info ps @ [Recv info (CLSE, a, b, x), Sent (CLSE, l, r, [])]) d')
    (\<lambda>_ _. True) d"
  (is "wp False _ ?Q _ d")
proof -
  define I where "I = (\<lambda>acc' d'. \<exists>ps. all_wrte ps \<and> acc' = fold f (payloads ps) acc \<and>
    talked d0 (es @ wrte_events l r info ps) d')"
  have step: "wp False (read_until_close_body H info start body acc') (loop_post I ?Q) (\<lambda>_ _. True) d1"
    if "I acc' d1" for start acc' d1
  proof -
    obtain ps where ps: "all_wrte ps" "acc' = fold f (payloads ps) acc"
      "talked d0 (es @ wrte_events l r info ps) d1"
      using \<open>I acc' d1\<close> by (auto simp: I_def)
    show ?thesis
      unfolding read_until_close_body_def wp_bind
    proof (rule wp_mono [OF read_until_spec [OF ps(3) o]], clarify)
      fix c x d2 a b
      assume w: "wanted [CLSE, WRTE] info True (c, a, b, x)"
        and t: "talked d0 ((es @ wrte_events l r info ps) @ acked l r info (c, a, b, x)) d2"
      show "wp False (if c = CLSE
            then io_then (on_io (send_new H CLSE (local_id info) (remote_id info) [] info)) (io_return (Break acc'))
            else io_bind (body x acc') (\<lambda>acc'. case timeout_s info of
                None \<Rightarrow> io_return (Continue acc')
              | Some t \<Rightarrow> io_bind (on_world (tr_time H)) (\<lambda>now.
                  if now - start > t then io_raise AdbTimeoutError else io_return (Continue acc'))))
          (loop_post I ?Q) (\<lambda>_ _. True) d2"
      proof (cases "c = CLSE")
        case True
        then have "talked d0 (es @ wrte_events l r info ps @ [Recv info (CLSE, a, b, x)]) d2"
          using t by (simp add: acked_def)
        from talked_send [OF this, of CLSE "local_id info" "remote_id info" "[]" info] True o ps
        show ?thesis by (auto simp: wp_bind wp_return opened_def elim!: wp_mono) blast
      next
        case False
        then have c: "c = WRTE" using w by (auto simp: wanted_def)
        have "I (f x acc') d3" if "talked d0 ((es @ wrte_events l r info ps) @ acked l r info (c, a, b, x)) d3" for d3
          unfolding I_def using that ps c by (intro exI [of _ "ps @ [(c, a, b, x)]"]) simp
        with False t show ?thesis
          by (auto simp: body_def wp_return wp_bind wp_if wp_raise split: option.split
            intro!: wp_mono [OF talked_time])
      qed
    qed
  qed
  show ?thesis
    unfolding read_until_close_def wp_bind
  proof (rule wp_mono [OF talked_time [OF d]])
    fix start d1 assume "talked d0 es d1"
    then have "I acc d1"
      by (auto simp: I_def all_wrte_def payloads_def wrte_events_def intro!: exI [of _ "[]"])
    then show "wp False (io_loop (read_until_close_body H info start body) acc) ?Q (\<lambda>_ _. True) d1"
      by (intro loop_partial [where I = I, OF step])
  qed simp
qed

section \<open>Services\<close>

lemma fold_append: "fold (\<lambda>x acc. acc @ x) xs acc = acc @ concat xs"
  by (induction xs arbitrary: acc) auto

lemma streaming_command_spec:
  fixes f :: "bytes \<Rightarrow> 'a \<Rightarrow> 'a"
  assumes d: "talked d0 es d"
  defines "l \<equiv> next_local_id (dev_local_id d0)"
  shows "wp False (streaming_command H s c tt rt t (\<lambda>x acc. io_return (f x acc)) acc)
    (\<lambda>res d'. \<exists>ps es'. is_service l (s @ bytes_lit '':'' @ c) ps es' \<and> res = fold f (payloads ps) acc \<and>
       talked (d0\<lparr>dev_local_id := l\<rparr>) (es @ es') d')
    (\<lambda>_ _. True) d"
  unfolding streaming_command_def wp_bind
proof (rule wp_mono [OF open_spec [OF d, folded l_def]])
  fix info d1
  assume "\<exists>r x info0. opened info l r \<and> timeout_s info = t \<and> local_id info0 = Some l \<and>
    remote_id info0 = None \<and> talked (d0\<lparr>dev_local_id := l\<rparr>)
      (es @ [Sent (OPEN, l, 0, (s @ bytes_lit '':'' @ c) @ [0]), Recv info0 (OKAY, r, l, x)]) d1"
  then obtain r x info0 where o: "opened info l r" and i: "local_id info0 = Some l" "remote_id info0 = None"
    and t: "talked (d0\<lparr>dev_local_id := l\<rparr>)
      (es @ [Sent (OPEN, l, 0, (s @ bytes_lit '':'' @ c) @ [0]), Recv info0 (OKAY, r, l, x)]) d1" by blast
  show "wp False (read_until_close H info (\<lambda>x acc. io_return (f x acc)) acc)
      (\<lambda>res d'. \<exists>ps es'. is_service l (s @ bytes_lit '':'' @ c) ps es' \<and> res = fold f (payloads ps) acc \<and>
         talked (d0\<lparr>dev_local_id := l\<rparr>) (es @ es') d') (\<lambda>_ _. True) d1"
  proof (rule wp_mono [OF read_until_close_spec [OF t o]], elim exE conjE)
    fix res d2 ps a b y
    assume "all_wrte ps" "res = fold f (payloads ps) acc" "talked (d0\<lparr>dev_local_id := l\<rparr>)
        ((es @ [Sent (OPEN, l, 0, (s @ bytes_lit '':'' @ c) @ [0]), Recv info0 (OKAY, r, l, x)]) @
         wrte_events l r info ps @ [Recv info (CLSE, a, b, y), Sent (CLSE, l, r, [])]) d2"
    with o i show "\<exists>ps es'. is_service l (s @ bytes_lit '':'' @ c) ps es' \<and>
        res = fold f (payloads ps) acc \<and> talked (d0\<lparr>dev_local_id := l\<rparr>) (es @ es') d2"
      unfolding is_service_def by (intro exI [of _ ps] exI conjI) auto
  qed simp
qed simp

lemma service_spec:
  assumes "talked d0 es d"
  defines "l \<equiv> next_local_id (dev_local_id d0)"
  shows "wp False (dev_service H s c tt rt t dec)
    (\<lambda>res d'. \<exists>ps es'. is_service l (s @ bytes_lit '':'' @ c) ps es' \<and>
       res = decode_output dec (concat (payloads ps)) \<and> talked (d0\<lparr>dev_local_id := l\<rparr>) (es @ es') d')
    (\<lambda>_ _. True) d"
  unfolding dev_service_def wp_bind
  by (rule wp_mono [OF streaming_command_spec [OF assms(1)]]) (auto simp: wp_return fold_append l_def)

lemma shell_spec:
  assumes "talked d0 es d"
  defines "l \<equiv> next_local_id (dev_local_id d0)"
  shows "wp False (shell H command tt rt t dec)
    (\<lambda>res d'. \<exists>c ps es'. utf8_encode command = Inr c \<and> is_service l (bytes_lit ''shell:'' @ c) ps es' \<and>
       res = decode_output dec (concat (payloads ps)) \<and> talked (d0\<lparr>dev_local_id := l\<rparr>) (es @ es') d')
    (\<lambda>_ _. True) d"
proof -
  have eq: "bytes_lit ''shell'' @ bytes_lit '':'' @ c = bytes_lit ''shell:'' @ c" for c
    by (simp add: bytes_lit_def)
  show ?thesis
    unfolding shell_def require_available_def wp_bind wp_gets
    by (auto simp: wp_raise wp_bind wp_lift l_def eq [symmetric] simp del: append_assoc
        intro!: wp_mono [OF service_spec [OF assms(1)]] split: sum.split)
qed

end

end
