(* ===== verification/File_Sync_Spec.thy ===== *)
theory File_Sync_Spec
  imports Device_Invariant Adb_Device_Spec
begin

text \<open>
  The FileSync protocol as two byte streams inside the \<open>WRTE\<close> packets of an ADB stream: what
  is sent is the concatenation of the FileSync packets passed to \<open>_filesync_send\<close>, however
  they are split by the send buffer, and what is received is parsed in order, however the
  device split it.
\<close>

section \<open>The two byte streams of a conversation\<close>

fun wrte_out :: "event list \<Rightarrow> bytes" where
  "wrte_out [] = []"
| "wrte_out (Sent (c, a, b, x) # es) = (if c = WRTE then x else []) @ wrte_out es"
| "wrte_out (Recv _ _ # es) = wrte_out es"

fun wrte_in :: "event list \<Rightarrow> bytes" where
  "wrte_in [] = []"
| "wrte_in (Recv _ (c, a, b, x) # es) = (if c = WRTE then x else []) @ wrte_in es"
| "wrte_in (Sent _ # es) = wrte_in es"

lemma wrte_out_append [simp]: "wrte_out (es @ fs) = wrte_out es @ wrte_out fs"
  by (induction es rule: wrte_out.induct) auto

lemma wrte_in_append [simp]: "wrte_in (es @ fs) = wrte_in es @ wrte_in fs"
  by (induction es rule: wrte_in.induct) auto

lemma wrte_acked [simp]:
  "wrte_out (acked l r info p) = []"
  "wrte_in (acked l r info (c, a, b, x)) = (if c = WRTE then x else [])"
  by (auto simp: acked_def)

section \<open>The send buffer\<close>

definition fsi_ok :: "filesync_info \<Rightarrow> bool" where
  "fsi_ok fsi \<longleftrightarrow> send_idx fsi \<le> length (send_buffer fsi)"

text \<open>The bytes that have been buffered and not sent.\<close>

definition pending_out :: "filesync_info \<Rightarrow> bytes" where
  "pending_out fsi = take (send_idx fsi) (send_buffer fsi)"

lemma slice_assign_take:
  assumes "i \<le> length b"
  shows "take (i + length buf) (slice_assign i buf b) = take i b @ buf"
    and "i + length buf \<le> length (slice_assign i buf b)"
  using assms by (simp_all add: slice_assign_def)

lemma buffer_packet_pending:
  assumes "fsi_ok fsi"
  shows "fsi_ok (buffer_packet buf fsi)" and "pending_out (buffer_packet buf fsi) = pending_out fsi @ buf"
    and "recv_buffer (buffer_packet buf fsi) = recv_buffer fsi"
    and "recv_message_format (buffer_packet buf fsi) = recv_message_format fsi"
    and "recv_message_size (buffer_packet buf fsi) = recv_message_size fsi"
    and "fs_maxdata (buffer_packet buf fsi) = fs_maxdata fsi"
  using assms slice_assign_take
  by (simp_all add: fsi_ok_def pending_out_def buffer_packet_def)

text \<open>A FileSync packet as the host sends it.\<close>

definition sync_packet :: "cmd \<Rightarrow> int \<Rightarrow> bytes \<Rightarrow> bytes" where
  "sync_packet c sz bs = le_bytes 4 (cmd_wire c) @ le_bytes 4 sz @ bs"

lemma length_sync_packet [simp]: "length (sync_packet c n bs) = 8 + length bs"
  by (simp add: sync_packet_def)

lemma struct_pack_two:
  "struct_pack [Some w, Some s] = Inr hdr \<longleftrightarrow> u32_range w \<and> u32_range s \<and> hdr = le_bytes 4 w @ le_bytes 4 s"
  by (auto simp: pack_uint_eq_Inr u32_range_def e_bind_eq_Inr)

text \<open>What the receive side has in common before and after.\<close>

definition same_recv :: "filesync_info \<Rightarrow> filesync_info \<Rightarrow> bool" where
  "same_recv fsi fsi' \<longleftrightarrow> recv_buffer fsi' = recv_buffer fsi \<and>
     recv_message_format fsi' = recv_message_format fsi \<and>
     recv_message_size fsi' = recv_message_size fsi \<and> fs_maxdata fsi' = fs_maxdata fsi"

text \<open>
  \<open>bs\<close> is the FileSync packet \<open>p\<close> as the device sends it with headers of \<open>fmt\<close> words: the
  identifier, the fields, and (but for \<open>STAT\<close>) the length of the data that follow.
\<close>

definition sync_frame :: "fs_format \<Rightarrow> fs_packet \<Rightarrow> bytes \<Rightarrow> bool" where
  "sync_frame fmt p bs \<longleftrightarrow>
     (\<exists>hdr header data. bs = hdr @ data \<and> struct_unpack fmt hdr = Inr header \<and>
        FILESYNC_WIRE_TO_ID (hd header) = Some (fst p) \<and>
        (if fst p = STAT then data = [] \<and> snd p = (tl header, None)
         else length data = nat (last header) \<and> snd p = (butlast (tl header), Some data)))"

text \<open>
  What is left in the two buffers after a FileSync packet has been received: everything
  that was pending has been sent.
\<close>

definition flushed :: "filesync_info \<Rightarrow> filesync_info \<Rightarrow> bool" where
  "flushed fsi fsi' \<longleftrightarrow> fsi_ok fsi' \<and> send_idx fsi' = 0 \<and> recv_message_format fsi' = recv_message_format fsi \<and>
     recv_message_size fsi' = recv_message_size fsi \<and> fs_maxdata fsi' = fs_maxdata fsi"

context device_host
begin

lemma flush_spec:
  assumes "talked d0 es d" and o: "opened info l r"
  shows "wp False (filesync_flush H info fsi)
    (\<lambda>fsi' d'. fsi' = fsi\<lparr>send_idx := 0\<rparr> \<and> (\<exists>a b x.
       talked d0 (es @ [Sent (WRTE, l, r, pending_out fsi), Recv info (OKAY, a, b, x)]) d'))
    (\<lambda>_ _. True) d"
  unfolding filesync_flush_def wp_bind pending_out_def [symmetric]
proof (rule wp_mono [OF talked_send [OF assms(1)]])
  fix u d1
  assume "\<exists>i j. local_id info = Some i \<and> remote_id info = Some j \<and>
    talked d0 (es @ [Sent (WRTE, i, j, pending_out fsi)]) d1"
  then have "talked d0 (es @ [Sent (WRTE, l, r, pending_out fsi)]) d1"
    using o by (simp add: opened_def)
  from read_until_spec [OF this o, of "[OKAY]"]
  show "wp False (read_until H [OKAY] info) (\<lambda>_. wp False (io_return (fsi\<lparr>send_idx := 0\<rparr>))
      (\<lambda>fsi' d'. fsi' = fsi\<lparr>send_idx := 0\<rparr> \<and> (\<exists>a b x.
         talked d0 (es @ [Sent (WRTE, l, r, pending_out fsi), Recv info (OKAY, a, b, x)]) d'))
      (\<lambda>_ _. True)) (\<lambda>_ _. True) d1"
    by (rule wp_mono) (auto simp: wp_return wanted_def acked_def, blast)
qed simp

text \<open>Sending appends one packet to the stream of bytes sent and buffered.\<close>

lemma filesync_send_spec:
  assumes t: "talked d0 es d" and o: "opened info l r" and ok: "fsi_ok fsi"
  shows "wp False (filesync_send H c info fsi data osize)
    (\<lambda>fsi' d'. \<exists>bs sz es'. data_bytes data = Inr bs \<and>
       sz = (case osize of None \<Rightarrow> int (length bs) | Some n \<Rightarrow> n) \<and> u32_range sz \<and>
       wrte_out es' @ pending_out fsi' = pending_out fsi @ sync_packet c sz bs \<and>
       wrte_in es' = [] \<and> fsi_ok fsi' \<and> same_recv fsi fsi' \<and> talked d0 (es @ es') d')
    (\<lambda>_ _. True) d"
  (is "wp False _ ?Q _ d")
proof (cases "data_bytes data")
  case (Inl e)
  then show ?thesis by (simp add: filesync_send_def wp_simps)
next
  case (Inr bs)
  define sz where "sz = (case osize of None \<Rightarrow> int (length bs) | Some n \<Rightarrow> n)"
  let ?R = "\<lambda>fsi' d'. \<exists>es'. u32_range sz \<and>
    wrte_out es' @ pending_out fsi' = pending_out fsi @ sync_packet c sz bs \<and>
    wrte_in es' = [] \<and> fsi_ok fsi' \<and> same_recv fsi fsi' \<and> talked d0 (es @ es') d'"
  let ?P = "\<lambda>fsi1 d1. \<exists>es'. wrte_out es' @ pending_out fsi1 = pending_out fsi \<and> wrte_in es' = [] \<and>
    fsi_ok fsi1 \<and> same_recv fsi fsi1 \<and> talked d0 (es @ es') d1"
  have flush: "wp False (if \<not> can_add_to_send_buffer fsi (length bs) then filesync_flush H info fsi
      else io_return fsi) ?P (\<lambda>_ _. True) d"
  proof (cases "can_add_to_send_buffer fsi (length bs)")
    case True
    with t ok show ?thesis by (auto simp: wp_return same_recv_def intro!: exI [of _ "[]"])
  next
    case False
    have "wp False (filesync_flush H info fsi) ?P (\<lambda>_ _. True) d"
    proof (rule wp_mono [OF flush_spec [OF t o]], elim conjE exE)
      fix fsi' d' a b x
      assume f: "fsi' = fsi\<lparr>send_idx := 0\<rparr>"
        and t': "talked d0 (es @ [Sent (WRTE, l, r, pending_out fsi), Recv info (OKAY, a, b, x)]) d'"
      then show "?P fsi' d'"
        by (intro exI [of _ "[Sent (WRTE, l, r, pending_out fsi), Recv info (OKAY, a, b, x)]"])
          (simp add: pending_out_def fsi_ok_def same_recv_def)
    qed simp
    with False show ?thesis by simp
  qed
  have fin: "\<exists>es'. wrte_out es' @ pending_out (buffer_packet (hdr @ bs) fsi1) = pending_out fsi @ sync_packet c sz bs \<and>
      wrte_in es' = [] \<and> fsi_ok (buffer_packet (hdr @ bs) fsi1) \<and>
      same_recv fsi (buffer_packet (hdr @ bs) fsi1) \<and> talked d0 (es @ es') d1"
    if "?P fsi1 d1" and "hdr = le_bytes 4 (cmd_wire c) @ le_bytes 4 sz" for fsi1 d1 hdr
    using that buffer_packet_pending [of fsi1 "hdr @ bs"]
    by (auto simp: sync_packet_def same_recv_def)
  have pack: "wp False (io_bind (io_lift (py_lookup FILESYNC_ID_TO_WIRE c)) (\<lambda>w.
        io_bind (io_lift (struct_pack [Some w, Some sz])) (\<lambda>hdr. io_return (buffer_packet (hdr @ bs) fsi1))))
      ?R (\<lambda>_ _. True) d1"
    if P: "?P fsi1 d1" for fsi1 d1
  proof (cases "FILESYNC_ID_TO_WIRE c")
    case None
    then show ?thesis by (simp add: py_lookup_None wp_bind wp_raise)
  next
    case (Some w)
    then have w: "w = cmd_wire c" by (simp add: FILESYNC_ID_TO_WIRE_eq split: if_splits)
    show ?thesis
    proof (cases "struct_pack [Some w, Some sz]")
      case (Inl e)
      with Some show ?thesis by (simp add: py_lookup_Some wp_bind wp_lift wp_raise)
    next
      case (Inr hdr)
      then have h: "u32_range sz" "hdr = le_bytes 4 (cmd_wire c) @ le_bytes 4 sz"
        unfolding struct_pack_two w by blast+
      from fin [OF P h(2)] h(1) Some Inr show ?thesis
        by (simp add: py_lookup_Some wp_bind wp_lift wp_return del: struct_pack.simps)
    qed
  qed
  show ?thesis
    unfolding filesync_send_def Inr io_lift_Inr io_bind_return Let_def sz_def [symmetric]
  proof (subst wp_bind, rule wp_mono [OF flush])
    fix fsi1 d1 assume "?P fsi1 d1"
    from pack [OF this] show "wp False (io_bind (io_lift (py_lookup FILESYNC_ID_TO_WIRE c)) (\<lambda>w.
        io_bind (io_lift (struct_pack [Some w, Some sz])) (\<lambda>hdr. io_return (buffer_packet (hdr @ bs) fsi1))))
      (\<lambda>fsi' d'. \<exists>bs' sz' es'. Inr bs = Inr bs' \<and> sz' = (case osize of None \<Rightarrow> int (length bs') | Some n \<Rightarrow> n) \<and>
         u32_range sz' \<and> wrte_out es' @ pending_out fsi' = pending_out fsi @ sync_packet c sz' bs' \<and>
         wrte_in es' = [] \<and> fsi_ok fsi' \<and> same_recv fsi fsi' \<and> talked d0 (es @ es') d')
      (\<lambda>_ _. True) d1"
      by (rule wp_mono) (auto simp: sz_def)
  qed simp
qed

section \<open>The receive buffer\<close>

lemma read_buffered_spec:
  assumes t: "talked d0 es d" and o: "opened info l r"
  shows "wp False (filesync_read_buffered H n info fsi)
    (\<lambda>(data, fsi') d'. \<exists>es'. recv_buffer fsi @ wrte_in es' = data @ recv_buffer fsi' \<and>
       length data = nat n \<and> wrte_out es' = [] \<and> fsi' = fsi\<lparr>recv_buffer := recv_buffer fsi'\<rparr> \<and>
       talked d0 (es @ es') d')
    (\<lambda>_ _. True) d"
proof -
  define I where "I = (\<lambda>fsi1 d1. \<exists>es'. fsi1 = fsi\<lparr>recv_buffer := recv_buffer fsi @ wrte_in es'\<rparr> \<and>
    wrte_out es' = [] \<and> talked d0 (es @ es') d1)"
  have body: "wp False (read_buffered_body H n info fsi1)
      (loop_post I (\<lambda>fsi' d'. I fsi' d' \<and> nat n \<le> length (recv_buffer fsi'))) (\<lambda>_ _. True) d1"
    if inv: "I fsi1 d1" for fsi1 d1
  proof -
    obtain es' where e: "fsi1 = fsi\<lparr>recv_buffer := recv_buffer fsi @ wrte_in es'\<rparr>" "wrte_out es' = []"
      "talked d0 (es @ es') d1"
      using inv by (auto simp: I_def)
    have more: "I (fsi1\<lparr>recv_buffer := recv_buffer fsi1 @ x\<rparr>) d2"
      if "talked d0 (es @ es' @ acked l r info (WRTE, a, b, x)) d2" for x a b d2
      unfolding I_def using e that
      by (intro exI [of _ "es' @ acked l r info (WRTE, a, b, x)"]) simp
    have "wp False (read_until H [WRTE] info)
        (\<lambda>x. wp False (case x of (uu, data) \<Rightarrow> io_return (Continue (fsi1\<lparr>recv_buffer := recv_buffer fsi1 @ data\<rparr>)))
           (loop_post I (\<lambda>fsi' d'. I fsi' d' \<and> nat n \<le> length (recv_buffer fsi'))) (\<lambda>_ _. True))
        (\<lambda>_ _. True) d1"
      by (rule wp_mono [OF read_until_spec [OF e(3) o]]) (auto simp: wp_return wanted_def intro: more)
    with inv show ?thesis
      unfolding read_buffered_body_def by (auto simp: wp_bind wp_return)
  qed
  have "wp False (io_loop (read_buffered_body H n info) fsi)
      (\<lambda>fsi' d'. I fsi' d' \<and> nat n \<le> length (recv_buffer fsi')) (\<lambda>_ _. True) d"
    by (rule loop_partial [where I = I, OF body])
      (use t in \<open>auto simp: I_def intro!: exI [of _ "[]"]\<close>)
  then show ?thesis
    unfolding filesync_read_buffered_def wp_bind wp_return
    by (rule wp_mono) (auto simp: I_def)
qed

lemma read_flush_spec:
  assumes t: "talked d0 es d" and o: "opened info l r"
  shows "wp False (if send_idx fsi \<noteq> 0 then filesync_flush H info fsi else io_return fsi)
    (\<lambda>fsi' d'. \<exists>es'. fsi' = fsi\<lparr>send_idx := 0\<rparr> \<and> wrte_out es' = pending_out fsi \<and> wrte_in es' = [] \<and>
       talked d0 (es @ es') d') (\<lambda>_ _. True) d"
proof (cases "send_idx fsi = 0")
  case True
  then have "fsi\<lparr>send_idx := 0\<rparr> = fsi" by (cases fsi) simp
  with True t show ?thesis by (auto simp: wp_return pending_out_def intro!: exI [of _ "[]"])
next
  case False
  have "wp False (filesync_flush H info fsi)
    (\<lambda>fsi' d'. \<exists>es'. fsi' = fsi\<lparr>send_idx := 0\<rparr> \<and> wrte_out es' = pending_out fsi \<and> wrte_in es' = [] \<and>
       talked d0 (es @ es') d') (\<lambda>_ _. True) d"
  proof (rule wp_mono [OF flush_spec [OF t o]], elim conjE exE)
    fix fsi' d' a b x
    assume "fsi' = fsi\<lparr>send_idx := 0\<rparr>"
      and "talked d0 (es @ [Sent (WRTE, l, r, pending_out fsi), Recv info (OKAY, a, b, x)]) d'"
    then show "\<exists>es'. fsi' = fsi\<lparr>send_idx := 0\<rparr> \<and> wrte_out es' = pending_out fsi \<and> wrte_in es' = [] \<and>
       talked d0 (es @ es') d'"
      by (intro exI [of _ "[Sent (WRTE, l, r, pending_out fsi), Recv info (OKAY, a, b, x)]"]) simp
  qed simp
  with False show ?thesis by simp
qed

lemma filesync_read_spec:
  assumes t: "talked d0 es d" and o: "opened info l r" and ok: "fsi_ok fsi"
  shows "wp False (filesync_read H ids info fsi)
    (\<lambda>(p, fsi') d'. \<exists>fr es'. fst p \<in> set ids \<and> sync_frame (recv_message_format fsi) p fr \<and>
       recv_buffer fsi @ wrte_in es' = fr @ recv_buffer fsi' \<and> wrte_out es' = pending_out fsi \<and>
       flushed fsi fsi' \<and> talked d0 (es @ es') d')
    (\<lambda>_ _. True) d"
  (is "wp False _ ?Q _ d")
proof -
  let ?A = "\<lambda>fsi1 d1. \<exists>es1. fsi1 = fsi\<lparr>send_idx := 0\<rparr> \<and> wrte_out es1 = pending_out fsi \<and> wrte_in es1 = [] \<and>
       talked d0 (es @ es1) d1"
  let ?B = "\<lambda>bs fsi2 d2. \<exists>es2. recv_buffer fsi @ wrte_in es2 = bs @ recv_buffer fsi2 \<and>
       wrte_out es2 = pending_out fsi \<and> flushed fsi fsi2 \<and> talked d0 (es @ es2) d2"
  have more: "wp False (filesync_read_buffered H n info fsi2)
      (\<lambda>x d3. length (fst x) = nat n \<and> ?B (bs @ fst x) (snd x) d3) (\<lambda>_ _. True) d2"
    if B2: "?B bs fsi2 d2" for n bs fsi2 d2
  proof -
    obtain es2 where e: "recv_buffer fsi @ wrte_in es2 = bs @ recv_buffer fsi2"
      "wrte_out es2 = pending_out fsi" "flushed fsi fsi2" "talked d0 (es @ es2) d2"
      using B2 by blast
    show ?thesis
    proof (rule wp_mono [OF read_buffered_spec [OF e(4) o]], clarify)
      fix data fsi3 d3 es3
      assume r: "recv_buffer fsi2 @ wrte_in es3 = data @ recv_buffer fsi3" "length data = nat n"
        "wrte_out es3 = []" and f: "fsi3 = fsi2\<lparr>recv_buffer := recv_buffer fsi3\<rparr>"
        and t3: "talked d0 ((es @ es2) @ es3) d3"
      have "flushed fsi fsi3" using e(3) by (subst f) (simp add: flushed_def fsi_ok_def)
      moreover have "recv_buffer fsi @ wrte_in (es2 @ es3) = (bs @ data) @ recv_buffer fsi3"
        using e(1) r(1) by (metis append.assoc wrte_in_append)
      ultimately show "length (fst (data, fsi3)) = nat n \<and> ?B (bs @ fst (data, fsi3)) (snd (data, fsi3)) d3"
        using r e(2) t3 by (intro conjI exI [of _ "es2 @ es3"]) auto
    qed simp
  qed
  show ?thesis
    unfolding filesync_read_def
  proof (subst wp_bind, rule wp_mono [OF read_flush_spec [OF t o, where fsi = fsi]])
    fix fsi1 d1 assume "?A fsi1 d1"
    then have b1: "?B [] fsi1 d1"
      using ok by (auto simp: flushed_def fsi_ok_def)
    show "wp False (io_bind (filesync_read_buffered H (int (recv_message_size fsi1)) info fsi1) (\<lambda>(header_data, fsi2).
        io_bind (io_lift (struct_unpack (recv_message_format fsi2) header_data)) (\<lambda>header.
        io_bind (io_lift (py_lookup FILESYNC_WIRE_TO_ID (hd header))) (\<lambda>command_id.
        io_bind (if command_id \<noteq> STAT then filesync_read_buffered H (last header) info fsi2
                 else io_return ([], fsi2)) (\<lambda>(data, fsi3).
          if command_id \<notin> set ids then
            (if command_id = FAIL then io_raise (AdbCommandFailureException (utf8_decode data))
             else io_raise InvalidResponseError)
          else if command_id = STAT then io_return ((command_id, tl header, None), fsi3)
          else io_return ((command_id, butlast (tl header), Some data), fsi3)))))) ?Q (\<lambda>_ _. True) d1"
    proof (subst wp_bind, rule wp_mono [OF more [OF b1]], simp only: split_paired_all prod.case fst_conv snd_conv)
      fix hdr fsi2 d2
      assume "length hdr = nat (int (recv_message_size fsi1)) \<and> ?B ([] @ hdr) fsi2 d2"
      then have b2: "?B hdr fsi2 d2" and fmt: "recv_message_format fsi2 = recv_message_format fsi"
        by (auto simp: flushed_def)
      show "wp False (io_bind (io_lift (struct_unpack (recv_message_format fsi2) hdr)) (\<lambda>header.
          io_bind (io_lift (py_lookup FILESYNC_WIRE_TO_ID (hd header))) (\<lambda>command_id.
          io_bind (if command_id \<noteq> STAT then filesync_read_buffered H (last header) info fsi2
                   else io_return ([], fsi2)) (\<lambda>(data, fsi3).
            if command_id \<notin> set ids then
              (if command_id = FAIL then io_raise (AdbCommandFailureException (utf8_decode data))
               else io_raise InvalidResponseError)
            else if command_id = STAT then io_return ((command_id, tl header, None), fsi3)
            else io_return ((command_id, butlast (tl header), Some data), fsi3))))) ?Q (\<lambda>_ _. True) d2"
      proof (cases "struct_unpack (recv_message_format fsi2) hdr")
        case (Inl e)
        then show ?thesis by (simp add: wp_raise)
      next
        case (Inr header)
        note h = this
        show ?thesis
        proof (cases "FILESYNC_WIRE_TO_ID (hd header)")
          case None
          with h show ?thesis by (simp add: py_lookup_None wp_raise)
        next
          case (Some c)
          have frame: "sync_frame (recv_message_format fsi) (c, tl header, None) hdr" if "c = STAT"
            using h Some fmt that unfolding sync_frame_def by (intro exI [of _ hdr]) auto
          have frame': "sync_frame (recv_message_format fsi) (c, butlast (tl header), Some data) (hdr @ data)"
            if "c \<noteq> STAT" "length data = nat (last header)" for data
            using h Some fmt that unfolding sync_frame_def by (intro exI [of _ hdr]) auto
          show ?thesis
          proof (cases "c = STAT")
            case True
            with h Some b2 frame show ?thesis by (auto simp: py_lookup_Some wp_raise wp_return)
          next
            case False
            have fin: "\<exists>fr es'. sync_frame (recv_message_format fsi) (c, butlast (tl header), Some data) fr \<and>
                recv_buffer fsi @ wrte_in es' = fr @ recv_buffer fsi3 \<and> wrte_out es' = pending_out fsi \<and>
                flushed fsi fsi3 \<and> talked d0 (es @ es') d3"
              if "length data = nat (last header)" "?B (hdr @ data) fsi3 d3" for data fsi3 d3
              using frame' [OF False that(1)] that(2) by blast
            have "wp False (filesync_read_buffered H (last header) info fsi2)
                (\<lambda>x. wp False (case x of (data, fsi3) \<Rightarrow>
                    if c \<notin> set ids then
                      (if c = FAIL then io_raise (AdbCommandFailureException (utf8_decode data))
                       else io_raise InvalidResponseError)
                    else if c = STAT then io_return ((c, tl header, None), fsi3)
                    else io_return ((c, butlast (tl header), Some data), fsi3)) ?Q (\<lambda>_ _. True)) (\<lambda>_ _. True) d2"
            proof (rule wp_mono [OF more [OF b2]])
              fix x d3 assume x: "length (fst x) = nat (last header) \<and> ?B (hdr @ fst x) (snd x) d3"
              obtain data fsi3 where "x = (data, fsi3)" by (cases x)
              with fin [of data fsi3 d3] x show "wp False (case x of (data, fsi3) \<Rightarrow>
                    if c \<notin> set ids then
                      (if c = FAIL then io_raise (AdbCommandFailureException (utf8_decode data))
                       else io_raise InvalidResponseError)
                    else if c = STAT then io_return ((c, tl header, None), fsi3)
                    else io_return ((c, butlast (tl header), Some data), fsi3)) ?Q (\<lambda>_ _. True) d3"
                using False by (simp add: wp_raise wp_return)
            qed simp
            with h Some False show ?thesis by (simp add: py_lookup_Some wp_bind)
          qed
        qed
      qed
    qed simp
  qed simp
qed

end
section \<open>Loops over FileSync packets\<close>

fun are_sync_frames :: "fs_format \<Rightarrow> fs_packet list \<Rightarrow> bytes \<Rightarrow> bool" where
  "are_sync_frames fmt [] bs \<longleftrightarrow> bs = []"
| "are_sync_frames fmt (p # ps) bs \<longleftrightarrow> (\<exists>f rest. bs = f @ rest \<and> sync_frame fmt p f \<and> are_sync_frames fmt ps rest)"

lemma are_sync_frames_snoc:
  "are_sync_frames fmt ps bs \<Longrightarrow> sync_frame fmt p f \<Longrightarrow> are_sync_frames fmt (ps @ [p]) (bs @ f)"
  by (induction ps arbitrary: bs) (auto, metis append.assoc)

section \<open>Sessions\<close>

text \<open>The events of opening a stream, and those of a whole session on it.\<close>

definition is_open :: "int \<Rightarrow> int \<Rightarrow> bytes \<Rightarrow> event list \<Rightarrow> bool" where
  "is_open l r dest es \<longleftrightarrow>
     (\<exists>info0 x. local_id info0 = Some l \<and> remote_id info0 = None \<and>
        es = [Sent (OPEN, l, 0, dest @ [0]), Recv info0 (OKAY, r, l, x)])"

definition is_session :: "int \<Rightarrow> bytes \<Rightarrow> event list \<Rightarrow> event list \<Rightarrow> bool" where
  "is_session l dest es1 es \<longleftrightarrow>
     (\<exists>r info eo a b x. opened info l r \<and> is_open l r dest eo \<and>
        es = eo @ es1 @ [Sent (CLSE, l, r, []), Recv info (CLSE, a, b, x)])"

lemma is_open_wrte: "is_open l r dest es \<Longrightarrow> wrte_out es = [] \<and> wrte_in es = []"
  by (auto simp: is_open_def)

lemma is_session_wrte: "is_session l dest es1 es \<Longrightarrow> wrte_out es = wrte_out es1 \<and> wrte_in es = wrte_in es1"
  by (auto simp: is_session_def dest: is_open_wrte)

text \<open>What a request and the FileSync packets that answer it put into the two byte streams.\<close>

definition sync_exchange :: "bytes \<Rightarrow> fs_format \<Rightarrow> fs_packet list \<Rightarrow> event list \<Rightarrow> bool" where
  "sync_exchange req fmt ps es \<longleftrightarrow>
     wrte_out es = req \<and> (\<exists>bs rest. wrte_in es = bs @ rest \<and> are_sync_frames fmt ps bs)"

text \<open>The buffers at the start of a session.\<close>

definition fresh_fsi :: "fs_format \<Rightarrow> int \<Rightarrow> filesync_info \<Rightarrow> bool" where
  "fresh_fsi fmt md fsi \<longleftrightarrow> fsi_ok fsi \<and> send_idx fsi = 0 \<and> recv_buffer fsi = [] \<and>
     recv_message_format fsi = fmt \<and> recv_message_size fsi = 4 * fmt \<and> fs_maxdata fsi = md"

lemma fresh_pending: "fresh_fsi fmt md fsi \<Longrightarrow> pending_out fsi = []"
  by (simp add: fresh_fsi_def pending_out_def)

lemma FileSyncTransactionInfo_fresh:
  "FileSyncTransactionInfo fmt md = Inr fsi \<Longrightarrow> fresh_fsi fmt md fsi"
  by (auto simp: FileSyncTransactionInfo_def fresh_fsi_def fsi_ok_def split: if_splits)

context device_host
begin

text \<open>
  \<open>J\<close> holds of the packets handled so far, the value of the loop variable and the device
  between two rounds, \<open>K\<close> when the loop is left.
\<close>

lemma filesync_for_spec:
  fixes J K :: "fs_packet list \<Rightarrow> 'a \<Rightarrow> 'w adb_device \<Rightarrow> bool"
  assumes t: "talked d0 es d" and o: "opened info l r" and ok: "fsi_ok fsi" and J: "J [] acc d"
    and stable: "\<And>ps a fsi. keeps (J ps a) (filesync_read H (expected @ finish) info fsi)"
    and body: "\<And>ps p a es1 d1. talked d0 es1 d1 \<Longrightarrow> J ps a d1 \<Longrightarrow> fst p \<in> set (expected @ finish) \<Longrightarrow>
      \<exists>f. sync_frame (recv_message_format fsi) p f \<Longrightarrow> wp False (body p a) (\<lambda>c d2. talked d0 es1 d2 \<and>
        (case c of
           Continue b \<Rightarrow> if fst p \<in> set finish then K (ps @ [p]) b d2 else J (ps @ [p]) b d2
         | Break b \<Rightarrow> K (ps @ [p]) b d2)) (\<lambda>_ _. True) d1"
  shows "wp False (filesync_for H expected finish info body fsi acc)
    (\<lambda>(b, fsi') d'. \<exists>ps bs es'. K ps b d' \<and> are_sync_frames (recv_message_format fsi) ps bs \<and>
       recv_buffer fsi @ wrte_in es' = bs @ recv_buffer fsi' \<and> wrte_out es' = pending_out fsi \<and>
       flushed fsi fsi' \<and> talked d0 (es @ es') d')
    (\<lambda>_ _. True) d"
  (is "wp False _ ?Q _ d")
proof -
  define got where "got = (\<lambda>ps fsi1 d1. \<exists>bs es'. are_sync_frames (recv_message_format fsi) ps bs \<and>
     recv_buffer fsi @ wrte_in es' = bs @ recv_buffer fsi1 \<and>
     wrte_out es' @ pending_out fsi1 = pending_out fsi \<and> fsi_ok fsi1 \<and>
     recv_message_format fsi1 = recv_message_format fsi \<and>
     recv_message_size fsi1 = recv_message_size fsi \<and> fs_maxdata fsi1 = fs_maxdata fsi \<and>
     talked d0 (es @ es') d1)"
  define I where "I = (\<lambda>(fsi1, a) d1. \<exists>ps. J ps a d1 \<and> got ps fsi1 d1)"
  have got_done: "pending_out fsi1 = []" if "send_idx fsi1 = 0" for fsi1
    using that by (simp add: pending_out_def)
  have step: "wp False (filesync_for_body H expected finish info body st) (loop_post I ?Q) (\<lambda>_ _. True) d1"
    if inv: "I st d1" for st d1
  proof -
    obtain fsi1 a ps bs es1 where st: "st = (fsi1, a)" and j: "J ps a d1"
      and g: "are_sync_frames (recv_message_format fsi) ps bs"
        "recv_buffer fsi @ wrte_in es1 = bs @ recv_buffer fsi1"
        "wrte_out es1 @ pending_out fsi1 = pending_out fsi" "fsi_ok fsi1"
        "recv_message_format fsi1 = recv_message_format fsi"
        "recv_message_size fsi1 = recv_message_size fsi" "fs_maxdata fsi1 = fs_maxdata fsi"
        "talked d0 (es @ es1) d1"
      using inv by (auto simp: I_def got_def)
    show ?thesis
      unfolding filesync_for_body_def st prod.case
    proof (subst wp_bind, rule wp_mono [OF wp_conj
        [OF filesync_read_spec [OF g(8) o g(4)] keepsD [OF stable j]]])
      fix x d2
      assume x: "(case x of (p, fsi') \<Rightarrow> \<lambda>d'. \<exists>fr es'. fst p \<in> set (expected @ finish) \<and>
          sync_frame (recv_message_format fsi1) p fr \<and> recv_buffer fsi1 @ wrte_in es' = fr @ recv_buffer fsi' \<and>
          wrte_out es' = pending_out fsi1 \<and> flushed fsi1 fsi' \<and> talked d0 ((es @ es1) @ es') d') d2 \<and> J ps a d2"
      then obtain p fsi2 fr es2 where eq: "x = (p, fsi2)" and p: "fst p \<in> set (expected @ finish)"
        "sync_frame (recv_message_format fsi) p fr" "recv_buffer fsi1 @ wrte_in es2 = fr @ recv_buffer fsi2"
        "wrte_out es2 = pending_out fsi1" "flushed fsi1 fsi2" "talked d0 (es @ (es1 @ es2)) d2" and j2: "J ps a d2"
        using g(5) by (cases x) auto
      have frame: "\<exists>f. sync_frame (recv_message_format fsi) p f" using p(2) by blast
      have all: "\<exists>bs es'. are_sync_frames (recv_message_format fsi) (ps @ [p]) bs \<and>
          recv_buffer fsi @ wrte_in es' = bs @ recv_buffer fsi2 \<and> wrte_out es' = pending_out fsi \<and>
          flushed fsi fsi2 \<and> talked d0 (es @ es') d3" if t3: "talked d0 (es @ (es1 @ es2)) d3" for d3
      proof (intro exI conjI)
        show "are_sync_frames (recv_message_format fsi) (ps @ [p]) (bs @ fr)"
          by (rule are_sync_frames_snoc [OF g(1) p(2)])
        show "recv_buffer fsi @ wrte_in (es1 @ es2) = (bs @ fr) @ recv_buffer fsi2"
          using g(2) p(3) by (metis append.assoc wrte_in_append)
        show "wrte_out (es1 @ es2) = pending_out fsi" using g(3) p(4) by simp
        show "flushed fsi fsi2" using p(5) g(5-7) by (simp add: flushed_def)
        show "talked d0 (es @ (es1 @ es2)) d3" by (rule t3)
      qed
      then have cont: "got (ps @ [p]) fsi2 d3" if "talked d0 (es @ (es1 @ es2)) d3" for d3
        using that unfolding got_def flushed_def by (metis append_Nil2 got_done)
      show "wp False (case x of (p, fsi') \<Rightarrow> io_bind (body p a) (\<lambda>ctl. case ctl of
            Break a \<Rightarrow> io_return (Break (a, fsi'))
          | Continue a \<Rightarrow> if fst p \<in> set finish then io_return (Break (a, fsi'))
                          else io_return (Continue (fsi', a)))) (loop_post I ?Q) (\<lambda>_ _. True) d2"
        unfolding eq prod.case
      proof (subst wp_bind, rule wp_mono [OF body [OF p(6) j2 p(1) frame]])
        fix c d3
        assume c: "talked d0 (es @ (es1 @ es2)) d3 \<and> (case c of
            Continue b \<Rightarrow> if fst p \<in> set finish then K (ps @ [p]) b d3 else J (ps @ [p]) b d3
          | Break b \<Rightarrow> K (ps @ [p]) b d3)"
        then have "\<exists>bs es'. are_sync_frames (recv_message_format fsi) (ps @ [p]) bs \<and>
          recv_buffer fsi @ wrte_in es' = bs @ recv_buffer fsi2 \<and> wrte_out es' = pending_out fsi \<and>
          flushed fsi fsi2 \<and> talked d0 (es @ es') d3" and "got (ps @ [p]) fsi2 d3"
          using all cont by blast+
        with c show "wp False (case c of
            Break a \<Rightarrow> io_return (Break (a, fsi2))
          | Continue a \<Rightarrow> if fst p \<in> set finish then io_return (Break (a, fsi2))
                          else io_return (Continue (fsi2, a))) (loop_post I ?Q) (\<lambda>_ _. True) d3"
          by (cases c; cases "fst p \<in> set finish")
            (simp_all add: wp_return I_def, (intro exI [of _ "ps @ [p]"], blast)+)
      qed simp
    qed simp
  qed
  have "I (fsi, acc) d"
    unfolding I_def got_def using t ok J by (auto intro!: exI [of _ "[]"])
  then show ?thesis
    unfolding filesync_for_def by (intro loop_partial [where I = I, OF step])
qed

lemma sync_open_spec:
  assumes t: "talked d0 es d"
  defines "l \<equiv> next_local_id (dev_local_id d0)"
  shows "wp False (dev_open H dest tt rt t)
    (\<lambda>info d'. \<exists>r eo. opened info l r \<and> is_open l r dest eo \<and>
       talked (d0\<lparr>dev_local_id := l\<rparr>) (es @ eo) d')
    (\<lambda>_ _. True) d"
  unfolding l_def is_open_def by (rule wp_mono [OF open_spec [OF t]]) blast+

lemma new_filesync_spec:
  assumes "talked d0 es d"
  shows "wp False (new_filesync fmt) (\<lambda>fsi d'. fresh_fsi fmt (maxdata d0) fsi \<and> talked d0 es d') (\<lambda>_ _. True) d"
  using assms unfolding new_filesync_def
  by (auto simp: wp_bind wp_gets wp_lift talked_sel split: sum.split dest: FileSyncTransactionInfo_fresh)

lemma session_close:
  assumes t: "talked d0 (es @ eo @ es1) d" and o: "opened info l r" "is_open l r dest eo"
  shows "wp False (dev_clse H info)
    (\<lambda>_ d'. \<exists>es'. is_session l dest es1 es' \<and> talked d0 (es @ es') d') (\<lambda>_ _. True) d"
proof (rule wp_mono [OF clse_spec [OF t o(1)]], elim exE)
  fix u d' a b x
  assume "talked d0 ((es @ eo @ es1) @ [Sent (CLSE, l, r, []), Recv info (CLSE, a, b, x)]) d'"
  with o show "\<exists>es'. is_session l dest es1 es' \<and> talked d0 (es @ es') d'"
    by (intro exI [of _ "eo @ es1 @ [Sent (CLSE, l, r, []), Recv info (CLSE, a, b, x)]"])
      (auto simp: is_session_def)
qed simp

lemma wp_require:
  "wp t (require_available p) Q E d = (if available d then wp t p Q E d else E AdbConnectionError d)"
  by (simp add: require_available_def wp_bind wp_gets wp_raise)

lemma wp_guarded:
  "wp False p Q (\<lambda>_ _. True) d \<Longrightarrow>
     wp False (if b then io_raise e else require_available p) Q (\<lambda>_ _. True) d"
  by (simp add: wp_require wp_raise)

section \<open>Listing a directory\<close>

text \<open>The directory entries of a listing, which \<open>DONE\<close> ends.\<close>

end

definition is_dent :: "fs_packet \<Rightarrow> DeviceFile \<Rightarrow> bool" where
  "is_dent p f \<longleftrightarrow> p = (DENT, [df_mode f, df_size f, df_mtime f], Some (filename f))"

definition is_listing :: "fs_packet list \<Rightarrow> DeviceFile list \<Rightarrow> bool" where
  "is_listing ps fs \<longleftrightarrow> (\<exists>qs p. ps = qs @ [p] \<and> fst p = DONE \<and> list_all2 is_dent qs fs)"

context device_host
begin

lemma sync_frame_data: "sync_frame fmt p fr \<Longrightarrow> fst p \<noteq> STAT \<Longrightarrow> \<exists>x. snd (snd p) = Some x"
  by (auto simp: sync_frame_def)

lemma unpack3_Inr: "unpack3 xs = Inr v \<longleftrightarrow> (\<exists>a b c. xs = [a, b, c] \<and> v = (a, b, c))"
  by (auto simp: unpack3_def split: list.split)

text \<open>A session around a transfer \<open>k\<close>, as \<open>list\<close> and \<open>stat\<close> have it.\<close>

definition sync_session ::
  "fs_format \<Rightarrow> rat option \<Rightarrow> rat \<Rightarrow> (transaction_info \<Rightarrow> filesync_info \<Rightarrow> ('w adb_device, 'a) prog) \<Rightarrow>
     ('w adb_device, 'a) prog" where
  "sync_session fmt tt rt k =
     io_bind (dev_open H (bytes_lit ''sync:'') tt rt None) (\<lambda>info.
     io_bind (new_filesync fmt) (\<lambda>fsi.
     io_bind (k info fsi) (\<lambda>x. io_then (dev_clse H info) (io_return x))))"

lemma sync_session_spec:
  fixes R :: "'a \<Rightarrow> event list \<Rightarrow> bool"
  assumes t: "talked d0 es d"
    and k: "\<And>info fsi d1 r es1. opened info (next_local_id (dev_local_id d0)) r \<Longrightarrow>
      fresh_fsi fmt (maxdata d0) fsi \<Longrightarrow>
      talked (d0\<lparr>dev_local_id := next_local_id (dev_local_id d0)\<rparr>) es1 d1 \<Longrightarrow>
      wp False (k info fsi) (\<lambda>x d'. \<exists>es2. R x es2 \<and>
        talked (d0\<lparr>dev_local_id := next_local_id (dev_local_id d0)\<rparr>) (es1 @ es2) d') (\<lambda>_ _. True) d1"
  defines "l \<equiv> next_local_id (dev_local_id d0)"
  shows "wp False (sync_session fmt tt rt k)
    (\<lambda>x d'. \<exists>es1 es'. R x es1 \<and> is_session l (bytes_lit ''sync:'') es1 es' \<and>
       talked (d0\<lparr>dev_local_id := l\<rparr>) (es @ es') d')
    (\<lambda>_ _. True) d"
  (is "wp False _ ?Q _ d")
  unfolding sync_session_def
proof (subst wp_bind, rule wp_mono [OF sync_open_spec [OF t, folded l_def]], elim exE conjE)
  fix info d1 r eo
  assume o: "opened info l r" and eo: "is_open l r (bytes_lit ''sync:'') eo"
    and t1: "talked (d0\<lparr>dev_local_id := l\<rparr>) (es @ eo) d1"
  show "wp False (io_bind (new_filesync fmt) (\<lambda>fsi. io_bind (k info fsi) (\<lambda>x.
      io_then (dev_clse H info) (io_return x)))) ?Q (\<lambda>_ _. True) d1"
  proof (subst wp_bind, rule wp_mono [OF new_filesync_spec [OF t1]], elim conjE)
    fix fsi d2
    assume f: "fresh_fsi fmt (maxdata (d0\<lparr>dev_local_id := l\<rparr>)) fsi"
      and t2: "talked (d0\<lparr>dev_local_id := l\<rparr>) (es @ eo) d2"
    from f have f': "fresh_fsi fmt (maxdata d0) fsi" by simp
    show "wp False (io_bind (k info fsi) (\<lambda>x. io_then (dev_clse H info) (io_return x))) ?Q (\<lambda>_ _. True) d2"
    proof (subst wp_bind, rule wp_mono [OF k [folded l_def, OF o f' t2]], elim exE conjE)
      fix x d3 es2 assume R: "R x es2" and t3: "talked (d0\<lparr>dev_local_id := l\<rparr>) ((es @ eo) @ es2) d3"
      from session_close [OF t3 [unfolded append_assoc] o eo]
      show "wp False (io_then (dev_clse H info) (io_return x)) ?Q (\<lambda>_ _. True) d3"
        unfolding wp_bind wp_return by (rule wp_mono) (use R in blast)+
    qed simp
  qed simp
qed simp

definition list_transfer ::
  "pystr \<Rightarrow> transaction_info \<Rightarrow> filesync_info \<Rightarrow> ('w adb_device, DeviceFile list) prog" where
  "list_transfer path info fsi =
     io_bind (filesync_send H LIST info fsi (PyStr path) None) (\<lambda>fsi1.
     io_bind (filesync_for H [DENT] [DONE] info list_body fsi1 []) (\<lambda>x. io_return (fst x)))"

lemma dev_list_session:
  "dev_list H path tt rt =
     (if path = [] then io_raise DevicePathInvalidError
      else require_available (sync_session FILESYNC_LIST_FORMAT tt rt (list_transfer path)))"
  by (simp add: dev_list_def sync_session_def list_transfer_def io_bind_assoc split_def)

lemma list_body_spec:
  assumes t: "talked d0 es d" and j: "list_all2 is_dent ps a" and p: "fst p \<in> {DENT, DONE}"
    and f: "\<exists>f. sync_frame fmt p f"
  shows "wp False (list_body p a) (\<lambda>c d2. talked d0 es d2 \<and> (case c of
        Continue b \<Rightarrow> if fst p \<in> set [DONE] then is_listing (ps @ [p]) b else list_all2 is_dent (ps @ [p]) b
      | Break b \<Rightarrow> is_listing (ps @ [p]) b)) (\<lambda>_ _. True) d"
proof (cases "fst p = DONE")
  case True
  with t j show ?thesis by (cases p) (auto simp: list_body_def wp_return is_listing_def)
next
  case False
  obtain x where x: "fst p = DENT \<Longrightarrow> snd (snd p) = Some x"
    using f sync_frame_data [of fmt p] by fastforce
  with False p obtain h where h: "p = (DENT, h, Some x)" by (cases p) auto
  show ?thesis
  proof (cases "unpack3 h")
    case (Inl e)
    then show ?thesis by (simp add: h list_body_def wp_raise)
  next
    case (Inr v)
    then obtain mode sz mt where "h = [mode, sz, mt]" "v = (mode, sz, mt)" by (auto simp: unpack3_Inr)
    with Inr t j show ?thesis
      by (auto simp: h list_body_def wp_return opt_bytes_def is_dent_def intro!: list_all2_appendI)
  qed
qed

lemma request_spec:
  assumes t: "talked d0 es d" and o: "opened info l r" and f: "fresh_fsi fmt md fsi"
  shows "wp False (filesync_send H c info fsi (PyStr path) None)
    (\<lambda>fsi' d'. \<exists>pb es'. utf8_encode path = Inr pb \<and> recv_message_format fsi' = fmt \<and> recv_buffer fsi' = [] \<and>
       fsi_ok fsi' \<and> wrte_out es' @ pending_out fsi' = sync_packet c (int (length pb)) pb \<and> wrte_in es' = [] \<and>
       talked d0 (es @ es') d') (\<lambda>_ _. True) d"
  by (rule wp_mono [OF filesync_send_spec [OF t o]])
    (use f fresh_pending [OF f] in \<open>auto simp: fresh_fsi_def data_bytes_def same_recv_def\<close>)

lemma list_transfer_spec:
  assumes t: "talked d0 es d" and o: "opened info l r" and f: "fresh_fsi FILESYNC_LIST_FORMAT md fsi"
  shows "wp False (list_transfer path info fsi)
    (\<lambda>fls d'. \<exists>es'. (\<exists>pb ps. utf8_encode path = Inr pb \<and> is_listing ps fls \<and>
       sync_exchange (sync_packet LIST (int (length pb)) pb) FILESYNC_LIST_FORMAT ps es') \<and>
       talked d0 (es @ es') d') (\<lambda>_ _. True) d"
  (is "wp False _ ?Q _ d")
  unfolding list_transfer_def
proof (subst wp_bind, rule wp_mono [OF request_spec [OF t o f]], elim exE conjE)
  fix fsi1 d1 pb es1
  assume u: "utf8_encode path = Inr pb" and fmt: "recv_message_format fsi1 = FILESYNC_LIST_FORMAT"
    and rb: "recv_buffer fsi1 = []" and ok: "fsi_ok fsi1"
    and out: "wrte_out es1 @ pending_out fsi1 = sync_packet LIST (int (length pb)) pb"
    and inn: "wrte_in es1 = []" and t1: "talked d0 (es @ es1) d1"
  have "wp False (filesync_for H [DENT] [DONE] info list_body fsi1 [])
      (\<lambda>(fls, fsi') d'. \<exists>ps bs es'. is_listing ps fls \<and> are_sync_frames (recv_message_format fsi1) ps bs \<and>
         recv_buffer fsi1 @ wrte_in es' = bs @ recv_buffer fsi' \<and> wrte_out es' = pending_out fsi1 \<and>
         flushed fsi1 fsi' \<and> talked d0 ((es @ es1) @ es') d') (\<lambda>_ _. True) d1"
  proof (rule filesync_for_spec [where J = "\<lambda>ps a _. list_all2 is_dent ps a" and K = "\<lambda>ps a _. is_listing ps a", OF t1 o ok])
    fix ps and p :: fs_packet and a es1 d1
    assume "talked d0 es1 d1" "list_all2 is_dent ps a" "fst p \<in> set ([DENT] @ [DONE])"
      "\<exists>f. sync_frame (recv_message_format fsi1) p f"
    then show "wp False (list_body p a) (\<lambda>c d2. talked d0 es1 d2 \<and> (case c of
        Continue b \<Rightarrow> if fst p \<in> set [DONE] then is_listing (ps @ [p]) b else list_all2 is_dent (ps @ [p]) b
      | Break b \<Rightarrow> is_listing (ps @ [p]) b)) (\<lambda>_ _. True) d1"
      by (intro list_body_spec) auto
  qed (auto simp: keeps_def wp_def split: option.split sum.split)
  then show "wp False (io_bind (filesync_for H [DENT] [DONE] info list_body fsi1 []) (\<lambda>x. io_return (fst x)))
      ?Q (\<lambda>_ _. True) d1"
  proof (subst wp_bind, elim wp_mono)
    fix x d2
    assume "(case x of (fls, fsi') \<Rightarrow> \<lambda>d'. \<exists>ps bs es'. is_listing ps fls \<and>
        are_sync_frames (recv_message_format fsi1) ps bs \<and> recv_buffer fsi1 @ wrte_in es' = bs @ recv_buffer fsi' \<and>
        wrte_out es' = pending_out fsi1 \<and> flushed fsi1 fsi' \<and> talked d0 ((es @ es1) @ es') d') d2"
    then obtain ps bs es2 where "is_listing ps (fst x)" "are_sync_frames FILESYNC_LIST_FORMAT ps bs"
      "wrte_in es2 = bs @ recv_buffer (snd x)" "wrte_out es2 = pending_out fsi1" "talked d0 (es @ (es1 @ es2)) d2"
      using fmt rb by (cases x) auto
    with u out inn show "wp False (io_return (fst x)) ?Q (\<lambda>_ _. True) d2"
      unfolding wp_return sync_exchange_def by (intro exI [of _ "es1 @ es2"]) auto
  qed simp
qed simp

lemma list_spec:
  assumes t: "talked d0 es d"
  defines "l \<equiv> next_local_id (dev_local_id d0)"
  shows "wp False (dev_list H path tt rt)
    (\<lambda>fls d'. \<exists>es1 es'. (\<exists>pb ps. utf8_encode path = Inr pb \<and> is_listing ps fls \<and>
         sync_exchange (sync_packet LIST (int (length pb)) pb) FILESYNC_LIST_FORMAT ps es1) \<and>
       is_session l (bytes_lit ''sync:'') es1 es' \<and> talked (d0\<lparr>dev_local_id := l\<rparr>) (es @ es') d')
    (\<lambda>_ _. True) d"
  unfolding dev_list_session l_def
  by (rule wp_guarded, rule sync_session_spec [OF t], rule list_transfer_spec)

section \<open>Stat\<close>

definition stat_transfer ::
  "pystr \<Rightarrow> transaction_info \<Rightarrow> filesync_info \<Rightarrow> ('w adb_device, int \<times> int \<times> int) prog" where
  "stat_transfer path info fsi =
     io_bind (filesync_send H STAT info fsi (PyStr path) None) (\<lambda>fsi1.
     io_bind (filesync_read H [STAT] info fsi1) (\<lambda>x. io_lift (unpack3 (fst (snd (fst x))))))"

lemma dev_stat_session:
  "dev_stat H path tt rt =
     (if path = [] then io_raise DevicePathInvalidError
      else require_available (sync_session FILESYNC_STAT_FORMAT tt rt (stat_transfer path)))"
  by (simp add: dev_stat_def sync_session_def stat_transfer_def io_bind_assoc split_def)

lemma stat_transfer_spec:
  assumes t: "talked d0 es d" and o: "opened info l r" and f: "fresh_fsi FILESYNC_STAT_FORMAT md fsi"
  shows "wp False (stat_transfer path info fsi)
    (\<lambda>(mode, sz, mt) d'. \<exists>es'. (\<exists>pb. utf8_encode path = Inr pb \<and>
       sync_exchange (sync_packet STAT (int (length pb)) pb) FILESYNC_STAT_FORMAT
         [(STAT, [mode, sz, mt], None)] es') \<and> talked d0 (es @ es') d') (\<lambda>_ _. True) d"
  (is "wp False _ ?Q _ d")
  unfolding stat_transfer_def
proof (subst wp_bind, rule wp_mono [OF request_spec [OF t o f]], elim exE conjE)
  fix fsi1 d1 pb es1
  assume u: "utf8_encode path = Inr pb" and fmt: "recv_message_format fsi1 = FILESYNC_STAT_FORMAT"
    and rb: "recv_buffer fsi1 = []" and ok: "fsi_ok fsi1"
    and out: "wrte_out es1 @ pending_out fsi1 = sync_packet STAT (int (length pb)) pb"
    and inn: "wrte_in es1 = []" and t1: "talked d0 (es @ es1) d1"
  show "wp False (io_bind (filesync_read H [STAT] info fsi1) (\<lambda>x. io_lift (unpack3 (fst (snd (fst x))))))
      ?Q (\<lambda>_ _. True) d1"
  proof (subst wp_bind, rule wp_mono [OF filesync_read_spec [OF t1 o ok]])
    fix x d2
    assume x: "(case x of (p, fsi') \<Rightarrow> \<lambda>d'. \<exists>fr es'. fst p \<in> set [STAT] \<and>
        sync_frame (recv_message_format fsi1) p fr \<and> recv_buffer fsi1 @ wrte_in es' = fr @ recv_buffer fsi' \<and>
        wrte_out es' = pending_out fsi1 \<and> flushed fsi1 fsi' \<and> talked d0 ((es @ es1) @ es') d') d2"
    obtain h fr fsi2 es2 where x: "x = ((STAT, h, None), fsi2)" and fr: "sync_frame FILESYNC_STAT_FORMAT (STAT, h, None) fr"
      "wrte_in es2 = fr @ recv_buffer fsi2" "wrte_out es2 = pending_out fsi1" "talked d0 (es @ (es1 @ es2)) d2"
    proof -
      obtain p fsi2 where "x = (p, fsi2)" by (cases x)
      with x fmt rb obtain fr es2 where "fst p = STAT" "sync_frame FILESYNC_STAT_FORMAT p fr"
        "wrte_in es2 = fr @ recv_buffer fsi2" "wrte_out es2 = pending_out fsi1" "talked d0 (es @ (es1 @ es2)) d2"
        by auto
      moreover from this have "p = (STAT, fst (snd p), None)" by (cases p) (auto simp: sync_frame_def)
      ultimately show thesis using that [of "fst (snd p)" fsi2 fr es2] \<open>x = (p, fsi2)\<close> by metis
    qed
    have ex: "sync_exchange (sync_packet STAT (int (length pb)) pb) FILESYNC_STAT_FORMAT [(STAT, h, None)] (es1 @ es2)"
      using fr out inn by (auto simp: sync_exchange_def)
    show "wp False (io_lift (unpack3 (fst (snd (fst x))))) ?Q (\<lambda>_ _. True) d2"
    proof (cases "unpack3 h")
      case (Inr v)
      then obtain mode sz mt where "h = [mode, sz, mt]" "v = (mode, sz, mt)" by (auto simp: unpack3_Inr)
      with Inr ex u fr(4) show ?thesis by (auto simp: x wp_return intro!: exI [of _ "es1 @ es2"])
    qed (simp add: x wp_raise)
  qed simp
qed simp

lemma stat_spec:
  assumes t: "talked d0 es d"
  defines "l \<equiv> next_local_id (dev_local_id d0)"
  shows "wp False (dev_stat H path tt rt)
    (\<lambda>res d'. \<exists>es1 es'. (\<exists>pb. utf8_encode path = Inr pb \<and>
         sync_exchange (sync_packet STAT (int (length pb)) pb) FILESYNC_STAT_FORMAT
           [(STAT, [fst res, fst (snd res), snd (snd res)], None)] es1) \<and>
       is_session l (bytes_lit ''sync:'') es1 es' \<and> talked (d0\<lparr>dev_local_id := l\<rparr>) (es @ es') d')
    (\<lambda>_ _. True) d"
  unfolding dev_stat_session l_def
  by (rule wp_guarded, rule sync_session_spec [OF t], rule wp_mono [OF stat_transfer_spec]) auto

end
section \<open>Pulling a file\<close>

text \<open>The packets of a download and the data they carry; \<open>DONE\<close> ends it.\<close>

definition is_data :: "fs_packet \<Rightarrow> bytes \<Rightarrow> bool" where
  "is_data p x \<longleftrightarrow> fst p = DATA \<and> snd (snd p) = Some x"

definition is_download :: "fs_packet list \<Rightarrow> bytes \<Rightarrow> bool" where
  "is_download ps x \<longleftrightarrow> (\<exists>qs p xs. ps = qs @ [p] \<and> fst p = DONE \<and> list_all2 is_data qs xs \<and> x = concat xs)"

context device_host
begin

lemma talked_quiet:
  assumes t: "talked d0 es d" and q: "quiet inp out roomy p"
  shows "wp False (on_world p) (\<lambda>_ d'. talked d0 es d') (\<lambda>_ _. True) d"
  unfolding on_world_def
proof (rule talked_io [OF t, where Q = "\<lambda>_ m. reached (io_manager d0) es m"])
  fix m assume r: "reached (io_manager d0) es m"
  show "wp False (on_transport p) (\<lambda>_ m'. reached (io_manager d0) es m') (\<lambda>_ _. True) m"
    unfolding wp_on_transport
  proof (rule wp_mono [OF q [unfolded quiet_def, rule_format]])
    fix x w'
    assume w: "inp w' = minp m \<and> out w' = mout m \<and> roomy w' = roomy (transport_state m)"
    then have "bytes_written inp out [] m (m\<lparr>transport_state := w'\<rparr>)"
      by (simp add: bytes_written_def)
    with r w show "reached (io_manager d0) es (m\<lparr>transport_state := w'\<rparr>)"
      by (auto simp: reached_def mroomy_def intro: conversation.idle)
  qed simp
qed simp

end

context file_sink
begin

definition sunk :: "'a adb_device \<Rightarrow> bytes \<Rightarrow> 'a adb_device \<Rightarrow> bool" where
  "sunk d x d' \<longleftrightarrow> content (transport_state (io_manager d')) = content (transport_state (io_manager d)) @ x"

lemma sink_write:
  assumes "talked d0 es d" and s: "sunk d1 x d"
  shows "wp False (on_world (st_write sink y)) (\<lambda>_ d'. talked d0 es d' \<and> sunk d1 (x @ y) d') (\<lambda>_ _. True) d"
proof (rule wp_mono [OF wp_conj [OF talked_quiet [OF assms(1) write_quiet]]])
  show "wp False (on_world (st_write sink y)) (\<lambda>_ d'. sunk d1 (x @ y) d') (\<lambda>_ _. True) d"
    unfolding on_world_def wp_on_io wp_on_transport
    by (rule wp_mono [OF write_content]) (use s in \<open>simp_all add: sunk_def\<close>)
qed auto

lemma sunk_kept: "keeps (sunk d x) p" if "\<And>c. keeps (of_world (\<lambda>w. content w = c)) p" for p
  using that unfolding keeps_def sunk_def of_world_def by blast

lemma pull_loop_spec:
  assumes t: "talked d0 es d" and o: "opened info l r" and ok: "fsi_ok fsi" and s: "sunk d1 [] d"
  shows "wp False (filesync_for H [DATA] [DONE] info (pull_body sink None path n) fsi ())
    (\<lambda>(_, fsi') d'. \<exists>ps bs es'. (\<exists>x. is_download ps x \<and> sunk d1 x d') \<and>
       are_sync_frames (recv_message_format fsi) ps bs \<and>
       recv_buffer fsi @ wrte_in es' = bs @ recv_buffer fsi' \<and> wrte_out es' = pending_out fsi \<and>
       flushed fsi fsi' \<and> talked d0 (es @ es') d')
    (\<lambda>_ _. True) d"
proof (rule filesync_for_spec [where J = "\<lambda>ps _ d'. \<exists>xs. list_all2 is_data ps xs \<and> sunk d1 (concat xs) d'"
      and K = "\<lambda>ps _ d'. \<exists>x. is_download ps x \<and> sunk d1 x d'", OF t o ok])
  show "\<exists>xs. list_all2 is_data [] xs \<and> sunk d1 (concat xs) d" using s by simp
next
  fix ps fsi
  have "keeps (sunk d1 x) (filesync_read H ([DATA] @ [DONE]) info fsi)" for x
    by (rule sunk_kept) (rule filesync_world [OF content_kept])
  then show "keeps (\<lambda>d'. \<exists>xs. list_all2 is_data ps xs \<and> sunk d1 (concat xs) d')
      (filesync_read H ([DATA] @ [DONE]) info fsi)"
    unfolding keeps_def by (blast intro: wp_mono)
next
  fix ps and p :: fs_packet and u :: unit and es1 d2
  assume t2: "talked d0 es1 d2" and j: "\<exists>xs. list_all2 is_data ps xs \<and> sunk d1 (concat xs) d2"
    and p: "fst p \<in> set ([DATA] @ [DONE])" and f: "\<exists>f. sync_frame (recv_message_format fsi) p f"
  obtain xs where xs: "list_all2 is_data ps xs" "sunk d1 (concat xs) d2" using j by blast
  show "wp False (pull_body sink None path n p u) (\<lambda>c d3. talked d0 es1 d3 \<and> (case c of
      Continue b \<Rightarrow> if fst p \<in> set [DONE] then \<exists>x. is_download (ps @ [p]) x \<and> sunk d1 x d3
                    else \<exists>xs. list_all2 is_data (ps @ [p]) xs \<and> sunk d1 (concat xs) d3
    | Break b \<Rightarrow> \<exists>x. is_download (ps @ [p]) x \<and> sunk d1 x d3)) (\<lambda>_ _. True) d2"
  proof (cases "fst p = DONE")
    case True
    with t2 xs show ?thesis
      by (cases p) (auto simp: pull_body_def wp_return is_download_def)
  next
    case False
    obtain x where x: "snd (snd p) = Some x" "fst p = DATA"
      using f p False sync_frame_data [of "recv_message_format fsi" p] by fastforce
    then have snoc: "list_all2 is_data (ps @ [p]) (xs @ [x])"
      using xs(1) by (auto simp: is_data_def intro!: list_all2_appendI)
    obtain h where h: "p = (DATA, h, Some x)" using x by (cases p) auto
    show ?thesis
      unfolding h pull_body_def call_progress_def
      by (auto simp: wp_bind wp_return opt_bytes_def
          intro!: wp_mono [OF sink_write [OF t2 xs(2)]] exI [of _ "xs @ [x]"] snoc [unfolded h])
  qed
qed

lemma pull_data_spec:
  assumes t: "talked d0 es d" and o: "opened info l r" and f: "fresh_fsi FILESYNC_PULL_FORMAT md fsi"
    and s: "sunk d1 [] d"
  shows "wp False (pull_data H path sink None info fsi)
    (\<lambda>_ d'. \<exists>es' pb ps x. utf8_encode path = Inr pb \<and> is_download ps x \<and> sunk d1 x d' \<and>
       sync_exchange (sync_packet RECV (int (length pb)) pb) FILESYNC_PULL_FORMAT ps es' \<and>
       talked d0 (es @ es') d') (\<lambda>_ _. True) d"
  (is "wp False _ ?Q _ d")
  unfolding pull_data_def option.case io_bind_return
proof (subst wp_bind, rule wp_mono [OF wp_conj [OF request_spec [OF t o f]
      keepsD [OF sunk_kept [OF filesync_world(2) [OF content_kept]] s]]], elim exE conjE)
  fix fsi1 d2 pb es1
  assume u: "utf8_encode path = Inr pb" and fmt: "recv_message_format fsi1 = FILESYNC_PULL_FORMAT"
    and rb: "recv_buffer fsi1 = []" and ok: "fsi_ok fsi1"
    and out: "wrte_out es1 @ pending_out fsi1 = sync_packet RECV (int (length pb)) pb"
    and inn: "wrte_in es1 = []" and t1: "talked d0 (es @ es1) d2" and s1: "sunk d1 [] d2"
  show "wp False (io_then (filesync_for H [DATA] [DONE] info (pull_body sink None path 0) fsi1 ()) (io_return ()))
      ?Q (\<lambda>_ _. True) d2"
  proof (subst wp_bind, rule wp_mono [OF pull_loop_spec [OF t1 o ok s1]])
    fix x d3
    assume "(case x of (_, fsi') \<Rightarrow> \<lambda>d'. \<exists>ps bs es'. (\<exists>x. is_download ps x \<and> sunk d1 x d') \<and>
        are_sync_frames (recv_message_format fsi1) ps bs \<and> recv_buffer fsi1 @ wrte_in es' = bs @ recv_buffer fsi' \<and>
        wrte_out es' = pending_out fsi1 \<and> flushed fsi1 fsi' \<and> talked d0 ((es @ es1) @ es') d') d3"
    then obtain ps bs es2 y where "is_download ps y" "sunk d1 y d3" "are_sync_frames FILESYNC_PULL_FORMAT ps bs"
      "wrte_in es2 = bs @ recv_buffer (snd x)" "wrte_out es2 = pending_out fsi1" "talked d0 (es @ (es1 @ es2)) d3"
      using fmt rb by (cases x) auto
    with u out inn show "wp False (io_return ()) ?Q (\<lambda>_ _. True) d3"
      unfolding wp_return sync_exchange_def by (intro exI [of _ "es1 @ es2"]) auto
  qed simp
qed simp

text \<open>A whole pull into the sink.\<close>

lemma wp_finally_return:
  "wp False (io_bind m (\<lambda>x. io_then c (io_return x))) Q (\<lambda>_ _. True) s \<Longrightarrow>
     wp False (io_finally m c) Q (\<lambda>_ _. True) s"
  by (auto simp: wp_bind wp_finally wp_return elim!: wp_mono)

lemma sunk_sel [simp]: "sunk d x (d\<lparr>dev_local_id := i\<rparr>) = sunk d x d"
  by (simp add: sunk_def)

lemma pull_spec:
  assumes t: "talked d0 es d"
  defines "l \<equiv> next_local_id (dev_local_id d0)"
  shows "wp False (dev_pull H path (LBytesIO sink) None tt rt)
    (\<lambda>_ d'. \<exists>es1 es' pb ps x. utf8_encode path = Inr pb \<and> is_download ps x \<and> sunk d x d' \<and>
       sync_exchange (sync_packet RECV (int (length pb)) pb) FILESYNC_PULL_FORMAT ps es1 \<and>
       is_session l (bytes_lit ''sync:'') es1 es' \<and> talked (d0\<lparr>dev_local_id := l\<rparr>) (es @ es') d')
    (\<lambda>_ _. True) d"
  (is "wp False _ ?Q _ d")
proof -
  have s0: "sunk d [] d" by (simp add: sunk_def)
  show ?thesis
  unfolding dev_pull_def with_stream_def local_path.case
  proof (rule wp_guarded, subst wp_bind, rule wp_mono [OF wp_conj [OF sync_open_spec [OF t, folded l_def]
      keepsD [OF sunk_kept [OF stream_world(4) [OF content_kept]] s0]]], elim exE conjE)
  fix info d1 r eo
  assume o: "opened info l r" and eo: "is_open l r (bytes_lit ''sync:'') eo"
    and t1: "talked (d0\<lparr>dev_local_id := l\<rparr>) (es @ eo) d1" and s1: "sunk d [] d1"
  have nf: "keeps (sunk d []) (new_filesync FILESYNC_PULL_FORMAT :: ('a adb_device, filesync_info) prog)"
    unfolding new_filesync_def by (intro keeps_intros)
  show "wp False (io_bind (new_filesync FILESYNC_PULL_FORMAT) (\<lambda>fsi.
      io_finally (pull_data H path sink None info fsi) (dev_clse H info))) ?Q (\<lambda>_ _. True) d1"
  proof (subst wp_bind, rule wp_mono [OF wp_conj [OF new_filesync_spec [OF t1] keepsD [OF nf s1]]], elim conjE)
    fix fsi d2
    assume f: "fresh_fsi FILESYNC_PULL_FORMAT (maxdata (d0\<lparr>dev_local_id := l\<rparr>)) fsi"
      and t2: "talked (d0\<lparr>dev_local_id := l\<rparr>) (es @ eo) d2" and s2: "sunk d [] d2"
    show "wp False (io_finally (pull_data H path sink None info fsi) (dev_clse H info)) ?Q (\<lambda>_ _. True) d2"
    proof (rule wp_finally_return, subst wp_bind, rule wp_mono [OF pull_data_spec [OF t2 o f s2]], elim exE conjE)
      fix u d3 es2 pb ps x
      assume u: "utf8_encode path = Inr pb" "is_download ps x"
          "sync_exchange (sync_packet RECV (int (length pb)) pb) FILESYNC_PULL_FORMAT ps es2"
        and s3: "sunk d x d3" and t3: "talked (d0\<lparr>dev_local_id := l\<rparr>) ((es @ eo) @ es2) d3"
      show "wp False (io_then (dev_clse H info) (io_return u)) ?Q (\<lambda>_ _. True) d3"
        unfolding wp_bind wp_return
        by (rule wp_mono [OF wp_conj [OF session_close [OF t3 [unfolded append_assoc] o eo]
              keepsD [OF sunk_kept [OF stream_world(3) [OF content_kept]] s3]]])
          (use u in blast)+
    qed simp
  qed simp
  qed simp
qed

end

section \<open>Pushing a file\<close>

lemma max_chunk_size_bounds:
  assumes "0 \<le> maxdata d"
  shows "0 < max_chunk_size d" and "max_chunk_size d \<le> MAX_CHUNK_SIZE"
    and "2 \<le> maxdata d \<Longrightarrow> 2 * max_chunk_size d \<le> maxdata d"
  using assms by (auto simp: max_chunk_size_def Let_def MAX_CHUNK_SIZE_def MAX_PUSH_DATA_def)

lemma talked_chunk: "maxdata d = maxdata d0 \<Longrightarrow> max_chunk_size d = max_chunk_size d0"
  by (simp add: max_chunk_size_def)

text \<open>The \<open>DATA\<close> packets for the pieces \<open>xs\<close> of a file, and the pieces a device allows.\<close>

definition data_packets :: "bytes list \<Rightarrow> bytes" where
  "data_packets xs = concat (map (\<lambda>x. sync_packet DATA (int (length x)) x) xs)"

lemma data_packets_simps [simp]:
  "data_packets [] = []"
  "data_packets (xs @ [x]) = data_packets xs @ sync_packet DATA (int (length x)) x"
  by (simp_all add: data_packets_def)

definition chunked :: "'w adb_device \<Rightarrow> bytes list \<Rightarrow> bool" where
  "chunked d xs \<longleftrightarrow> (\<forall>x \<in> set xs. x \<noteq> [] \<and> int (length x) \<le> max_chunk_size d)"

lemma reply_fields:
  assumes "sync_frame FILESYNC_PUSH_FORMAT p f" and "fst p \<noteq> STAT"
  shows "\<exists>y. p = (fst p, [], Some y)"
proof -
  obtain hdr header data where "struct_unpack FILESYNC_PUSH_FORMAT hdr = Inr header"
    "snd p = (butlast (tl header), Some data)"
    using assms by (auto simp: sync_frame_def)
  moreover from this(1) have "length header = 2"
    by (auto simp: struct_unpack_def FILESYNC_PUSH_FORMAT_def split: if_splits)
  ultimately have "butlast (tl header) = []" and "snd p = ([], Some data)"
    by (auto simp: length_Suc_conv numeral_2_eq_2)
  then show ?thesis by (metis prod.collapse)
qed

lemma one_file:
  "get_files_to_push H (LBytesIO s) path = io_return (False, [LBytesIO s], [path])"
  by (simp add: get_files_to_push_def)

lemma on_world_return: "on_world (io_return x) = io_return x"
  by (simp add: on_world_def on_io_def on_transport_def io_zoom_def io_return_def fun_eq_iff)

context file_source
begin

abbreviation remain :: "'a adb_device \<Rightarrow> bytes" where
  "remain d \<equiv> remaining (transport_state (io_manager d))"

lemma source_read:
  assumes "talked d0 es d" and "0 < n"
  shows "wp False (on_world (st_read source n))
    (\<lambda>x d'. talked d0 es d' \<and> remain d = x @ remain d' \<and> int (length x) \<le> n \<and> (x = [] \<longrightarrow> remain d = []))
    (\<lambda>_ _. True) d"
proof (rule wp_mono [OF wp_conj [OF talked_quiet [OF assms(1) read_quiet]]])
  show "wp False (on_world (st_read source n))
      (\<lambda>x d'. remain d = x @ remain d' \<and> int (length x) \<le> n \<and> (x = [] \<longrightarrow> remain d = []))
      (\<lambda>_ _. True) d"
    unfolding on_world_def wp_on_io wp_on_transport
    by (rule wp_mono [OF read_remaining [OF assms(2)]]) auto
qed auto

lemma remain_kept:
  assumes "\<And>c. keeps (of_world (\<lambda>w. remaining w = c)) p"
  shows "keeps (\<lambda>d'. remain d' = x) p"
  using assms unfolding keeps_def of_world_def by blast

lemma push_chunks_spec:
  assumes t: "talked d0 es d" and o: "opened info l r" and ok: "fsi_ok fsi" and md: "0 \<le> maxdata d0"
  shows "wp False (push_chunks H source path None n info fsi)
    (\<lambda>fsi' d'. \<exists>xs es'. remain d = concat xs \<and> chunked d0 xs \<and>
       wrte_out es' @ pending_out fsi' = pending_out fsi @ data_packets xs \<and> wrte_in es' = [] \<and>
       fsi_ok fsi' \<and> same_recv fsi fsi' \<and> talked d0 (es @ es') d')
    (\<lambda>_ _. True) d"
  (is "wp False _ ?Q _ d")
proof -
  define I where "I = (\<lambda>fsi1 d1. \<exists>xs es'. remain d = concat xs @ remain d1 \<and> chunked d0 xs \<and>
     wrte_out es' @ pending_out fsi1 = pending_out fsi @ data_packets xs \<and> wrte_in es' = [] \<and>
     fsi_ok fsi1 \<and> same_recv fsi fsi1 \<and> talked d0 (es @ es') d1)"
  have step: "wp False (push_chunks_body H source path None n info fsi1) (loop_post I ?Q) (\<lambda>_ _. True) d1"
    if inv: "I fsi1 d1" for fsi1 d1
  proof -
    obtain xs es1 where x: "remain d = concat xs @ remain d1" "chunked d0 xs"
      "wrte_out es1 @ pending_out fsi1 = pending_out fsi @ data_packets xs" "wrte_in es1 = []"
      "fsi_ok fsi1" "same_recv fsi fsi1" "talked d0 (es @ es1) d1"
      using inv by (auto simp: I_def)
    have cs: "max_chunk_size d1 = max_chunk_size d0"
      by (rule talked_chunk) (rule talked_sel [OF x(7)])
    show ?thesis
      unfolding push_chunks_body_def
    proof (subst wp_bind, subst wp_gets, unfold cs, subst wp_bind,
        rule wp_mono [OF source_read [OF x(7) max_chunk_size_bounds(1) [OF md]]], elim conjE)
      fix y d2
      assume t2: "talked d0 (es @ es1) d2" and y: "remain d1 = y @ remain d2" "int (length y) \<le> max_chunk_size d0"
        and e: "y = [] \<longrightarrow> remain d1 = []"
      show "wp False (if y \<noteq> [] then io_bind (filesync_send H DATA info fsi1 (PyBytes y) None) (\<lambda>fsi'.
            io_then (call_progress None path (int (length y)) n) (io_return (Continue fsi')))
          else io_return (Break fsi1)) (loop_post I ?Q) (\<lambda>_ _. True) d2"
      proof (cases "y = []")
        case True
        with x t2 e show ?thesis by (auto simp: wp_return)
      next
        case False
        have "wp False (filesync_send H DATA info fsi1 (PyBytes y) None) (\<lambda>fsi2 d3. I fsi2 d3) (\<lambda>_ _. True) d2"
        proof (rule wp_mono [OF wp_conj [OF filesync_send_spec [OF t2 o x(5)]
              keepsD [OF remain_kept [OF filesync_world(2) [OF remaining_kept]] refl]]], elim exE conjE)
          fix fsi2 d3 bs sz es2
          assume "data_bytes (PyBytes y) = Inr bs" "sz = (case None of None \<Rightarrow> int (length bs) | Some n \<Rightarrow> n)"
            and out: "wrte_out es2 @ pending_out fsi2 = pending_out fsi1 @ sync_packet DATA sz bs"
            and inn: "wrte_in es2 = []" and ok2: "fsi_ok fsi2" and sr: "same_recv fsi1 fsi2"
            and t3: "talked d0 ((es @ es1) @ es2) d3" and rm: "remain d3 = remain d2"
          then have "wrte_out (es1 @ es2) @ pending_out fsi2 = pending_out fsi @ data_packets (xs @ [y])"
            using x(3) by (simp add: data_bytes_def)
          moreover have "remain d = concat (xs @ [y]) @ remain d3" using x(1) y(1) rm by simp
          moreover have "chunked d0 (xs @ [y])" using x(2) y(2) False by (auto simp: chunked_def)
          moreover have "same_recv fsi fsi2" using x(6) sr by (simp add: same_recv_def)
          moreover have "wrte_in (es1 @ es2) = []" using x(4) inn by simp
          moreover have "talked d0 (es @ (es1 @ es2)) d3" using t3 by simp
          ultimately show "I fsi2 d3" using ok2 unfolding I_def by blast
        qed simp
        with False show ?thesis
          by (auto simp: wp_bind wp_return call_progress_def elim!: wp_mono)
      qed
    qed simp
  qed
  have "I fsi d"
    unfolding I_def using t ok by (auto simp: same_recv_def chunked_def intro!: exI [of _ "[]"])
  then show ?thesis
    unfolding push_chunks_def by (intro loop_partial [where I = I, OF step])
qed

lemma append_eq_trans:
  "a @ p1 = p0 @ x \<Longrightarrow> b @ p2 = p1 @ y \<Longrightarrow> c @ p3 = p2 @ z \<Longrightarrow> (a @ b @ c) @ p3 = p0 @ x @ y @ z"
  by (metis append.assoc)

lemma mtime_spec:
  assumes "talked d0 es d"
  shows "wp False (push_mtime H mtime) (\<lambda>mt d'. (mtime \<noteq> 0 \<longrightarrow> mt = mtime) \<and> talked d0 es d') (\<lambda>_ _. True) d"
  using assms unfolding push_mtime_def
  by (auto simp: wp_bind wp_return intro!: wp_mono [OF talked_time])

lemma push_reply_spec:
  assumes t: "talked d0 es d" and o: "opened info l r" and ok: "fsi_ok fsi"
    and fmt: "recv_message_format fsi = FILESYNC_PUSH_FORMAT" "recv_buffer fsi = []"
  shows "wp False (filesync_for H [] [OKAY, FAIL] info push_reply fsi ())
    (\<lambda>_ d'. \<exists>bs es' y rest. are_sync_frames FILESYNC_PUSH_FORMAT [(OKAY, [], Some y)] bs \<and>
       wrte_in es' = bs @ rest \<and> wrte_out es' = pending_out fsi \<and> talked d0 (es @ es') d')
    (\<lambda>_ _. True) d"
proof -
  let ?K = "\<lambda>ps (_ :: unit) (_ :: 'a adb_device). \<exists>y. ps = [(OKAY, [], Some y)]"
  have "wp False (filesync_for H [] [OKAY, FAIL] info push_reply fsi ())
    (\<lambda>(b, fsi') d'. \<exists>ps bs es'. (\<exists>y. ps = [(OKAY, [], Some y)]) \<and> are_sync_frames (recv_message_format fsi) ps bs \<and>
       recv_buffer fsi @ wrte_in es' = bs @ recv_buffer fsi' \<and> wrte_out es' = pending_out fsi \<and>
       flushed fsi fsi' \<and> talked d0 (es @ es') d') (\<lambda>_ _. True) d"
  proof (rule filesync_for_spec [where J = "\<lambda>ps _ _. ps = []" and K = ?K, OF t o ok])
    fix ps :: "fs_packet list" and p :: fs_packet and u :: unit and es1 d1
    assume t1: "talked d0 es1 d1" and ps: "ps = []" and p: "fst p \<in> set ([] @ [OKAY, FAIL])"
      and f: "\<exists>f. sync_frame (recv_message_format fsi) p f"
    show "wp False (push_reply p u) (\<lambda>c d2. talked d0 es1 d2 \<and> (case c of
        Continue b \<Rightarrow> if fst p \<in> set [OKAY, FAIL] then \<exists>y. ps @ [p] = [(OKAY, [], Some y)] else ps @ [p] = []
      | Break b \<Rightarrow> \<exists>y. ps @ [p] = [(OKAY, [], Some y)])) (\<lambda>_ _. True) d1"
      using t1 ps f fmt(1) reply_fields [of p]
      by (cases p) (auto simp: push_reply_def wp_return wp_raise)
  qed (auto simp: keeps_def wp_def split: option.split sum.split)
  then show ?thesis
  proof (rule wp_mono)
    fix x d'
    assume "(case x of (b, fsi') \<Rightarrow> \<lambda>d'. \<exists>ps bs es'. (\<exists>y. ps = [(OKAY, [], Some y)]) \<and>
       are_sync_frames (recv_message_format fsi) ps bs \<and> recv_buffer fsi @ wrte_in es' = bs @ recv_buffer fsi' \<and>
       wrte_out es' = pending_out fsi \<and> flushed fsi fsi' \<and> talked d0 (es @ es') d') d'"
    then obtain bs es' y where "are_sync_frames FILESYNC_PUSH_FORMAT [(OKAY, [], Some y)] bs"
      "wrte_in es' = bs @ recv_buffer (snd x)" "wrte_out es' = pending_out fsi" "talked d0 (es @ es') d'"
      unfolding fmt by (cases x) (auto simp del: are_sync_frames.simps)
    then show "\<exists>bs es' y rest. are_sync_frames FILESYNC_PUSH_FORMAT [(OKAY, [], Some y)] bs \<and>
       wrte_in es' = bs @ rest \<and> wrte_out es' = pending_out fsi \<and> talked d0 (es @ es') d'"
      by blast
  qed simp
qed

lemma push_stream_spec:
  assumes t: "talked d0 es d" and o: "opened info l r" and f: "fresh_fsi FILESYNC_PUSH_FORMAT md fsi"
    and md: "0 \<le> maxdata d0"
  shows "wp False (push_stream H source path mode mtime None info fsi)
    (\<lambda>_ d'. \<exists>es' fi xs mt y. push_fileinfo path mode = Inr fi \<and> remain d = concat xs \<and> chunked d0 xs \<and>
       (mtime \<noteq> 0 \<longrightarrow> mt = mtime) \<and>
       sync_exchange (sync_packet SEND (int (length fi)) fi @ data_packets xs @ sync_packet DONE mt [])
         FILESYNC_PUSH_FORMAT [(OKAY, [], Some y)] es' \<and>
       talked d0 (es @ es') d') (\<lambda>_ _. True) d"
  (is "wp False _ ?Q _ d")
proof (cases "push_fileinfo path mode")
  case (Inl e)
  then show ?thesis by (simp add: push_stream_def wp_raise)
next
  case (Inr fi)
  have fok: "fsi_ok fsi" using f by (simp add: fresh_fsi_def)
  have eq: "push_stream H source path mode mtime None info fsi =
      io_bind (filesync_send H SEND info fsi (PyBytes fi) None) (\<lambda>fsi1.
      io_bind (push_chunks H source path None 0 info fsi1) (\<lambda>fsi2.
      io_bind (push_mtime H mtime) (\<lambda>mt.
      io_bind (filesync_send H DONE info fsi2 (PyBytes []) (Some mt)) (\<lambda>fsi3.
      io_then (filesync_for H [] [OKAY, FAIL] info push_reply fsi3 ()) (io_return ())))))"
    by (simp add: push_stream_def Inr)
  show ?thesis
    unfolding eq
  proof (subst wp_bind, rule wp_mono [OF wp_conj [OF filesync_send_spec [OF t o fok]
        keepsD [OF remain_kept [OF filesync_world(2) [OF remaining_kept]] refl]]], elim exE conjE)
    fix fsi1 d1 bs sz es1
    assume s1: "data_bytes (PyBytes fi) = Inr bs" "sz = (case None of None \<Rightarrow> int (length bs) | Some n \<Rightarrow> n)"
      "wrte_out es1 @ pending_out fsi1 = pending_out fsi @ sync_packet SEND sz bs" "wrte_in es1 = []"
      and ok1: "fsi_ok fsi1" and sr1: "same_recv fsi fsi1" and t1: "talked d0 (es @ es1) d1" and rm: "remain d1 = remain d"
    show "wp False (io_bind (push_chunks H source path None 0 info fsi1) (\<lambda>fsi2.
        io_bind (push_mtime H mtime) (\<lambda>mt.
        io_bind (filesync_send H DONE info fsi2 (PyBytes []) (Some mt)) (\<lambda>fsi3.
        io_then (filesync_for H [] [OKAY, FAIL] info push_reply fsi3 ()) (io_return ()))))) ?Q (\<lambda>_ _. True) d1"
    proof (subst wp_bind, rule wp_mono [OF push_chunks_spec [OF t1 o ok1 md]], elim exE conjE)
      fix fsi2 d2 xs es2
      assume s2: "remain d1 = concat xs" "chunked d0 xs"
        "wrte_out es2 @ pending_out fsi2 = pending_out fsi1 @ data_packets xs" "wrte_in es2 = []"
        and ok2: "fsi_ok fsi2" and sr2: "same_recv fsi1 fsi2" and t2: "talked d0 ((es @ es1) @ es2) d2"
      show "wp False (io_bind (push_mtime H mtime) (\<lambda>mt.
          io_bind (filesync_send H DONE info fsi2 (PyBytes []) (Some mt)) (\<lambda>fsi3.
          io_then (filesync_for H [] [OKAY, FAIL] info push_reply fsi3 ()) (io_return ())))) ?Q (\<lambda>_ _. True) d2"
      proof (subst wp_bind, rule wp_mono [OF mtime_spec [OF t2]], elim conjE)
        fix mt d3 assume mt: "mtime \<noteq> 0 \<longrightarrow> mt = mtime" and t3: "talked d0 ((es @ es1) @ es2) d3"
        show "wp False (io_bind (filesync_send H DONE info fsi2 (PyBytes []) (Some mt)) (\<lambda>fsi3.
            io_then (filesync_for H [] [OKAY, FAIL] info push_reply fsi3 ()) (io_return ()))) ?Q (\<lambda>_ _. True) d3"
        proof (subst wp_bind, rule wp_mono [OF filesync_send_spec [OF t3 o ok2]], elim exE conjE)
          fix fsi3 d4 bs' sz' es3
          assume s3: "data_bytes (PyBytes []) = Inr bs'" "sz' = (case Some mt of None \<Rightarrow> int (length bs') | Some n \<Rightarrow> n)"
            "wrte_out es3 @ pending_out fsi3 = pending_out fsi2 @ sync_packet DONE sz' bs'" "wrte_in es3 = []"
            and ok3: "fsi_ok fsi3" and sr3: "same_recv fsi2 fsi3" and t4: "talked d0 (((es @ es1) @ es2) @ es3) d4"
          have fmt: "recv_message_format fsi3 = FILESYNC_PUSH_FORMAT" "recv_buffer fsi3 = []"
            using f sr1 sr2 sr3 by (auto simp: fresh_fsi_def same_recv_def)
          have out: "wrte_out (es1 @ es2 @ es3) @ pending_out fsi3 =
              sync_packet SEND (int (length fi)) fi @ data_packets xs @ sync_packet DONE mt []"
            using s1(1,2) s3(1,2) fresh_pending [OF f] append_eq_trans [OF s1(3) s2(3) s3(3)]
            by (simp add: data_bytes_def)
          have inn: "wrte_in (es1 @ es2 @ es3) = []" using s1(4) s2(4) s3(4) by simp
          show "wp False (io_then (filesync_for H [] [OKAY, FAIL] info push_reply fsi3 ()) (io_return ()))
              ?Q (\<lambda>_ _. True) d4"
          proof (subst wp_bind, rule wp_mono [OF push_reply_spec [OF t4 o ok3 fmt]], elim exE conjE)
            fix u d5 bs es4 y rest
            assume r: "are_sync_frames FILESYNC_PUSH_FORMAT [(OKAY, [], Some y)] bs"
              "wrte_in es4 = bs @ rest" "wrte_out es4 = pending_out fsi3"
              "talked d0 ((((es @ es1) @ es2) @ es3) @ es4) d5"
            have "sync_exchange (sync_packet SEND (int (length fi)) fi @ data_packets xs @ sync_packet DONE mt [])
                FILESYNC_PUSH_FORMAT [(OKAY, [], Some y)] (es1 @ es2 @ es3 @ es4)"
              using out inn r(1-3) unfolding sync_exchange_def by (intro conjI exI [of _ bs] exI [of _ rest]) auto
            moreover have "talked d0 (es @ (es1 @ es2 @ es3 @ es4)) d5" using r(4) by simp
            moreover have "remain d = concat xs" using s2(1) rm by simp
            ultimately show "wp False (io_return ()) ?Q (\<lambda>_ _. True) d5"
              unfolding wp_return using s2(2) mt Inr by blast
          qed simp
        qed simp
      qed simp
    qed simp
  qed simp
qed

text \<open>A whole push of the source.\<close>

lemma remain_sel [simp]: "remain (d\<lparr>dev_local_id := i\<rparr>) = remain d"
  by simp

lemma push_spec:
  assumes t: "talked d0 es d" and md: "0 \<le> maxdata d0"
  defines "l \<equiv> next_local_id (dev_local_id d0)"
  shows "wp False (dev_push H (LBytesIO source) path mode mtime None tt rt)
    (\<lambda>_ d'. \<exists>es1 es' fi xs mt y. push_fileinfo path mode = Inr fi \<and> remain d = concat xs \<and>
       chunked (d0\<lparr>dev_local_id := l\<rparr>) xs \<and> (mtime \<noteq> 0 \<longrightarrow> mt = mtime) \<and>
       sync_exchange (sync_packet SEND (int (length fi)) fi @ data_packets xs @ sync_packet DONE mt [])
         FILESYNC_PUSH_FORMAT [(OKAY, [], Some y)] es1 \<and>
       is_session l (bytes_lit ''sync:'') es1 es' \<and> talked (d0\<lparr>dev_local_id := l\<rparr>) (es @ es') d')
    (\<lambda>_ _. True) d"
  (is "wp False _ ?Q _ d")
proof -
  have nf: "keeps (\<lambda>d'. remain d' = x) (new_filesync FILESYNC_PUSH_FORMAT :: ('a adb_device, filesync_info) prog)" for x
    unfolding new_filesync_def by (intro keeps_intros)
  show ?thesis
    unfolding dev_push_def one_file on_world_return
  proof (rule wp_guarded, unfold wp_bind wp_return prod.case if_False
      zip.simps zip_Cons_Cons list.case push_files.simps with_stream_def local_path.case)
    show "wp False (dev_open H (bytes_lit ''sync:'') tt rt None) (\<lambda>info. wp False (new_filesync FILESYNC_PUSH_FORMAT)
         (\<lambda>fsi. wp False (push_stream H source path mode mtime None info fsi)
           (\<lambda>_. wp False (dev_clse H info) (\<lambda>_. ?Q ()) (\<lambda>_ _. True)) (\<lambda>_ _. True)) (\<lambda>_ _. True)) (\<lambda>_ _. True) d"
    proof (rule wp_mono [OF wp_conj [OF sync_open_spec [OF t, folded l_def]
        keepsD [OF remain_kept [OF stream_world(4) [OF remaining_kept]] refl]]], elim exE conjE)
      fix info d1 r eo
      assume o: "opened info l r" and eo: "is_open l r (bytes_lit ''sync:'') eo"
        and t1: "talked (d0\<lparr>dev_local_id := l\<rparr>) (es @ eo) d1" and s1: "remain d1 = remain d"
      show "wp False (new_filesync FILESYNC_PUSH_FORMAT) (\<lambda>fsi. wp False (push_stream H source path mode mtime None info fsi)
          (\<lambda>_. wp False (dev_clse H info) (\<lambda>_. ?Q ()) (\<lambda>_ _. True)) (\<lambda>_ _. True)) (\<lambda>_ _. True) d1"
      proof (rule wp_mono [OF wp_conj [OF new_filesync_spec [OF t1] keepsD [OF nf s1]]], elim conjE)
        fix fsi d2
        assume f: "fresh_fsi FILESYNC_PUSH_FORMAT (maxdata (d0\<lparr>dev_local_id := l\<rparr>)) fsi"
          and t2: "talked (d0\<lparr>dev_local_id := l\<rparr>) (es @ eo) d2" and s2: "remain d2 = remain d"
        have md': "0 \<le> maxdata (d0\<lparr>dev_local_id := l\<rparr>)" using md by simp
        show "wp False (push_stream H source path mode mtime None info fsi)
            (\<lambda>_. wp False (dev_clse H info) (\<lambda>_. ?Q ()) (\<lambda>_ _. True)) (\<lambda>_ _. True) d2"
        proof (rule wp_mono [OF push_stream_spec [OF t2 o f md']], elim exE conjE, unfold s2)
          fix u d3 es2 fi xs mt y
          assume u: "push_fileinfo path mode = Inr fi" "remain d = concat xs" "chunked (d0\<lparr>dev_local_id := l\<rparr>) xs"
              "mtime \<noteq> 0 \<longrightarrow> mt = mtime"
              "sync_exchange (sync_packet SEND (int (length fi)) fi @ data_packets xs @ sync_packet DONE mt [])
                 FILESYNC_PUSH_FORMAT [(OKAY, [], Some y)] es2"
            and t3: "talked (d0\<lparr>dev_local_id := l\<rparr>) ((es @ eo) @ es2) d3"
          show "wp False (dev_clse H info) (\<lambda>_. ?Q ()) (\<lambda>_ _. True) d3"
            by (rule wp_mono [OF session_close [OF t3 [unfolded append_assoc] o eo]]) (use u in blast)+
        qed simp
      qed simp
    qed simp
  qed
qed

end

end
