(* ===== verification/Device_Live.thy ===== *)
theory Device_Live
  imports IO_Manager_Progress File_Sync_Spec
begin

text \<open>
  The operations of \<open>AdbDevice\<close> return or raise, whatever the device sends: each round of their
  loops takes a packet, and what is left to be read is finite. The proofs are by a potential:
  \<open>fades v p P r d\<close> says that \<open>p\<close> ends from \<open>d\<close> and pays for what it leaves.
\<close>

text \<open>The exchange with the device takes place under a finite transport timeout.\<close>

definition timed :: "transaction_info \<Rightarrow> bool" where
  "timed info \<longleftrightarrow> transport_timeout_s info \<noteq> None"

context timed_host
begin

section \<open>Amortised termination\<close>

definition dweight :: "'w adb_device \<Rightarrow> nat" where
  "dweight d = weight (io_manager d) + fuel (transport_state (io_manager d))"

lemma dweight_sel [simp]:
  "dweight (d\<lparr>available := b\<rparr>) = dweight d" "dweight (d\<lparr>dev_local_id := i\<rparr>) = dweight d"
  "dweight (d\<lparr>banner := bn\<rparr>) = dweight d" "dweight (d\<lparr>maxdata := n\<rparr>) = dweight d"
  by (simp_all add: dweight_def)

text \<open>
  With \<open>v\<close> in hand, \<open>p\<close> ends; if it returns \<open>x\<close> then \<open>P x\<close> holds and \<open>r x\<close> is left over
  after paying for what the weight of the device has grown (and gained from its fall).
\<close>

definition fades ::
  "nat \<Rightarrow> ('w adb_device, 'a) prog \<Rightarrow> ('a \<Rightarrow> bool) \<Rightarrow> ('a \<Rightarrow> nat) \<Rightarrow> 'w adb_device \<Rightarrow> bool" where
  "fades v p P r d \<longleftrightarrow>
     wp True p (\<lambda>x d'. P x \<and> dweight d' + r x \<le> dweight d + v) (\<lambda>_ d'. dweight d' \<le> dweight d + v) d"

lemma fades_conseq:
  assumes "fades v p P r d" and "v \<le> v'" and "\<And>x. P x \<Longrightarrow> Q x \<and> h x + v \<le> r x + v'"
  shows "fades v' p Q h d"
  unfolding fades_def
proof (rule wp_mono [OF assms(1) [unfolded fades_def]])
  fix x d' assume "P x \<and> dweight d' + r x \<le> dweight d + v"
  with assms(3) [of x] show "Q x \<and> dweight d' + h x \<le> dweight d + v'" by auto
qed (use assms(2) in auto)

lemma fades_bind:
  assumes p: "fades v p P r d" and f: "\<And>x d1. P x \<Longrightarrow> fades (r x) (f x) Q h d1"
  shows "fades v (io_bind p f) Q h d"
  unfolding fades_def wp_bind
proof (rule wp_mono [OF p [unfolded fades_def]])
  fix x d1 assume x: "P x \<and> dweight d1 + r x \<le> dweight d + v"
  show "wp True (f x) (\<lambda>y d'. Q y \<and> dweight d' + h y \<le> dweight d + v) (\<lambda>_ d'. dweight d' \<le> dweight d + v) d1"
    by (rule wp_mono [OF f [unfolded fades_def]]) (use x in auto)
qed

abbreviation ends_dev :: "('w adb_device, 'a) prog \<Rightarrow> 'w adb_device \<Rightarrow> bool" where
  "ends_dev p \<equiv> fades 0 p (\<lambda>_. True) (\<lambda>_. 0)"

lemma fades_simple:
  "P x \<Longrightarrow> r x \<le> v \<Longrightarrow> fades v (io_return x) P r d"
  "fades v (io_raise e) P r d"
  "P (g d) \<Longrightarrow> r (g d) \<le> v \<Longrightarrow> fades v (io_gets g) P r d"
  "(\<And>x. y = Inr x \<Longrightarrow> P x \<and> r x \<le> v) \<Longrightarrow> fades v (io_lift y) P r d"
  by (auto simp: fades_def wp_simps split: sum.split)

lemma fades_finally:
  assumes p: "fades v p P r d" and c: "\<And>d. ends_dev c d"
  shows "fades v (io_finally p c) P r d"
  unfolding fades_def wp_finally
  by (rule wp_mono [OF p [unfolded fades_def]]; rule wp_mono [OF c [unfolded fades_def]]) auto

lemma fades_catch:
  assumes p: "ends_dev p d" and h: "\<And>e d. ends_dev (h e) d"
  shows "ends_dev (io_catch p h) d"
  unfolding fades_def wp_catch
proof (rule wp_mono [OF p [unfolded fades_def]])
  fix e d1 assume "dweight d1 \<le> dweight d + 0"
  then show "wp True (h e) (\<lambda>_ d'. True \<and> dweight d' + 0 \<le> dweight d + 0) (\<lambda>_ d'. dweight d' \<le> dweight d + 0) d1"
    by (intro wp_mono [OF h [unfolded fades_def]]) auto
qed auto

text \<open>A loop ends if every round that goes on leaves less in hand than it took.\<close>

lemma fades_loop:
  assumes body: "\<And>a d. I a \<Longrightarrow> fades (v a) (body a)
      (\<lambda>c. case c of Continue a' \<Rightarrow> I a' | Break b \<Rightarrow> P b)
      (\<lambda>c. case c of Continue a' \<Rightarrow> Suc (v a') | Break b \<Rightarrow> r b) d"
    and init: "I a"
  shows "fades (v a) (io_loop body a) P r d"
  unfolding fades_def
proof (rule loop_total [where I = "\<lambda>a' d'. I a' \<and> dweight d' + v a' \<le> dweight d + v a"
      and \<mu> = "\<lambda>a' d'. dweight d' + v a'"])
  fix a' d1 assume a: "I a' \<and> dweight d1 + v a' \<le> dweight d + v a"
  show "wp True (body a') (loop_post (\<lambda>b d'. (I b \<and> dweight d' + v b \<le> dweight d + v a) \<and>
        dweight d' + v b < dweight d1 + v a') (\<lambda>x d'. P x \<and> dweight d' + r x \<le> dweight d + v a))
      (\<lambda>_ d'. dweight d' \<le> dweight d + v a) d1"
    by (rule wp_mono [OF body [unfolded fades_def]]) (use a in \<open>auto split: loop_ctl.splits\<close>)
qed (use init in simp)

section \<open>Streams\<close>

lemma fades_io:
  assumes "wp True p (\<lambda>x m'. weight m' + r x \<le> weight m) (\<lambda>_ m'. weight m' \<le> weight m) m"
    and "\<And>c. keeps (of_transport (\<lambda>w. fuel w \<le> c)) p" and "m = io_manager d"
  shows "fades 0 (on_io p) (\<lambda>_. True) r d"
proof -
  have "wp False p (\<lambda>_ m'. fuel (transport_state m') \<le> fuel (transport_state m))
      (\<lambda>_ m'. fuel (transport_state m') \<le> fuel (transport_state m)) m"
    by (rule wp_mono [OF keepsD [OF assms(2) [of "fuel (transport_state m)"]]]) (simp_all add: of_transport_def)
  from wp_total_from [OF wp_conj [OF wp_weaken [OF assms(1)] this] assms(1)] show ?thesis
    unfolding fades_def on_io_def wp_zoom assms(3)
    by (rule wp_mono) (auto simp: dweight_def)
qed

lemma fades_send:
  assumes "timed info"
  shows "ends_dev (on_io (send_new H c a0 a1 x info)) d"
proof (rule fades_io [where m = "io_manager d"])
  obtain t where t: "transport_timeout_s info = Some t" using assms by (auto simp: timed_def)
  show "wp True (send_new H c a0 a1 x info) (\<lambda>y m'. weight m' + 0 \<le> weight (io_manager d))
      (\<lambda>_ m'. weight m' \<le> weight (io_manager d)) (io_manager d)"
    using wp_total_from [OF send_new_weight send_new_ends [OF t, unfolded ends_def]] by simp
qed (simp_all add: send_new_world [OF fuel_kept])

lemma fades_read:
  assumes "timed info"
  shows "fades 0 (on_io (io_read H cmds info z)) (\<lambda>_. True) (\<lambda>p. Suc (length (snd (snd (snd p))))) d"
proof (rule fades_io [where m = "io_manager d"])
  obtain t where t: "transport_timeout_s info = Some t" using assms by (auto simp: timed_def)
  show "wp True (io_read H cmds info z)
      (\<lambda>p m'. weight m' + Suc (length (snd (snd (snd p)))) \<le> weight (io_manager d))
      (\<lambda>_ m'. weight m' \<le> weight (io_manager d)) (io_manager d)"
    by (rule wp_mono [OF wp_total_from [OF io_read_takes io_read_ends [OF t, unfolded ends_def]]])
      (simp_all add: taken_def)
qed (simp_all add: io_read_world [OF fuel_kept])

lemma fades_time: "ends_dev (on_world (tr_time H)) d"
  unfolding on_world_def
proof (rule fades_io [where m = "io_manager d"])
  show "wp True (on_transport (tr_time H)) (\<lambda>x m'. weight m' + 0 \<le> weight (io_manager d))
      (\<lambda>_ m'. weight m' \<le> weight (io_manager d)) (io_manager d)"
    by (rule wp_total_from [OF _ time_ends], rule wp_mono [OF time_spec]) (auto dest: weight_same)
qed (simp_all add: of_transport_calls [OF fuel_kept])

lemma open_fades: "fades 0 (dev_open H dest tt rt t) timed (\<lambda>_. 1) d"
  unfolding dev_open_def
proof (rule fades_bind [where P = "\<lambda>_. True" and r = "\<lambda>_. 0"])
  show "ends_dev (io_modify (\<lambda>d. d\<lparr>dev_local_id := next_local_id (dev_local_id d)\<rparr>)) d"
    by (simp add: fades_def wp_modify)
next
  fix x d1
  show "fades 0 (io_bind (io_gets (\<lambda>d. AdbTransactionInfo (Some (dev_local_id d)) None
        (get_transport_timeout_s tt d) rt t)) (\<lambda>info.
      io_then (on_io (send_new H OPEN (local_id info) (Some 0) (dest @ [0]) info))
        (io_bind (on_io (io_read H [OKAY] info False))
          (\<lambda>(_, remote, _, _). io_return (info\<lparr>remote_id := Some remote\<rparr>))))) timed (\<lambda>_. 1) d1"
  proof (rule fades_bind [where P = timed and r = "\<lambda>_. 0"])
    show "fades 0 (io_gets (\<lambda>d. AdbTransactionInfo (Some (dev_local_id d)) None
        (get_transport_timeout_s tt d) rt t)) timed (\<lambda>_. 0) d1"
      using transport_timeout_finite by (auto intro!: fades_simple simp: timed_def)
  qed (rule fades_bind [OF fades_send], assumption, rule fades_bind [OF fades_read],
      auto simp: timed_def intro!: fades_simple)
qed

lemma open_fades': "fades 0 (dev_open H dest tt rt t) timed (\<lambda>_. 0) d"
  by (rule fades_conseq [OF open_fades]) auto

lemma okay_fades: "timed info \<Longrightarrow> ends_dev (dev_okay H info) d"
  unfolding dev_okay_def by (rule fades_send)

lemma read_until_fades:
  assumes "timed info"
  shows "fades 0 (read_until H cmds info) (\<lambda>_. True) (\<lambda>(_, x). Suc (length x)) d"
  unfolding read_until_def
proof (rule fades_bind [OF fades_read [OF assms]])
  fix p :: packet and d1
  obtain c a b x where p: "p = (c, a, b, x)" by (cases p)
  have "fades (Suc (length x)) (dev_okay H info) (\<lambda>_. True) (\<lambda>_. Suc (length x)) d1"
    by (rule fades_conseq [OF okay_fades [OF assms]]) auto
  then show "fades (Suc (length (snd (snd (snd p))))) (case p of (cmd, _, _, data) \<Rightarrow>
      if cmd = WRTE then io_then (dev_okay H info) (io_return (cmd, data)) else io_return (cmd, data))
      (\<lambda>_. True) (\<lambda>(_, x). Suc (length x)) d1"
    by (auto simp: p intro!: fades_simple intro: fades_bind)
qed

lemma clse_fades:
  assumes "timed info"
  shows "ends_dev (dev_clse H info) d"
  unfolding dev_clse_def
  by (rule fades_bind [OF fades_send [OF assms]], rule fades_bind [OF read_until_fades [OF assms]])
    (auto intro: fades_simple)

lemma read_until_close_fades:
  assumes t: "timed info" and body: "\<And>x a d. ends_dev (body x a) d"
  shows "ends_dev (read_until_close H info body acc) d"
  unfolding read_until_close_def
proof (rule fades_bind [OF fades_time], rule fades_loop [where v = "\<lambda>_. 0" and I = "\<lambda>_. True"])
  fix start a d1
  show "fades 0 (read_until_close_body H info start body a)
      (\<lambda>c. case c of Continue a' \<Rightarrow> True | Break b \<Rightarrow> True)
      (\<lambda>c. case c of Continue a' \<Rightarrow> Suc 0 | Break b \<Rightarrow> 0) d1"
    unfolding read_until_close_body_def
  proof (rule fades_bind [OF read_until_fades [OF t]])
    fix y :: "cmd \<times> bytes" and d2
    obtain c x where y: "y = (c, x)" by (cases y)
    have close: "fades (Suc (length x)) (on_io (send_new H CLSE (local_id info) (remote_id info) [] info))
        (\<lambda>_. True) (\<lambda>_. 0) d2"
      by (rule fades_conseq [OF fades_send [OF t]]) auto
    have step: "fades (Suc (length x)) (body x a) (\<lambda>_. True) (\<lambda>_. 1) d2"
      by (rule fades_conseq [OF body]) auto
    have now: "fades (Suc 0) (on_world (tr_time H)) (\<lambda>_. True) (\<lambda>_. Suc 0) d3" for d3
      by (rule fades_conseq [OF fades_time]) auto
    show "fades (case y of (_, x) \<Rightarrow> Suc (length x)) (case y of (cmd, data) \<Rightarrow>
        if cmd = CLSE then io_then (on_io (send_new H CLSE (local_id info) (remote_id info) [] info))
          (io_return (Break a))
        else io_bind (body data a) (\<lambda>acc'. case timeout_s info of
            None \<Rightarrow> io_return (Continue acc')
          | Some t \<Rightarrow> io_bind (on_world (tr_time H)) (\<lambda>now.
              if now - start > t then io_raise AdbTimeoutError else io_return (Continue acc'))))
        (\<lambda>c. case c of Continue a' \<Rightarrow> True | Break b \<Rightarrow> True)
        (\<lambda>c. case c of Continue a' \<Rightarrow> Suc 0 | Break b \<Rightarrow> 0) d2"
      by (auto simp: y intro!: fades_bind [OF close] fades_bind [OF step] fades_bind [OF now] fades_simple
          split: option.split)
  qed
qed simp

lemma streaming_command_fades:
  "(\<And>x a d. ends_dev (body x a) d) \<Longrightarrow> ends_dev (streaming_command H s c tt rt t body acc) d"
  unfolding streaming_command_def
  by (rule fades_bind [OF open_fades']) (auto intro: read_until_close_fades)

lemma require_fades: "(\<And>d. ends_dev p d) \<Longrightarrow> ends_dev (require_available p) d"
  unfolding require_available_def
  by (rule fades_bind [where P = "\<lambda>_. True" and r = "\<lambda>_. 0"]) (auto intro: fades_simple)

lemma service_fades: "ends_dev (dev_service H s c tt rt t dec) d"
  unfolding dev_service_def
  by (rule fades_bind [OF streaming_command_fades]) (auto intro: fades_simple)

lemma fades_lift_bind: "(\<And>x d. ends_dev (f x) d) \<Longrightarrow> ends_dev (io_bind (io_lift y) f) d"
  by (rule fades_bind [where P = "\<lambda>_. True" and r = "\<lambda>_. 0"]) (auto intro: fades_simple)

lemma services_fade:
  "ends_dev (shell H cmd tt rt t dec) d" "ends_dev (exec_out H cmd tt rt t dec) d"
  "ends_dev (reboot H fb tt rt t) d" "ends_dev (root H tt rt t) d"
proof -
  have op: "ends_dev (dev_open H dest tt rt t) d" for dest d
    by (rule fades_conseq [OF open_fades]) auto
  show "ends_dev (shell H cmd tt rt t dec) d" "ends_dev (exec_out H cmd tt rt t dec) d"
    unfolding shell_def exec_out_def by (intro require_fades fades_lift_bind service_fades)+
  show "ends_dev (reboot H fb tt rt t) d" "ends_dev (root H tt rt t) d"
    unfolding reboot_def root_def
    by (auto intro!: require_fades fades_bind [OF op] fades_bind [OF service_fades] fades_simple)
qed

lemma streaming_shell_fades:
  "(\<And>x a d. ends_dev (body x a) d) \<Longrightarrow> ends_dev (streaming_shell H cmd tt rt dec body acc) d"
  unfolding streaming_shell_def streaming_service_def
  by (intro require_fades fades_lift_bind streaming_command_fades)

section \<open>FileSync\<close>

text \<open>What is in the receive buffer is in hand.\<close>

abbreviation buffered :: "filesync_info \<Rightarrow> nat" where
  "buffered fsi \<equiv> length (recv_buffer fsi)"

definition same_header :: "filesync_info \<Rightarrow> filesync_info \<Rightarrow> bool" where
  "same_header fsi fsi' \<longleftrightarrow> recv_message_size fsi' = recv_message_size fsi"

lemma flush_fades:
  assumes "timed info"
  shows "fades (buffered fsi) (filesync_flush H info fsi) (\<lambda>f. same_header fsi f \<and> send_idx f = 0) buffered d"
  unfolding filesync_flush_def
  by (rule fades_conseq [where v = 0],
      rule fades_bind [OF fades_send [OF assms]], rule fades_bind [OF read_until_fades [OF assms]],
      rule fades_simple(1) [where P = "\<lambda>f. f = fsi\<lparr>send_idx := 0\<rparr>" and r = "\<lambda>_. 0"])
    (auto simp: same_header_def)

lemma filesync_send_fades:
  assumes "timed info"
  shows "fades (buffered fsi) (filesync_send H c info fsi data n) (same_header fsi) buffered d"
proof -
  have flush: "fades (buffered fsi) (if b then filesync_flush H info fsi else io_return fsi) (same_header fsi) buffered d"
    for b d
    by (cases b) (auto intro!: fades_simple intro: fades_conseq [OF flush_fades [OF assms]] simp: same_header_def)
  show ?thesis
    unfolding filesync_send_def Let_def
    by (rule fades_bind [where P = "\<lambda>_. True" and r = "\<lambda>_. buffered fsi"], simp add: fades_simple,
        rule fades_bind [OF flush], rename_tac bs d1 f d2,
        rule_tac P = "\<lambda>_. True" and r = "\<lambda>_. buffered f" in fades_bind, simp add: fades_simple,
        rule_tac P = "\<lambda>_. True" and r = "\<lambda>_. buffered f" in fades_bind, simp add: fades_simple)
      (auto intro!: fades_simple simp: same_header_def buffer_packet_def)
qed

lemma read_buffered_fades:
  assumes "timed info"
  shows "fades (buffered fsi) (filesync_read_buffered H n info fsi)
    (\<lambda>(x, f). same_header fsi f \<and> length x = nat n) (\<lambda>(x, f). buffered f + length x) d"
  unfolding filesync_read_buffered_def
proof (rule fades_bind, rule fades_loop [where v = buffered and I = "same_header fsi"
      and P = "\<lambda>f. same_header fsi f \<and> n \<le> int (buffered f)" and r = buffered])
  fix f d1 assume f: "same_header fsi f"
  have more: "fades (buffered f) (read_until H [WRTE] info) (\<lambda>_. True) (\<lambda>(_, x). Suc (length x) + buffered f) d1"
    by (rule fades_conseq [OF read_until_fades [OF assms]]) auto
  show "fades (buffered f) (read_buffered_body H n info f)
      (\<lambda>c. case c of Continue a \<Rightarrow> same_header fsi a | Break a \<Rightarrow> same_header fsi a \<and> n \<le> int (buffered a))
      (\<lambda>c. case c of Continue a \<Rightarrow> Suc (buffered a) | Break a \<Rightarrow> buffered a) d1"
    unfolding read_buffered_body_def using f
    by (auto intro!: fades_bind [OF more] fades_simple simp: same_header_def split: prod.split)
qed (auto intro!: fades_simple simp: same_header_def)

lemma filesync_read_fades:
  assumes t: "timed info"
  shows "fades (buffered fsi) (filesync_read H ids info fsi) (\<lambda>(_, f). same_header fsi f)
    (\<lambda>(_, f). buffered f + recv_message_size fsi) d"
  unfolding filesync_read_def
proof (rule fades_bind [where P = "same_header fsi" and r = buffered])
  show "fades (buffered fsi) (if send_idx fsi \<noteq> 0 then filesync_flush H info fsi else io_return fsi)
      (same_header fsi) buffered d"
    by (auto intro!: fades_simple intro: fades_conseq [OF flush_fades [OF t]] simp: same_header_def)
next
  fix f1 d1 assume f1: "same_header fsi f1"
  show "fades (buffered f1) (io_bind (filesync_read_buffered H (int (recv_message_size f1)) info f1)
     (\<lambda>(header_data, fsi2).
     io_bind (io_lift (struct_unpack (recv_message_format fsi2) header_data)) (\<lambda>header.
     io_bind (io_lift (py_lookup FILESYNC_WIRE_TO_ID (hd header))) (\<lambda>command_id.
     io_bind (if command_id \<noteq> STAT then filesync_read_buffered H (last header) info fsi2
              else io_return ([], fsi2)) (\<lambda>(data, fsi3).
       if command_id \<notin> set ids then
         (if command_id = FAIL then io_raise (AdbCommandFailureException (utf8_decode data))
          else io_raise InvalidResponseError)
       else if command_id = STAT then io_return ((command_id, tl header, None), fsi3)
       else io_return ((command_id, butlast (tl header), Some data), fsi3))))))
     (\<lambda>(_, f). same_header fsi f) (\<lambda>(_, f). buffered f + recv_message_size fsi) d1"
  proof (rule fades_bind [OF read_buffered_fades [OF t]], clarify)
    fix hdr :: bytes and f2 d2
    assume f2: "same_header f1 f2" and hdr: "length hdr = nat (int (recv_message_size f1))"
    let ?k = "recv_message_size fsi"
    have k: "length hdr = ?k" and f2': "same_header fsi f2" using f1 f2 hdr by (auto simp: same_header_def)
    have data: "fades (buffered f2 + ?k)
        (if c \<noteq> STAT then filesync_read_buffered H n info f2 else io_return ([], f2))
        (\<lambda>(x, f). same_header fsi f) (\<lambda>(x, f). buffered f + ?k) d3" for c n d3
      using f2' by (auto intro!: fades_simple intro!: fades_conseq [OF read_buffered_fades [OF t]] simp: same_header_def)
    show "fades (buffered f2 + length hdr)
       (io_bind (io_lift (struct_unpack (recv_message_format f2) hdr)) (\<lambda>header.
       io_bind (io_lift (py_lookup FILESYNC_WIRE_TO_ID (hd header))) (\<lambda>command_id.
       io_bind (if command_id \<noteq> STAT then filesync_read_buffered H (last header) info f2
                else io_return ([], f2)) (\<lambda>(data, fsi3).
         if command_id \<notin> set ids then
           (if command_id = FAIL then io_raise (AdbCommandFailureException (utf8_decode data))
            else io_raise InvalidResponseError)
         else if command_id = STAT then io_return ((command_id, tl header, None), fsi3)
         else io_return ((command_id, butlast (tl header), Some data), fsi3)))))
       (\<lambda>(_, f). same_header fsi f) (\<lambda>(_, f). buffered f + recv_message_size fsi) d2"
      unfolding k
      by (rule fades_bind [where P = "\<lambda>_. True" and r = "\<lambda>_. buffered f2 + ?k"], simp add: fades_simple,
          rule fades_bind [where P = "\<lambda>_. True" and r = "\<lambda>_. buffered f2 + ?k"], simp add: fades_simple,
          rule fades_bind [OF data])
        (auto intro!: fades_simple split: prod.split)
  qed
qed

lemma filesync_for_fades:
  fixes acc :: 'c
  assumes t: "timed info" and k: "0 < recv_message_size fsi" and body: "\<And>p a d. ends_dev (body p a) d"
  shows "fades (buffered fsi) (filesync_for H es fs info body fsi acc) (\<lambda>_. True) (\<lambda>_. 0) d"
proof -
  let ?v = "\<lambda>(f, _). buffered f"
  have "fades (?v (fsi, acc)) (io_loop (filesync_for_body H es fs info body) (fsi, acc)) (\<lambda>_. True) (\<lambda>_. 0) d"
  proof (rule fades_loop [where v = ?v and I = "\<lambda>(f, _). same_header fsi f"])
    fix a :: "filesync_info \<times> 'c" and d1 assume "case a of (f, _) \<Rightarrow> same_header fsi f"
    then obtain f b where a: "a = (f, b)" and f: "same_header fsi f" by (cases a) auto
    have k': "0 < recv_message_size f" using f k by (simp add: same_header_def)
    have read: "fades (buffered f) (filesync_read H (es @ fs) info f) (\<lambda>(_, f). same_header fsi f)
        (\<lambda>(_, f'). buffered f' + recv_message_size f) d1"
      by (rule fades_conseq [OF filesync_read_fades [OF t]]) (use f in \<open>auto simp: same_header_def\<close>)
    have body': "fades (buffered f' + recv_message_size f) (body p b) (\<lambda>_. True) (\<lambda>_. buffered f' + recv_message_size f) d2"
      for p f' d2
      by (rule fades_conseq [OF body]) auto
    show "fades (case a of (f, _) \<Rightarrow> buffered f) (filesync_for_body H es fs info body a)
        (\<lambda>c. case c of Continue x \<Rightarrow> (case x of (f, _) \<Rightarrow> same_header fsi f) | Break b \<Rightarrow> True)
        (\<lambda>c. case c of Continue x \<Rightarrow> Suc (case x of (f, _) \<Rightarrow> buffered f) | Break b \<Rightarrow> 0) d1"
      unfolding filesync_for_body_def a prod.case
    proof (rule fades_bind [OF read], clarify)
      fix c h y f' d2 assume f': "same_header fsi f'"
      show "fades (buffered f' + recv_message_size f)
          (io_bind (body (c, h, y) b) (\<lambda>ctl. case ctl of
              Continue a \<Rightarrow> if fst (c, h, y) \<in> set fs then io_return (Break (a, f')) else io_return (Continue (f', a))
            | Break a \<Rightarrow> io_return (Break (a, f'))))
          (\<lambda>c. case c of Continue x \<Rightarrow> (case x of (f, _) \<Rightarrow> same_header fsi f) | Break b \<Rightarrow> True)
          (\<lambda>c. case c of Continue x \<Rightarrow> Suc (case x of (f, _) \<Rightarrow> buffered f) | Break b \<Rightarrow> 0) d2"
        by (rule fades_bind [OF body']) (use k' f' in \<open>auto intro!: fades_simple split: loop_ctl.split\<close>)
    qed
  qed (simp add: same_header_def)
  then show ?thesis by (simp add: filesync_for_def)
qed

section \<open>File operations\<close>

lemma new_filesync_fades:
  "fades 0 (new_filesync fmt) (\<lambda>f. recv_message_size f = 4 * fmt \<and> recv_buffer f = []) buffered d"
  unfolding new_filesync_def
  by (rule fades_bind [where P = "\<lambda>_. True" and r = "\<lambda>_. 0"])
    (auto intro!: fades_simple simp: FileSyncTransactionInfo_def split: if_splits)

text \<open>A request on a fresh transaction.\<close>

lemma request_fades:
  assumes "timed info" and "recv_message_size fsi = 4 * fmt \<and> recv_buffer fsi = []"
  shows "fades 0 (filesync_send H c info fsi data n) (\<lambda>f. recv_message_size f = 4 * fmt) buffered d"
  using fades_conseq [OF filesync_send_fades [OF assms(1), of fsi c data n d]] assms(2)
  by (auto simp: same_header_def)

lemma fades_clse:
  assumes "timed info"
  shows "ends_dev (io_then (dev_clse H info) (io_return x)) d"
  by (rule fades_bind [OF clse_fades [OF assms]]) (auto intro: fades_simple)

lemma list_fades: "ends_dev (dev_list H path tt rt) d"
proof -
  have read: "fades (buffered f) (filesync_for H [DENT] [DONE] info list_body f []) (\<lambda>_. True) (\<lambda>_. 0) d"
    if "timed info" "recv_message_size f = 4 * FILESYNC_LIST_FORMAT" for f info d
    using that by (intro filesync_for_fades)
      (auto simp: list_body_def fs_format_defs intro!: fades_simple fades_lift_bind split: prod.split)
  show ?thesis
    unfolding dev_list_def
    by (auto intro!: fades_simple require_fades fades_bind [OF open_fades'] fades_bind [OF new_filesync_fades]
        fades_bind [OF request_fades] fades_bind [OF read] fades_clse split: prod.split)
qed

lemma stat_fades: "ends_dev (dev_stat H path tt rt) d"
proof -
  have read: "fades (buffered f) (filesync_read H [STAT] info f) (\<lambda>_. True) (\<lambda>_. 0) d" if "timed info" for f info d
    by (rule fades_conseq [OF filesync_read_fades [OF that]]) auto
  show ?thesis
    unfolding dev_stat_def
    by (auto intro!: fades_simple require_fades fades_bind [OF open_fades'] fades_bind [OF new_filesync_fades]
        fades_bind [OF request_fades] fades_bind [OF read] fades_lift_bind fades_clse split: prod.split)
qed

definition callback_ends :: "'w progress option \<Rightarrow> bool" where
  "callback_ends cb \<longleftrightarrow> (\<forall>f p n t d. cb = Some f \<longrightarrow> ends_dev (f p n t) d)"

lemma progress_fades: "callback_ends cb \<Longrightarrow> ends_dev (call_progress cb p n t) d"
  unfolding call_progress_def callback_ends_def
  by (cases cb) (auto intro!: fades_simple fades_catch)

lemma fades_world:
  assumes "wp True p (\<lambda>x w'. fuel w' + r x \<le> fuel w \<and> inp w' = inp w) (\<lambda>_ w'. fuel w' \<le> fuel w \<and> inp w' = inp w) w"
    and "w = transport_state (io_manager d)"
  shows "fades 0 (on_world p) (\<lambda>_. True) r d"
  unfolding fades_def on_world_def on_io_def wp_zoom wp_on_transport
  by (rule wp_mono [OF assms(1) [unfolded assms(2)]]) (auto simp: dweight_def weight_def)

end

context timed_sink
begin

lemma pull_fades:
  assumes cb: "callback_ends cb"
  shows "ends_dev (dev_pull H path (LBytesIO sink) cb tt rt) d"
proof -
  have out: "ends_dev (on_world (st_write sink x)) d" for x d
    by (rule fades_world) (simp_all add: sink_live)
  have body: "ends_dev (pull_body sink cb p n q u) d" for p n q u d
    unfolding pull_body_def
    by (auto intro!: fades_simple fades_bind [OF out] fades_bind [OF progress_fades [OF cb]] split: prod.split)
  have read: "fades (buffered f) (filesync_for H [DATA] [DONE] info (pull_body sink cb p n) f ()) (\<lambda>_. True) (\<lambda>_. 0) d"
    if "timed info" "recv_message_size f = 4 * FILESYNC_PULL_FORMAT" for f info p n d
    using that by (intro filesync_for_fades body) (auto simp: fs_format_defs)
  have total: "ends_dev (case cb of None \<Rightarrow> io_return 0
      | Some _ \<Rightarrow> io_bind (dev_stat H path None DEFAULT_READ_TIMEOUT_S) (\<lambda>(_, size, _). io_return size)) d" for d
    by (auto intro!: fades_simple fades_bind [OF stat_fades] split: option.split prod.split)
  have data: "ends_dev (pull_data H path sink cb info f) d"
    if "timed info" "recv_message_size f = 4 * FILESYNC_PULL_FORMAT \<and> recv_buffer f = []" for f info d
    unfolding pull_data_def
    using that by (auto intro!: fades_simple fades_bind [OF total] fades_bind [OF request_fades] fades_bind [OF read])
  show ?thesis
    unfolding dev_pull_def with_stream_def local_path.case
    by (auto intro!: fades_simple require_fades fades_bind [OF open_fades'])
      (rule fades_conseq [OF fades_bind [OF new_filesync_fades]],
        auto intro!: fades_finally data clse_fades)
qed

end

context timed_source
begin

lemma push_chunks_fades:
  assumes t: "timed info" and cb: "callback_ends cb"
  shows "fades (buffered fsi) (push_chunks H source path cb n info fsi) (same_header fsi) buffered d"
  unfolding push_chunks_def
proof (rule fades_loop [where v = buffered and I = "same_header fsi"])
  fix f d1 assume f: "same_header fsi f"
  have read: "fades (buffered f) (on_world (st_read source k)) (\<lambda>_. True) (\<lambda>x. length x + buffered f) d2"
    if "k \<noteq> 0" for k d2
    by (rule fades_conseq [OF fades_world [where r = length, OF source_live [OF that]]]) simp_all
  have send: "fades (length x + buffered f) (filesync_send H DATA info f (PyBytes x) None) (same_header f)
      (\<lambda>f. length x + buffered f) d2" for x d2
    by (rule fades_conseq [OF filesync_send_fades [OF t]]) simp_all
  have prog: "fades (Suc (buffered f')) (call_progress cb path k n) (\<lambda>_. True) (\<lambda>_. Suc (buffered f')) d2" for f' k d2
    by (rule fades_conseq [OF progress_fades [OF cb]]) simp_all
  have n0: "max_chunk_size d2 \<noteq> 0" for d2 :: "'a adb_device"
    by (simp add: max_chunk_size_def Let_def MAX_PUSH_DATA_def)
  show "fades (buffered f) (push_chunks_body H source path cb n info f)
      (\<lambda>c. case c of Continue a \<Rightarrow> same_header fsi a | Break a \<Rightarrow> same_header fsi a)
      (\<lambda>c. case c of Continue a \<Rightarrow> Suc (buffered a) | Break a \<Rightarrow> buffered a) d1"
    unfolding push_chunks_body_def
  proof (rule fades_bind [where P = "\<lambda>k. k \<noteq> 0" and r = "\<lambda>_. buffered f"])
    fix k d2 assume k: "k \<noteq> (0 :: int)"
    show "fades (buffered f) (io_bind (on_world (st_read source k)) (\<lambda>data. if data \<noteq> [] then
        io_bind (filesync_send H DATA info f (PyBytes data) None) (\<lambda>fsi'.
          io_then (call_progress cb path (int (length data)) n) (io_return (Continue fsi')))
        else io_return (Break f)))
        (\<lambda>c. case c of Continue a \<Rightarrow> same_header fsi a | Break a \<Rightarrow> same_header fsi a)
        (\<lambda>c. case c of Continue a \<Rightarrow> Suc (buffered a) | Break a \<Rightarrow> buffered a) d2"
    proof (rule fades_bind [OF read [OF k]])
      fix x d3
      have "fades (length x + buffered f) (io_bind (filesync_send H DATA info f (PyBytes x) None) (\<lambda>fsi'.
            io_then (call_progress cb path (int (length x)) n) (io_return (Continue fsi'))))
          (\<lambda>c. case c of Continue a \<Rightarrow> same_header fsi a | Break a \<Rightarrow> same_header fsi a)
          (\<lambda>c. case c of Continue a \<Rightarrow> Suc (buffered a) | Break a \<Rightarrow> buffered a) d3" if "x \<noteq> []"
      proof (rule fades_bind [OF send])
        fix f' d4 assume "same_header f f'"
        moreover have "fades (length x + buffered f') (call_progress cb path (int (length x)) n)
            (\<lambda>_. True) (\<lambda>_. Suc (buffered f')) d4"
          by (rule fades_conseq [OF prog [of f']]) (use that in \<open>auto simp: Suc_le_eq\<close>)
        ultimately show "fades (length x + buffered f')
            (io_then (call_progress cb path (int (length x)) n) (io_return (Continue f')))
            (\<lambda>c. case c of Continue a \<Rightarrow> same_header fsi a | Break a \<Rightarrow> same_header fsi a)
            (\<lambda>c. case c of Continue a \<Rightarrow> Suc (buffered a) | Break a \<Rightarrow> buffered a) d4"
          using f by (auto intro!: fades_bind fades_simple simp: same_header_def)
      qed
      with f show "fades (length x + buffered f) (if x \<noteq> [] then
          io_bind (filesync_send H DATA info f (PyBytes x) None) (\<lambda>fsi'.
            io_then (call_progress cb path (int (length x)) n) (io_return (Continue fsi')))
          else io_return (Break f))
          (\<lambda>c. case c of Continue a \<Rightarrow> same_header fsi a | Break a \<Rightarrow> same_header fsi a)
          (\<lambda>c. case c of Continue a \<Rightarrow> Suc (buffered a) | Break a \<Rightarrow> buffered a) d3"
        by (auto intro!: fades_simple)
    qed
  qed (auto intro!: fades_simple n0)
qed (simp add: same_header_def)

lemma push_stream_fades:
  assumes t: "timed info" and f: "recv_message_size fsi = 4 * FILESYNC_PUSH_FORMAT \<and> recv_buffer fsi = []"
  shows "ends_dev (push_stream H source path mode mtime None info fsi) d"
proof -
  have k: "0 < 4 * FILESYNC_PUSH_FORMAT" by (simp add: fs_format_defs)
  have none: "callback_ends None" by (simp add: callback_ends_def)
  have chunks: "fades (buffered f1) (push_chunks H source path None n info f1)
      (\<lambda>f. recv_message_size f = 4 * FILESYNC_PUSH_FORMAT) buffered d1"
    if "recv_message_size f1 = 4 * FILESYNC_PUSH_FORMAT" for f1 n d1
    by (rule fades_conseq [OF push_chunks_fades [OF t none]]) (use that in \<open>auto simp: same_header_def\<close>)
  have fin: "fades (buffered f1) (filesync_send H DONE info f1 x s)
      (\<lambda>f. recv_message_size f = 4 * FILESYNC_PUSH_FORMAT) buffered d1"
    if "recv_message_size f1 = 4 * FILESYNC_PUSH_FORMAT" for f1 x s d1
    by (rule fades_conseq [OF filesync_send_fades [OF t]]) (use that in \<open>auto simp: same_header_def\<close>)
  have mtime: "fades v (push_mtime H m) (\<lambda>_. True) (\<lambda>_. v) d1" for v m d1
    by (rule fades_conseq [where v = 0 and P = "\<lambda>_. True" and r = "\<lambda>_. 0"])
      (auto simp: push_mtime_def intro!: fades_simple fades_bind [OF fades_time])
  have reply: "fades (buffered f1) (filesync_for H [] [OKAY, FAIL] info push_reply f1 ()) (\<lambda>_. True) (\<lambda>_. 0) d1"
    if "recv_message_size f1 = 4 * FILESYNC_PUSH_FORMAT" for f1 d1
    using that k by (intro filesync_for_fades [OF t])
      (auto simp: push_reply_def intro!: fades_simple split: prod.split)
  show ?thesis
    unfolding push_stream_def option.case io_bind_return
    by (auto intro!: fades_simple fades_lift_bind fades_bind [OF request_fades [OF t f]] fades_bind [OF chunks]
        fades_bind [OF mtime] fades_bind [OF fin] fades_bind [OF reply])
qed

lemma push_fades: "ends_dev (dev_push H (LBytesIO source) path mode mtime None tt rt) d"
proof -
  have body: "fades 0 (io_bind (dev_open H dest tt rt None) (\<lambda>info.
      io_bind (new_filesync FILESYNC_PUSH_FORMAT) (\<lambda>fsi.
      io_then (push_stream H source path mode mtime None info fsi) (io_return info)))) timed (\<lambda>_. 0) d" for dest d
    by (rule fades_bind [OF open_fades'], rule fades_bind [OF new_filesync_fades])
      (auto intro!: fades_simple fades_bind [OF push_stream_fades])
  have files: "ends_dev (push_files H [(LBytesIO source, path)] mode mtime None tt rt) d" for d
    unfolding push_files.simps with_stream_def local_path.case
    by (rule fades_bind [OF body], rule fades_bind [OF clse_fades]) (auto intro: fades_simple)
  show ?thesis
    unfolding dev_push_def one_file on_world_return io_bind_return prod.case if_False
    using files by (auto simp del: push_files.simps intro!: fades_simple require_fades)
qed

end

end
