(* ===== verification/Tcp_Transport.thy ===== *)
theory Tcp_Transport
  imports Sockets Device_Live
begin

text \<open>
  \<open>TcpTransport\<close> of \<open>adb_shell_wifi/transport/tcp_transport.py\<close> over the socket model. Its
  \<open>_connection\<close> is a component of the state; \<open>_host\<close> and \<open>_port\<close> never change and are an
  argument. The transport interprets the interfaces of the I/O manager.
\<close>

section \<open>The transport\<close>

record endpoint = net +
  connection :: "conn option"

type_synonym address = "pystr \<times> int"

definition tcp_close :: "('x endpoint_scheme, unit) prog" where
  "tcp_close = io_modify (\<lambda>w. w\<lparr>connection := None\<rparr>)"

text \<open>\<open>if transport_timeout_s\<close> is false for 0 as well as for \<open>None\<close>.\<close>

definition tcp_connect :: "address \<Rightarrow> rat option \<Rightarrow> ('x endpoint_scheme, unit) prog" where
  "tcp_connect address transport_timeout =
     io_bind (create_connection address transport_timeout) (\<lambda>c.
     io_modify (\<lambda>w. w\<lparr>connection := Some
       (if transport_timeout \<noteq> None \<and> transport_timeout \<noteq> Some 0 then c\<lparr>sock_timeout := Some 0\<rparr>
        else c)\<rparr>))"

definition tcp_bulk_read :: "int \<Rightarrow> rat option \<Rightarrow> ('x endpoint_scheme, bytes) prog" where
  "tcp_bulk_read numbytes transport_timeout =
     io_bind (io_gets connection) (\<lambda>conn.
       case conn of
         None \<Rightarrow> io_raise TypeError
       | Some c \<Rightarrow>
           io_bind (wait_until transport_timeout (rx_ready c)) (\<lambda>readable.
             if readable
             then io_state (\<lambda>w. (fst (recv_ready numbytes c),
                                 w\<lparr>connection := Some (snd (recv_ready numbytes c))\<rparr>))
             else io_raise TcpTimeoutException))"

definition tcp_bulk_write :: "bytes \<Rightarrow> rat option \<Rightarrow> ('x endpoint_scheme, int) prog" where
  "tcp_bulk_write data transport_timeout =
     io_bind (io_gets connection) (\<lambda>conn.
       case conn of
         None \<Rightarrow> io_raise TypeError
       | Some c \<Rightarrow>
           io_bind (wait_until transport_timeout (tx_ready c)) (\<lambda>writeable.
             if writeable
             then io_state (\<lambda>w.
               (case send_ready data c of
                  (Inl e, c') \<Rightarrow> (Inl e, w\<lparr>connection := Some c'\<rparr>)
                | (Inr k, c') \<Rightarrow>
                    (Inr (int k), w\<lparr>connection := Some c', sent := sent w @ take k data\<rparr>)))
             else io_raise TcpTimeoutException))"

definition TcpTransport :: "address \<Rightarrow> 'x endpoint_scheme transport" where
  "TcpTransport address =
     \<lparr>tr_close = tcp_close, tr_connect = tcp_connect address, tr_bulk_read = tcp_bulk_read,
      tr_bulk_write = tcp_bulk_write, tr_tls_upgrade = None, tr_time = sys_time\<rparr>"

section \<open>It is a byte transport, and waiting on it ends\<close>

text \<open>What the device has sent and the transport has not returned.\<close>

definition endpoint_input :: "'x endpoint_scheme \<Rightarrow> bytes" where
  "endpoint_input w = (case connection w of None \<Rightarrow> [] | Some c \<Rightarrow> conn_input c)"

lemma endpoint_input_clock [simp]: "endpoint_input (w\<lparr>clock := x\<rparr>) = endpoint_input w"
  by (simp add: endpoint_input_def)

lemma TcpTransport_sel [simp]:
  "tr_close (TcpTransport a) = tcp_close"
  "tr_connect (TcpTransport a) = tcp_connect a"
  "tr_bulk_read (TcpTransport a) = tcp_bulk_read"
  "tr_bulk_write (TcpTransport a) = tcp_bulk_write"
  "tr_tls_upgrade (TcpTransport a) = None"
  "tr_time (TcpTransport a) = sys_time"
  by (simp_all add: TcpTransport_def)

lemma endpoint_wait:
  "wp False (wait_until timeout ready)
     (\<lambda>_ w'. clock w \<le> clock w' \<and> (connection w', sent w') = (connection w, sent w))
     (\<lambda>e w'. e = ValueError \<and> w' = w) (w :: 'x endpoint_scheme)"
  by (rule wait_keeps) simp

lemma tcp_read_law:
  "wp False (tcp_bulk_read n t)
     (\<lambda>d w'. int (length d) \<le> n \<and> endpoint_input w = d @ endpoint_input w' \<and> sent w' = sent w)
     (\<lambda>e w'. endpoint_input w' = endpoint_input w \<and> sent w' = sent w \<and> \<not> malformed e) (w :: 'x endpoint_scheme)"
proof (cases "connection w")
  case None
  then show ?thesis by (simp add: tcp_bulk_read_def wp_simps malformed_def)
next
  case (Some c)
  obtain r c' where rc: "recv_ready n c = (r, c')" by (cases "recv_ready n c")
  with Some recv_ready_input [OF rc] show ?thesis
    by (cases r) (auto simp: tcp_bulk_read_def wp_simps endpoint_input_def malformed_def
        intro!: wp_mono [OF endpoint_wait])
qed

lemma tcp_write_law:
  "wp False (tcp_bulk_write d t)
     (\<lambda>k w'. 0 \<le> k \<and> k \<le> int (length d) \<and> sent w' = sent w @ take (nat k) d \<and>
        endpoint_input w' = endpoint_input w)
     (\<lambda>e w'. sent w' = sent w \<and> endpoint_input w' = endpoint_input w) (w :: 'x endpoint_scheme)"
proof (cases "connection w")
  case None
  then show ?thesis by (simp add: tcp_bulk_write_def wp_simps)
next
  case (Some c)
  obtain r c' where rc: "send_ready d c = (r, c')" by (cases "send_ready d c")
  with Some send_ready_input [OF rc] send_ready_count [of d c] show ?thesis
    by (cases r) (auto simp: tcp_bulk_write_def wp_simps endpoint_input_def
        intro!: wp_mono [OF endpoint_wait])
qed

interpretation tcp: byte_transport "TcpTransport a :: 'x endpoint_scheme transport" endpoint_input sent
  by unfold_locales (simp_all add: wp_simps tcp_read_law write_clean [OF tcp_write_law])

lemma tcp_connect_ends:
  "wp True (tcp_connect a (Some t)) (\<lambda>_ w'. clock w \<le> clock w') (\<lambda>_ w'. clock w \<le> clock w')
     (w :: 'x endpoint_scheme)"
  unfolding tcp_connect_def wp_bind by (rule wp_mono [OF create_ends]) (simp_all add: wp_simps)

lemma tcp_ends:
  "wp True (tcp_bulk_read n (Some t)) (\<lambda>_ w'. clock w \<le> clock w') (\<lambda>_ w'. clock w \<le> clock w')
     (w :: 'x endpoint_scheme)"
  "wp True (tcp_bulk_write d (Some t)) (\<lambda>_ w'. clock w \<le> clock w') (\<lambda>_ w'. clock w \<le> clock w')
     (w :: 'x endpoint_scheme)"
  unfolding tcp_bulk_read_def tcp_bulk_write_def wp_bind wp_gets
  by (auto simp: wp_simps intro!: wp_mono [OF wait_ends] split: option.split sum.split prod.split)

interpretation tcp_live: live_transport "TcpTransport a :: 'x endpoint_scheme transport" clock clock_tick
  by unfold_locales (simp_all add: wp_simps tcp_ends tcp_connect_ends tcp_close_def clock_tick_pos)

interpretation tcp_timed: timed_byte_transport
  "TcpTransport a :: 'x endpoint_scheme transport" endpoint_input sent clock clock_tick
  by unfold_locales


section \<open>Writes are whole while the send buffer has room\<close>

text \<open>The send buffer of the connection has room for everything.\<close>

definition unlimited :: "'x endpoint_scheme \<Rightarrow> bool" where
  "unlimited w \<longleftrightarrow> (\<forall>c. connection w = Some c \<longrightarrow> tx c = [])"

lemma unlimited_wait:
  "wp False (wait_until timeout ready) (\<lambda>_ w'. unlimited w' = unlimited w)
     (\<lambda>_ w'. unlimited w' = unlimited w) (w :: 'x endpoint_scheme)"
  by (rule wp_mono [OF endpoint_wait]) (auto simp: unlimited_def)

lemma send_unlimited:
  assumes "tx c = []"
  shows "send_ready d c = (Inr (length d), c)"
  using assms by (simp add: send_ready_def)

lemma tcp_unlimited:
  assumes "unlimited (w :: 'x endpoint_scheme)"
  shows "wp False (tcp_bulk_write d t) (\<lambda>k w'. k = int (length d) \<and> unlimited w') (\<lambda>_ w'. unlimited w') w"
    and "wp False (tcp_bulk_read n t) (\<lambda>_ w'. unlimited w') (\<lambda>_ w'. unlimited w') w"
  using assms
  by (auto simp: tcp_bulk_write_def tcp_bulk_read_def wp_simps unlimited_def send_unlimited
      split: option.split sum.split intro!: wp_mono [OF endpoint_wait])

interpretation tcp_full: full_write_transport
  "TcpTransport a :: 'x endpoint_scheme transport" endpoint_input sent unlimited
  by unfold_locales (simp_all add: tcp_unlimited wp_simps, simp add: unlimited_def)

interpretation tcp_clean: clean_write_transport
  "TcpTransport a :: 'x endpoint_scheme transport" endpoint_input sent unlimited
  by unfold_locales (simp, rule wp_mono [OF tcp_write_law], simp_all)

end
