(* ===== verification/Host_OS.thy ===== *)
theory Host_OS
  imports Tcp_Transport
begin

text \<open>
  The rest of the operating system the code uses (\<open>open\<close>, \<open>os.path.isdir\<close>,
  \<open>os.listdir\<close>, \<open>os.fstat\<close>, \<open>io.BytesIO\<close>, \<open>socket.gethostname\<close>) over a model of its
  files, and the host that a TCP device runs on.
\<close>

section \<open>Files\<close>

text \<open>
  An open file or a \<open>BytesIO\<close> (no path) with its contents and its position. Paths are
  looked up as they are given: a relative path names a file of the working directory.
\<close>

record handle =
  h_path :: "pystr option"
  h_data :: bytes
  h_pos :: nat
  h_open :: bool

record file_system =
  hostname :: "exn + pystr"
  files :: "pystr \<Rightarrow> bytes option"
  dirs :: "pystr \<Rightarrow> pystr list option"
  handles :: "nat \<Rightarrow> handle"
  next_handle :: nat

text \<open>\<open>read(n)\<close>: everything that is left for a negative \<open>n\<close>.\<close>

definition fs_read :: "nat \<Rightarrow> int \<Rightarrow> (file_system, bytes) prog" where
  "fs_read i n fs =
     (let h = handles fs i; rest = drop (h_pos h) (h_data h);
          d = (if n < 0 then rest else take (nat n) rest)
      in if \<not> h_open h then Some (Inl ValueError, fs)
         else Some (Inr d, fs\<lparr>handles := (handles fs)(i := h\<lparr>h_pos := h_pos h + length d\<rparr>)\<rparr>))"

text \<open>Writing at the position, over what is there; a file on disk changes with it.\<close>

definition overwrite :: "bytes \<Rightarrow> nat \<Rightarrow> bytes \<Rightarrow> bytes" where
  "overwrite old pos d =
     take pos old @ replicate (pos - length old) 0 @ d @ drop (pos + length d) old"

definition fs_write :: "nat \<Rightarrow> bytes \<Rightarrow> (file_system, unit) prog" where
  "fs_write i d fs =
     (let h = handles fs i; data = overwrite (h_data h) (h_pos h) d
      in if \<not> h_open h then Some (Inl ValueError, fs)
         else Some (Inr (), fs\<lparr>
           handles := (handles fs)(i := h\<lparr>h_data := data, h_pos := h_pos h + length d\<rparr>),
           files := (case h_path h of None \<Rightarrow> files fs | Some p \<Rightarrow> (files fs)(p := Some data))\<rparr>))"

text \<open>A \<open>BytesIO\<close> has no \<open>fileno\<close>.\<close>

definition fs_fstat_size :: "nat \<Rightarrow> (file_system, int) prog" where
  "fs_fstat_size i fs =
     (let h = handles fs i
      in if \<not> h_open h then Some (Inl ValueError, fs)
         else if h_path h = None then Some (Inl OSError, fs)
         else Some (Inr (int (length (h_data h))), fs))"

definition fs_close :: "nat \<Rightarrow> (file_system, unit) prog" where
  "fs_close i = io_modify (\<lambda>fs. fs\<lparr>handles := (handles fs)(i := (handles fs i)\<lparr>h_open := False\<rparr>)\<rparr>)"

definition fs_open :: "bytes \<Rightarrow> pystr \<Rightarrow> (file_system, nat) prog" where
  "fs_open data path fs =
     Some (Inr (next_handle fs), fs\<lparr>next_handle := next_handle fs + 1,
       handles := (handles fs)(next_handle fs :=
         \<lparr>h_path = Some path, h_data = data, h_pos = 0, h_open = True\<rparr>)\<rparr>)"

definition fs_open_rb :: "pystr \<Rightarrow> (file_system, nat) prog" where
  "fs_open_rb path =
     io_bind (io_gets (\<lambda>fs. (dirs fs path, files fs path))) (\<lambda>(dir, file).
       if dir \<noteq> None then io_raise OSError
       else case file of None \<Rightarrow> io_raise FileNotFoundError | Some data \<Rightarrow> fs_open data path)"

definition fs_open_wb :: "pystr \<Rightarrow> (file_system, nat) prog" where
  "fs_open_wb path =
     io_bind (io_gets (\<lambda>fs. dirs fs path)) (\<lambda>dir.
       if dir \<noteq> None then io_raise OSError
       else io_then (io_modify (\<lambda>fs. fs\<lparr>files := (files fs)(path := Some [])\<rparr>)) (fs_open [] path))"

definition fs_listdir :: "pystr \<Rightarrow> (file_system, pystr list) prog" where
  "fs_listdir path =
     io_bind (io_gets (\<lambda>fs. dirs fs path)) (\<lambda>dir.
       case dir of None \<Rightarrow> io_raise FileNotFoundError | Some names \<Rightarrow> io_return names)"

section \<open>The host of a TCP device\<close>

record tcp_world = endpoint +
  file_sys :: file_system

definition on_fs :: "(file_system, 'a) prog \<Rightarrow> (tcp_world, 'a) prog" where
  "on_fs = io_zoom file_sys (\<lambda>fs w. w\<lparr>file_sys := fs\<rparr>)"

definition fs_stream :: "nat \<Rightarrow> tcp_world stream" where
  "fs_stream i =
     \<lparr>st_read = (\<lambda>n. on_fs (fs_read i n)), st_write = (\<lambda>d. on_fs (fs_write i d)),
      st_fstat_size = on_fs (fs_fstat_size i), st_close = on_fs (fs_close i)\<rparr>"

definition TcpHost :: "address \<Rightarrow> tcp_world host" where
  "TcpHost address = transport.extend (TcpTransport address)
     \<lparr>gethostname = on_fs (io_bind (io_gets hostname) io_lift),
      path_isdir = (\<lambda>p. on_fs (io_gets (\<lambda>fs. dirs fs p \<noteq> None))),
      path_listdir = (\<lambda>p. on_fs (fs_listdir p)),
      open_rb = (\<lambda>p. io_bind (on_fs (fs_open_rb p)) (\<lambda>i. io_return (fs_stream i))),
      open_wb = (\<lambda>p. io_bind (on_fs (fs_open_wb p)) (\<lambda>i. io_return (fs_stream i)))\<rparr>"

lemma TcpHost_sel [simp]:
  "tr_close (TcpHost a) = tcp_close"
  "tr_connect (TcpHost a) = tcp_connect a"
  "tr_bulk_read (TcpHost a) = tcp_bulk_read"
  "tr_bulk_write (TcpHost a) = tcp_bulk_write"
  "tr_tls_upgrade (TcpHost a) = None"
  "tr_time (TcpHost a) = sys_time"
  by (simp_all add: TcpHost_def TcpTransport_def transport.defs)

interpretation tcp_host: byte_transport "TcpHost a" endpoint_input sent
  by unfold_locales (simp_all add: wp_simps tcp_read_law write_clean [OF tcp_write_law])

interpretation tcp_host_live: live_transport "TcpHost a" clock clock_tick
  by unfold_locales (simp_all add: wp_simps tcp_ends tcp_connect_ends tcp_close_def clock_tick_pos)

interpretation tcp_host_timed: timed_byte_transport
  "TcpHost a" endpoint_input sent clock clock_tick
  by unfold_locales


interpretation tcp_host_full: full_write_transport "TcpHost a" endpoint_input sent unlimited
  by unfold_locales (simp_all add: tcp_unlimited wp_simps, simp add: unlimited_def)

interpretation tcp_device: device_host "TcpHost a" endpoint_input sent unlimited
  by unfold_locales

section \<open>Its files are file sinks and sources\<close>

lemma fs_stream_sel [simp]:
  "st_read (fs_stream i) n = on_fs (fs_read i n)"
  "st_write (fs_stream i) d = on_fs (fs_write i d)"
  "st_fstat_size (fs_stream i) = on_fs (fs_fstat_size i)"
  "st_close (fs_stream i) = on_fs (fs_close i)"
  by (simp_all add: fs_stream_def)

lemma wp_on_fs [wp_simps]:
  "wp t (on_fs p) Q E w =
     wp t p (\<lambda>x fs. Q x (w\<lparr>file_sys := fs\<rparr>)) (\<lambda>e fs. E e (w\<lparr>file_sys := fs\<rparr>)) (file_sys w)"
  by (simp add: on_fs_def wp_zoom)

lemma on_fs_quiet: "quiet endpoint_input sent unlimited (on_fs p)"
  unfolding quiet_def wp_on_fs
  by (auto simp: wp_def endpoint_input_def unlimited_def split: option.split sum.split)

text \<open>What lies before the position of a file, and what lies behind it.\<close>

definition written :: "nat \<Rightarrow> tcp_world \<Rightarrow> bytes" where
  "written i w =
     (let h = handles (file_sys w) i
      in take (h_pos h) (h_data h) @ replicate (h_pos h - length (h_data h)) 0)"

definition unread :: "nat \<Rightarrow> tcp_world \<Rightarrow> bytes" where
  "unread i w = (let h = handles (file_sys w) i in drop (h_pos h) (h_data h))"

lemma tcp_calls_keep_fs: "calls_keep (TcpHost a) (\<lambda>w. P (file_sys w))"
proof -
  have fs: "wp False (wait_until t r) (\<lambda>_ w'. clock w \<le> clock w' \<and> file_sys w' = file_sys w)
      (\<lambda>e w'. e = ValueError \<and> w' = w) (w :: tcp_world)" for t r w
    by (rule wait_keeps) simp
  show ?thesis
    by (auto simp: calls_keep_def keeps_def tcp_bulk_read_def tcp_bulk_write_def wp_simps
        intro!: wp_mono [OF fs] split: option.split sum.split prod.split)
qed

lemma overwrite_prefix:
  "take (n + length d) (overwrite old n d) @ replicate (n + length d - length (overwrite old n d)) 0 =
     (take n old @ replicate (n - length old) 0) @ d"
  by (simp add: overwrite_def)

interpretation tcp_sink: file_sink "TcpHost a" endpoint_input sent unlimited "fs_stream i" "written i"
proof unfold_locales
  fix d :: bytes and w :: tcp_world
  show "wp False (st_write (fs_stream i) d) (\<lambda>_ w'. written i w' = written i w @ d) (\<lambda>_ _. True) w"
    using overwrite_prefix [of "h_pos (handles (file_sys w) i)" d "h_data (handles (file_sys w) i)"]
    by (simp add: wp_on_fs) (simp add: wp_def fs_write_def Let_def written_def)
qed (simp_all add: on_fs_quiet tcp_calls_keep_fs [where P = "\<lambda>fs. written i (undefined\<lparr>file_sys := fs\<rparr>) = c" for c, unfolded written_def, simplified] written_def)

interpretation tcp_source: file_source "TcpHost a" endpoint_input sent unlimited "fs_stream i" "unread i"
proof unfold_locales
  fix n :: int and w :: tcp_world
  assume "0 < n"
  then show "wp False (st_read (fs_stream i) n)
      (\<lambda>d w'. unread i w = d @ unread i w' \<and> int (length d) \<le> n \<and> (d = [] \<longrightarrow> unread i w = []))
      (\<lambda>_ _. True) w"
    using append_take_drop_id [of "nat n" "drop (h_pos (handles (file_sys w) i)) (h_data (handles (file_sys w) i))"]
    by (simp add: wp_on_fs) (auto simp: wp_def fs_read_def Let_def unread_def min_def add.commute)
qed (simp_all add: on_fs_quiet unread_def tcp_calls_keep_fs [where P = "\<lambda>fs. drop (h_pos (handles fs i)) (h_data (handles fs i)) = c" for i c] Let_def)

text \<open>Calls on files return; reading takes from what is unread.\<close>

interpretation tcp_timed_host: timed_host "TcpHost a" endpoint_input sent clock clock_tick "\<lambda>_. 0"
  by unfold_locales (auto simp: calls_keep_def keeps_def)

lemma on_fs_input: "endpoint_input (w\<lparr>file_sys := fs\<rparr>) = endpoint_input w"
  by (simp add: endpoint_input_def)

interpretation tcp_timed_sink: timed_sink "TcpHost a" endpoint_input sent clock clock_tick "\<lambda>_. 0" "fs_stream i"
  by unfold_locales (simp add: wp_on_fs, simp add: wp_def fs_write_def Let_def on_fs_input)

interpretation tcp_timed_source: timed_source "TcpHost a" endpoint_input sent clock clock_tick
  "\<lambda>w. length (unread i w)" "fs_stream i"
proof unfold_locales
  fix c
  show "calls_keep (TcpHost a) (\<lambda>w. length (unread i w) \<le> c)"
    using tcp_calls_keep_fs [of a "\<lambda>fs. length (drop (h_pos (handles fs i)) (h_data (handles fs i))) \<le> c"]
    by (simp add: unread_def Let_def)
next
  fix n :: int and w :: tcp_world
  assume "n \<noteq> 0"
  show "wp True (st_read (fs_stream i) n)
      (\<lambda>d w'. length (unread i w') + length d \<le> length (unread i w) \<and> endpoint_input w' = endpoint_input w)
      (\<lambda>_ w'. length (unread i w') \<le> length (unread i w) \<and> endpoint_input w' = endpoint_input w) w"
    by (simp add: wp_on_fs) (auto simp: wp_def fs_read_def Let_def unread_def on_fs_input min_def)
qed

end
