(* ===== verification/Tls_Transport.thy ===== *)
theory Tls_Transport
  imports Tcp_Transport
begin

text \<open>
  \<open>TlsTransport\<close> of \<open>adb_shell_wifi/transport/tls_transport.py\<close>: a TCP connection that
  \<open>tls_upgrade\<close> replaces by the TLS connection over it. The TLS library is not modelled: a
  handshake has a scripted outcome, a connection whose bytes are the plain text, and
  \<open>load_cert_chain\<close> (the work of \<open>_make_ssl_context\<close>, see \<open>Ssl_Context\<close>) is an argument.
\<close>

section \<open>The transport\<close>

record tls_endpoint = endpoint +
  is_tls :: bool

definition tls_close :: "('x tls_endpoint_scheme, unit) prog" where
  "tls_close = io_modify (\<lambda>w. w\<lparr>connection := None, is_tls := False\<rparr>)"

definition tls_connect :: "address \<Rightarrow> rat option \<Rightarrow> ('x tls_endpoint_scheme, unit) prog" where
  "tls_connect address transport_timeout =
     io_bind (create_connection address transport_timeout) (\<lambda>c.
     io_modify (\<lambda>w. w\<lparr>connection := Some (c\<lparr>sock_timeout := None\<rparr>), is_tls := False\<rparr>))"

text \<open>\<open>settimeout\<close> rejects negative values.\<close>

definition settimeout :: "rat option \<Rightarrow> conn \<Rightarrow> ('x tls_endpoint_scheme, unit) prog" where
  "settimeout t c =
     (case t of
        Some x \<Rightarrow>
          if x < 0 then io_raise ValueError
          else io_modify (\<lambda>w. w\<lparr>connection := Some (c\<lparr>sock_timeout := t\<rparr>)\<rparr>)
      | None \<Rightarrow> io_modify (\<lambda>w. w\<lparr>connection := Some (c\<lparr>sock_timeout := t\<rparr>)\<rparr>))"

text \<open>A socket whose file descriptor was taken over by a TLS socket that has failed.\<close>

definition dead_conn :: "conn \<Rightarrow> conn" where
  "dead_conn c = c\<lparr>rx := [(0, RxFail)], tx := [(0, TxFail)]\<rparr>"

definition handshake_timeout_s :: rat where
  "handshake_timeout_s = 10"

definition tls_upgrade ::
  "(bytes \<Rightarrow> bytes \<Rightarrow> exn + unit) \<Rightarrow> bytes \<Rightarrow> bytes \<Rightarrow> ('x tls_endpoint_scheme, unit) prog" where
  "tls_upgrade load_cert_chain cert_pem key_pem =
     io_bind (io_gets connection) (\<lambda>conn.
       case conn of
         None \<Rightarrow> io_raise RuntimeError
       | Some c \<Rightarrow>
           io_bind (io_gets is_tls) (\<lambda>upgraded.
             if upgraded then io_raise RuntimeError
             else
               io_then (io_lift (load_cert_chain cert_pem key_pem))
               (io_then (settimeout (Some handshake_timeout_s) c)
               (io_then (io_modify (\<lambda>w. w\<lparr>connection := Some (dead_conn c)\<rparr>))
               (io_bind (io_gets handshakes) (\<lambda>hs.
               io_then (io_modify (\<lambda>w. w\<lparr>handshakes := tl hs\<rparr>))
               (io_bind (wait_until (Some handshake_timeout_s)
                          (case hs of [] \<Rightarrow> None | (a, _) # _ \<Rightarrow> Some a)) (\<lambda>ok.
                 case hs of
                   (_, Inr wrapped) # _ \<Rightarrow>
                     if ok then
                       io_modify (\<lambda>w. w\<lparr>connection := Some (wrapped\<lparr>sock_timeout := None\<rparr>), is_tls := True\<rparr>)
                     else io_raise TcpTimeoutException
                 | (_, Inl e) # _ \<Rightarrow>
                     if ok \<and> e \<noteq> SSLError \<and> e \<noteq> SocketTimeout then io_raise e
                     else io_raise TcpTimeoutException
                 | [] \<Rightarrow> io_raise TcpTimeoutException))))))))"

text \<open>
  A call that does not get through in time: a plain non-blocking socket raises an error
  that the transport does not translate.
\<close>

definition timed_out :: "rat option \<Rightarrow> ('x tls_endpoint_scheme, 'a) prog" where
  "timed_out t =
     io_bind (io_gets is_tls) (\<lambda>upgraded.
       if t = Some 0 \<and> \<not> upgraded then io_raise BlockingIOError else io_raise TcpTimeoutException)"

definition tls_bulk_read :: "int \<Rightarrow> rat option \<Rightarrow> ('x tls_endpoint_scheme, bytes) prog" where
  "tls_bulk_read numbytes transport_timeout =
     io_bind (io_gets connection) (\<lambda>conn.
       case conn of
         None \<Rightarrow> io_raise AttributeError
       | Some c \<Rightarrow>
           io_then (settimeout transport_timeout c)
           (io_bind (wait_until transport_timeout (rx_ready c)) (\<lambda>ok.
             if ok
             then io_state (\<lambda>w.
               (fst (recv_ready numbytes (c\<lparr>sock_timeout := transport_timeout\<rparr>)),
                w\<lparr>connection := Some (snd (recv_ready numbytes (c\<lparr>sock_timeout := transport_timeout\<rparr>)))\<rparr>))
             else timed_out transport_timeout)))"

definition tls_bulk_write :: "bytes \<Rightarrow> rat option \<Rightarrow> ('x tls_endpoint_scheme, int) prog" where
  "tls_bulk_write data transport_timeout =
     io_bind (io_gets connection) (\<lambda>conn.
       case conn of
         None \<Rightarrow> io_raise AttributeError
       | Some c \<Rightarrow>
           io_then (settimeout transport_timeout c)
           (io_bind (wait_until transport_timeout (tx_ready c)) (\<lambda>ok.
             if ok
             then io_state (\<lambda>w.
               (case send_ready data (c\<lparr>sock_timeout := transport_timeout\<rparr>) of
                  (Inl e, c') \<Rightarrow> (Inl e, w\<lparr>connection := Some c'\<rparr>)
                | (Inr k, c') \<Rightarrow>
                    (Inr (int k), w\<lparr>connection := Some c', sent := sent w @ take k data\<rparr>)))
             else timed_out transport_timeout)))"

definition TlsTransport ::
  "(bytes \<Rightarrow> bytes \<Rightarrow> exn + unit) \<Rightarrow> address \<Rightarrow> 'x tls_endpoint_scheme transport" where
  "TlsTransport load_cert_chain address =
     \<lparr>tr_close = tls_close, tr_connect = tls_connect address, tr_bulk_read = tls_bulk_read,
      tr_bulk_write = tls_bulk_write, tr_tls_upgrade = Some (tls_upgrade load_cert_chain),
      tr_time = sys_time\<rparr>"

lemma TlsTransport_sel [simp]:
  "tr_close (TlsTransport l a) = tls_close"
  "tr_connect (TlsTransport l a) = tls_connect a"
  "tr_bulk_read (TlsTransport l a) = tls_bulk_read"
  "tr_bulk_write (TlsTransport l a) = tls_bulk_write"
  "tr_tls_upgrade (TlsTransport l a) = Some (tls_upgrade l)"
  "tr_time (TlsTransport l a) = sys_time"
  by (simp_all add: TlsTransport_def)

section \<open>It is a byte transport, and waiting on it ends\<close>

lemma conn_input_timeout [simp]: "conn_input (c\<lparr>sock_timeout := t\<rparr>) = conn_input c"
  by (simp add: conn_input_def)

lemma wp_settimeout [wp_simps]:
  "wp b (settimeout t c) Q E w =
     (if \<exists>x. t = Some x \<and> x < 0 then E ValueError w
      else Q () (w\<lparr>connection := Some (c\<lparr>sock_timeout := t\<rparr>)\<rparr>))"
  by (auto simp: settimeout_def wp_simps split: option.split)

lemma wp_timed_out [wp_simps]:
  "wp b (timed_out t) Q E w =
     (if t = Some 0 \<and> \<not> is_tls w then E BlockingIOError w else E TcpTimeoutException w)"
  by (simp add: timed_out_def wp_simps)

lemma tls_read_law:
  "wp False (tls_bulk_read n t)
     (\<lambda>d w'. int (length d) \<le> n \<and> endpoint_input w = d @ endpoint_input w' \<and> sent w' = sent w)
     (\<lambda>e w'. endpoint_input w' = endpoint_input w \<and> sent w' = sent w \<and> \<not> malformed e) (w :: 'x tls_endpoint_scheme)"
proof (cases "connection w")
  case None
  then show ?thesis by (simp add: tls_bulk_read_def wp_simps malformed_def)
next
  case (Some c)
  obtain r c' where rc: "recv_ready n (c\<lparr>sock_timeout := t\<rparr>) = (r, c')"
    by (cases "recv_ready n (c\<lparr>sock_timeout := t\<rparr>)")
  with Some recv_ready_input [OF rc] show ?thesis
    by (cases r) (auto simp: tls_bulk_read_def wp_simps endpoint_input_def malformed_def
        intro!: wp_mono [OF endpoint_wait])
qed

lemma tls_write_law:
  "wp False (tls_bulk_write d t)
     (\<lambda>k w'. 0 \<le> k \<and> k \<le> int (length d) \<and> sent w' = sent w @ take (nat k) d \<and>
        endpoint_input w' = endpoint_input w)
     (\<lambda>e w'. sent w' = sent w \<and> endpoint_input w' = endpoint_input w) (w :: 'x tls_endpoint_scheme)"
proof (cases "connection w")
  case None
  then show ?thesis by (simp add: tls_bulk_write_def wp_simps)
next
  case (Some c)
  obtain r c' where rc: "send_ready d (c\<lparr>sock_timeout := t\<rparr>) = (r, c')"
    by (cases "send_ready d (c\<lparr>sock_timeout := t\<rparr>)")
  with Some send_ready_input [OF rc] send_ready_count [of d "c\<lparr>sock_timeout := t\<rparr>"] show ?thesis
    by (cases r) (auto simp: tls_bulk_write_def wp_simps endpoint_input_def
        intro!: wp_mono [OF endpoint_wait])
qed

interpretation tls: byte_transport
  "TlsTransport l a :: 'x tls_endpoint_scheme transport" endpoint_input sent
  by unfold_locales (simp_all add: wp_simps tls_read_law write_clean [OF tls_write_law])

lemma tls_connect_ends:
  "wp True (tls_connect a (Some t)) (\<lambda>_ w'. clock w \<le> clock w') (\<lambda>_ w'. clock w \<le> clock w')
     (w :: 'x tls_endpoint_scheme)"
  unfolding tls_connect_def wp_bind by (rule wp_mono [OF create_ends]) (simp_all add: wp_simps)

lemma tls_upgrade_ends:
  "wp True (tls_upgrade l c k) (\<lambda>_ w'. clock w \<le> clock w') (\<lambda>_ w'. clock w \<le> clock w')
     (w :: 'x tls_endpoint_scheme)"
proof -
  have later: "wp True (wait_until (Some handshake_timeout_s) r) (\<lambda>_ w'. clock w \<le> clock w')
      (\<lambda>_ w'. clock w \<le> clock w') w1" if "clock w1 = clock w" for r and w1 :: "'x tls_endpoint_scheme"
    by (rule wp_mono [OF wait_ends]) (use that in auto)
  show ?thesis
    unfolding tls_upgrade_def wp_bind wp_gets
    by (auto simp: wp_simps handshake_timeout_s_def [symmetric] intro!: wp_mono [OF later]
        split: option.split list.split sum.split)
qed

lemma tls_ends:
  "wp True (tls_bulk_read n (Some t)) (\<lambda>_ w'. clock w \<le> clock w') (\<lambda>_ w'. clock w \<le> clock w')
     (w :: 'x tls_endpoint_scheme)"
  "wp True (tls_bulk_write d (Some t)) (\<lambda>_ w'. clock w \<le> clock w') (\<lambda>_ w'. clock w \<le> clock w')
     (w :: 'x tls_endpoint_scheme)"
  unfolding tls_bulk_read_def tls_bulk_write_def wp_bind wp_gets
  by (auto simp: wp_simps intro!: wp_mono [OF wait_ends] split: option.split sum.split prod.split)

interpretation tls_live: live_transport
  "TlsTransport l a :: 'x tls_endpoint_scheme transport" clock clock_tick
  by unfold_locales (auto simp: wp_simps tls_ends tls_connect_ends tls_upgrade_ends tls_close_def clock_tick_pos)

interpretation tls_timed: timed_byte_transport
  "TlsTransport l a :: 'x tls_endpoint_scheme transport" endpoint_input sent clock clock_tick
  by unfold_locales


end
