(* ===== verification/Samples.thy ===== *)
theory Samples
  imports Host_OS Tls_Transport
begin

text \<open>
  Concrete packets, worlds and devices: a TCP connection on which the given bytes are waiting
  and whose send buffer has room. The theorems are applied to them, and the operations can be
  run on them.
\<close>

definition frame_of :: "cmd \<Rightarrow> int \<Rightarrow> int \<Rightarrow> bytes \<Rightarrow> bytes" where
  "frame_of c a b x =
     concat (map (le_bytes 4)
       [cmd_wire c, a, b, int (length x), checksum x, xor (cmd_wire c) 0xFFFFFFFF]) @ x"

definition sample_fs :: file_system where
  "sample_fs = \<lparr>hostname = Inr (str_lit ''pc''), files = (\<lambda>_. None), dirs = (\<lambda>_. None),
     handles = (\<lambda>_. \<lparr>h_path = None, h_data = bytes_lit ''data'', h_pos = 0, h_open = True\<rparr>), next_handle = 1\<rparr>"

definition sample_world :: "bytes \<Rightarrow> tcp_world" where
  "sample_world b = \<lparr>clock = 0, sent = [], dials = (\<lambda>_. []), handshakes = [],
     connection = Some \<lparr>rx = [(0, Data b)], tx = [], sock_timeout = Some 0\<rparr>, file_sys = sample_fs\<rparr>"

definition sample_manager :: "bytes \<Rightarrow> tcp_world io_manager" where
  "sample_manager b = \<lparr>packet_store = [], transport_state = sample_world b\<rparr>"

definition sample_device :: "bytes \<Rightarrow> tcp_world adb_device" where
  "sample_device b = \<lparr>io_manager = sample_manager b, available = True, banner = None,
     default_transport_timeout_s = None, dev_local_id = 0, maxdata = 64\<rparr>"

definition sample_address :: address where
  "sample_address = (str_lit ''host'', 5555)"

definition sample_info :: transaction_info where
  "sample_info = AdbTransactionInfo (Some 1) (Some 7) None 10 None"

lemma sample_world_ok [simp]:
  "unlimited (sample_world b)" "endpoint_input (sample_world b) = b" "sent (sample_world b) = []"
  by (simp_all add: sample_world_def unlimited_def endpoint_input_def conn_input_def)

lemma sample_manager_ok [simp]:
  "transport_state (sample_manager b) = sample_world b" "packet_store (sample_manager b) = []"
  by (simp_all add: sample_manager_def)

lemma sample_device_ok [simp]:
  "io_manager (sample_device b) = sample_manager b" "device_ok (sample_device b)"
  "available (sample_device b)" "dev_local_id (sample_device b) = 0" "maxdata (sample_device b) = 64"
  by (simp_all add: sample_device_def device_ok_def manager_ok_def)

lemma sample_info_ok [simp]:
  "local_id sample_info = Some 1" "remote_id sample_info = Some 7" "transport_timeout_s sample_info = Some 10"
  by (simp_all add: sample_info_def AdbTransactionInfo_def Let_def)

end
