(* ===== verification/Wire_Properties.thy ===== *)
theory Wire_Properties
  imports Samples
begin

text \<open>
  What \<open>_AdbIOManager\<close> guarantees over TCP: which packet a transaction gets and what becomes
  of the others, what reaches the device when a packet is sent, and that waiting ends. Each
  statement is that of the interface, on the transports' own definitions.
\<close>

section \<open>Receiving\<close>



text \<open>C11. A packet whose payload was damaged in one byte is never returned: with the rest of the
  frame intact, \<open>_read_packet_from_device\<close> raises.\<close>

theorem corrupt_packet_rejected:
  assumes "is_frame (c, a0, a1, xs @ b # ys) (hdr @ xs @ b # ys)" and "b \<noteq> b'"
    and "endpoint_input (transport_state m) = hdr @ (xs @ b' # ys) @ rest"
    and "transport_timeout_s info = Some t"
  shows "wp True (read_packet_from_device (TcpTransport a) info) (\<lambda>_ _. False) (\<lambda>_ _. True) m"
proof -
  obtain k where u: "unpack hdr = Inr (cmd_wire c, a0, a1, int (length (xs @ b # ys)), k)"
    and k: "xs @ b # ys \<noteq> [] \<longrightarrow> k = checksum (xs @ b # ys)"
    using assms(1) unfolding is_frame_def prod.case by (elim exE conjE) (rule that, simp_all)
  have u': "unpack hdr = Inr (cmd_wire c, a0, a1, int (length (xs @ b' # ys)), k)" using u by simp
  have k': "k \<noteq> checksum (xs @ b' # ys)" using k assms(2) checksum_flip_detected by blast
  show ?thesis
    by (rule wp_total_from [OF tcp.read_corrupt [OF u' _ k' assms(3)]
          tcp_live.read_packet_ends [OF assms(4), unfolded tcp_live.ends_def]]) simp
qed

theorem corrupt_packet_rejected_witness:
  "wp True (read_packet_from_device (TcpTransport sample_address) sample_info) (\<lambda>_ _. False) (\<lambda>_ _. True)
     (sample_manager (take 24 (frame_of WRTE 7 1 [104, 105]) @ [104, 106]))"
proof (rule corrupt_packet_rejected [where c = WRTE and xs = "[104]" and ys = "[]" and b = 105 and b' = 106
      and hdr = "take 24 (frame_of WRTE 7 1 [104, 105])" and rest = "[]" and t = 10 and ?a0.0 = 7 and ?a1.0 = 1])
  show "is_frame (WRTE, 7, 1, [104] @ 105 # []) (take 24 (frame_of WRTE 7 1 [104, 105]) @ [104] @ 105 # [])"
    unfolding is_frame_def by (simp add: IDS_def del: One_nat_def) code_simp
qed simp_all

section \<open>Sending\<close>

text \<open>C6. What one end sends the other end reads: sending a packet over TCP (with room in the send
  buffer) ends; if it returns, exactly one frame has been added to the bytes sent, and any
  manager whose input starts with that frame reads the packet back, consuming exactly the frame
  and never rejecting it; if it raises, at most a header's worth of bytes has been sent.\<close>

theorem wire_round_trip:
  assumes "unlimited (transport_state m)" and "transport_timeout_s info = Some t"
  shows "wp True (send_new (TcpTransport a) c a0 a1 d info)
    (\<lambda>_ m'. \<exists>x y f. a0 = Some x \<and> a1 = Some y \<and> packet_store m' = packet_store m \<and>
       sent (transport_state m') = sent (transport_state m) @ f \<and>
       (\<forall>m2 rest. endpoint_input (transport_state m2) = f @ rest \<longrightarrow>
          wp True (read_packet_from_device (TcpTransport a) info)
            (\<lambda>p m2'. p = (c, x, y, d) \<and> endpoint_input (transport_state m2') = rest)
            (\<lambda>e _. \<not> malformed e) m2))
    (\<lambda>_ m'. \<exists>f. length f \<le> 24 \<and> sent (transport_state m') = sent (transport_state m) @ f) m"
proof -
  have echo: "wp True (read_packet_from_device (TcpTransport a) info)
      (\<lambda>p m2'. p = q \<and> endpoint_input (transport_state m2') = rest) (\<lambda>e _. \<not> malformed e) m2"
    if "is_frame q f" "endpoint_input (transport_state m2) = f @ rest" for q f rest m2
    by (rule wp_mono [OF tcp_timed.read_frame_total [OF that assms(2)]])
      (use that(2) in \<open>auto simp: tcp.reads_def\<close>)
  have room: "tcp_full.mroomy m" using assms(1) by (simp add: tcp_full.mroomy_def)
  show ?thesis
    by (rule wp_mono [OF wp_total_from [OF wp_conj [OF tcp_full.full_send_new [OF room] tcp_clean.clean_send_new [OF room]]
          tcp_live.send_new_ends [OF assms(2), unfolded tcp_live.ends_def]]])
      (use echo in \<open>auto simp: bytes_written_def, blast+\<close>)
qed

lemma sample_send_runs:
  "map_option fst (send_new (TcpTransport sample_address) WRTE (Some 1) (Some 7) [104] sample_info (sample_manager []))
     = Some (Inr ())"
  by code_simp

theorem wire_round_trip_witness:
  "\<exists>m' f. send_new (TcpTransport sample_address) WRTE (Some 1) (Some 7) [104] sample_info (sample_manager [])
       = Some (Inr (), m') \<and> sent (transport_state m') = f \<and>
     (\<forall>m2 rest. endpoint_input (transport_state m2) = f @ rest \<longrightarrow>
        wp True (read_packet_from_device (TcpTransport sample_address) sample_info)
          (\<lambda>p m2'. p = (WRTE, 1, 7, [104]) \<and> endpoint_input (transport_state m2') = rest)
          (\<lambda>e _. \<not> malformed e) m2)"
proof -
  obtain m' where run: "send_new (TcpTransport sample_address) WRTE (Some 1) (Some 7) [104] sample_info
      (sample_manager []) = Some (Inr (), m')"
    using sample_send_runs by auto
  have "unlimited (transport_state (sample_manager []))" "transport_timeout_s sample_info = Some 10" by simp_all
  from wp_returned [OF wire_round_trip [OF this] run] run show ?thesis by auto
qed

text \<open>C40. The number of bytes a transport took is ignored: \<open>_send\<close> can return normally although
  only part of the header has reached the device.\<close>

definition narrow_manager :: "tcp_world io_manager" where
  "narrow_manager = \<lparr>packet_store = [], transport_state = (sample_world [])\<lparr>connection :=
     Some \<lparr>rx = [], tx = [(0, Room 10)], sock_timeout = Some 0\<rparr>\<rparr>\<rparr>"

theorem short_write_is_silent:
  "case send_new (TcpTransport sample_address) OKAY (Some 1) (Some 7) [] sample_info narrow_manager of
     Some (Inr (), m') \<Rightarrow> length (sent (transport_state m')) = 10
   | _ \<Rightarrow> False"
  by code_simp

end
