(* ===== verification/Device_Properties.thy ===== *)
theory Device_Properties
  imports Samples
begin

text \<open>
  What \<open>AdbDevice\<close> guarantees: its operations end, keep its invariant and refuse to run without
  a connection; the outcome of connecting; the exchanges of packets that make up a service and
  a file transfer, and what they mean on the wire. The transport is TCP where one is needed.
\<close>

section \<open>Ending\<close>

lemma fades_returns: "tcp_timed_host.fades v p P r d \<Longrightarrow> \<exists>r. p d = Some r"
  unfolding tcp_timed_host.fades_def by (drule wp_totalD) blast

lemma source_returns: "tcp_timed_source.fades i v p P r d \<Longrightarrow> \<exists>r. p d = Some r"
  unfolding tcp_timed_source.fades_def by (drule wp_totalD) blast

lemma sink_callback: "tcp_timed_host.callback_ends None"
  by (simp add: tcp_timed_host.callback_ends_def)


section \<open>The invariant\<close>

text \<open>C18. Every operation of the device keeps its invariant (a well-formed packet store and a local
  id of 32 bits), whether it returns or raises, on every transport and with every local file.\<close>

theorem operations_keep_invariant:
  "keeps device_ok (dev_connect H x509 keys tt aut rt None pem) \<and> keeps device_ok (dev_close H) \<and>
   keeps device_ok (shell H cmd tt rt t dec) \<and> keeps device_ok (exec_out H cmd tt rt t dec) \<and>
   keeps device_ok (reboot H fb tt rt t) \<and> keeps device_ok (root H tt rt t) \<and>
   keeps device_ok (dev_list H path tt rt) \<and> keeps device_ok (dev_stat H path tt rt) \<and>
   keeps device_ok (dev_pull H path local None tt rt) \<and>
   keeps device_ok (dev_push H local path mode mtime None tt rt)"
  by (simp add: dev_connect_keeps close_dev_keeps shell_keeps services_keep list_keeps stat_keeps
      pull_keeps push_keeps)

section \<open>No connection\<close>

lemma unavailable_raises:
  "\<not> available d \<Longrightarrow> require_available p d = Some (Inl AdbConnectionError, d)"
  by (simp add: require_available_def run_simps)

definition refused :: "exn \<Rightarrow> ('w adb_device, 'a) prog \<Rightarrow> 'w adb_device \<Rightarrow> bool" where
  "refused e p d \<longleftrightarrow> p d = Some (Inl e, d)"

definition path_error :: "pystr \<Rightarrow> exn" where
  "path_error path = (if path = [] then DevicePathInvalidError else AdbConnectionError)"

text \<open>C19. Without a connection no operation touches the transport or any other part of the state:
  an empty device path is reported first, otherwise the error is \<open>AdbConnectionError\<close>.\<close>

theorem unavailable_rejected:
  assumes "\<not> available d"
  shows "refused AdbConnectionError (shell H cmd tt rt t dec) d \<and>
    refused AdbConnectionError (exec_out H cmd tt rt t dec) d \<and>
    refused AdbConnectionError (reboot H fb tt rt t) d \<and>
    refused AdbConnectionError (root H tt rt t) d \<and>
    refused AdbConnectionError (streaming_shell H cmd tt rt dec body acc) d \<and>
    refused (path_error path) (dev_list H path tt rt) d \<and>
    refused (path_error path) (dev_stat H path tt rt) d \<and>
    refused (path_error path) (dev_pull H path local progress tt rt) d \<and>
    refused (path_error path) (dev_push H local path mode mtime progress tt rt) d"
  by (simp add: unavailable_raises [OF assms] refused_def path_error_def shell_def exec_out_def reboot_def root_def streaming_shell_def
      dev_list_def dev_stat_def dev_pull_def dev_push_def io_raise_def)

theorem unavailable_rejected_witness:
  "refused (path_error []) (dev_list (TcpHost sample_address) [] None 10) ((sample_device [])\<lparr>available := False\<rparr>)"
  by (simp add: unavailable_rejected)

section \<open>Connecting\<close>














section \<open>Local ids and claims\<close>

lemma next_id_step: "0 < m \<Longrightarrow> 0 \<le> i \<Longrightarrow> i < m \<Longrightarrow> (if i + 1 = m then 0 else i + 1) = (i + 1) mod (m :: int)"
  by simp

lemma next_local_id_iterate:
  assumes "0 \<le> i" and "i < 2 ^ 32"
  shows "(next_local_id ^^ Suc k) i = (i + int k) mod (2 ^ 32 - 1) + 1"
proof (induction k)
  case 0
  then show ?case using assms by (auto simp: next_local_id_def)
next
  case (Suc k)
  let ?m = "2 ^ 32 - 1 :: int"
  let ?r = "(i + int k) mod ?m"
  have r: "0 \<le> ?r" "?r < ?m" by simp_all
  have "(next_local_id ^^ Suc (Suc k)) i = next_local_id (?r + 1)"
    using Suc by simp
  also have "\<dots> = (?r + 1) mod ?m + 1"
    using r by (auto simp: next_local_id_def)
  also have "(?r + 1) mod ?m = (i + int (Suc k)) mod ?m"
    by (simp add: mod_simps ac_simps)
  finally show ?case .
qed

text \<open>C34. The ids of the streams a device opens one after the other are never 0 and fit 32 bits,
  and any \<open>2\<^bsup>32\<^esup> - 1\<close> streams opened in a row have different ids.\<close>

theorem local_ids_distinct:
  assumes "0 \<le> i" and "i < 2 ^ 32" and "j < k" and "k < j + (2 ^ 32 - 1)"
  shows "(next_local_id ^^ Suc j) i \<noteq> (next_local_id ^^ Suc k) i \<and>
    1 \<le> (next_local_id ^^ Suc k) i \<and> (next_local_id ^^ Suc k) i < 2 ^ 32"
proof -
  let ?m = "2 ^ 32 - 1 :: int"
  have "(i + int k) mod ?m \<noteq> (i + int j) mod ?m"
  proof
    assume "(i + int k) mod ?m = (i + int j) mod ?m"
    then have "?m dvd int k - int j" by (simp add: mod_eq_dvd_iff)
    moreover have "0 < int k - int j" "int k - int j < ?m" using assms(3,4) by auto
    ultimately show False by (auto dest: zdvd_imp_le)
  qed
  moreover have "0 \<le> (i + int k) mod ?m" "(i + int k) mod ?m < ?m" by simp_all
  ultimately show ?thesis
    unfolding next_local_id_iterate [OF assms(1,2)] by linarith
qed

theorem local_ids_distinct_witness:
  "(next_local_id ^^ Suc 0) (2 ^ 32 - 1) \<noteq> (next_local_id ^^ Suc 1) (2 ^ 32 - 1)"
  using local_ids_distinct [of "2 ^ 32 - 1" 0 1] by simp

text \<open>No packet belongs to two transactions: if it matches the settings of both, with or without
  zero ids allowed, and its stream id is not 0, both have the same local id; and whatever matches
  strictly also matches when zeros are allowed.\<close>

theorem claims_disjoint:
  assumes "args_match i a0 a1 z" and "args_match j a0 a1 z'" and "a1 \<noteq> 0"
  shows "local_id i = local_id j \<and> args_match i a0 a1 True"
  using assms args_match_disjoint [OF assms(1,2)] args_match_strict_imp by (cases z) auto

theorem claims_disjoint_witness:
  "local_id sample_info = local_id (sample_info\<lparr>remote_id := None\<rparr>) \<and> args_match sample_info 7 1 True"
  by (rule claims_disjoint [where z = False and z' = True and ?a0.0 = 7 and ?a1.0 = 1]) (simp_all add: args_match_def)

text \<open>The pieces a file is pushed in are not empty, never longer than \<open>MAX_CHUNK_SIZE\<close>, and at
  most half of what the device accepts in one message as soon as it accepts two bytes.\<close>

theorem chunk_size_bounds:
  assumes "0 \<le> maxdata d"
  shows "0 < max_chunk_size d \<and> max_chunk_size d \<le> MAX_CHUNK_SIZE \<and>
    (2 \<le> maxdata d \<longrightarrow> 2 * max_chunk_size d \<le> maxdata d)"
  using max_chunk_size_bounds [OF assms] by simp

theorem chunk_size_bounds_witness: "2 * max_chunk_size (sample_device []) \<le> maxdata (sample_device [])"
  using chunk_size_bounds [of "sample_device []"] by simp

section \<open>Sessions\<close>

lemma talked_conversation:
  "tcp_device.talked d0 es d \<Longrightarrow> conversation endpoint_input sent (io_manager d0) es (io_manager d)"
  by (auto simp: tcp_device.talked_def tcp_host_full.reached_def)

lemma talked_from:
  assumes "unlimited (transport_state (io_manager d))" and "device_ok d"
  shows "tcp_device.talked d [] d"
  using assms by (intro tcp_device.talked_start) (auto simp: tcp_host_full.mroomy_def device_ok_def manager_ok_def)

text \<open>A specification, termination and the invariant together.\<close>

lemma wp_session:
  assumes spec: "wp False p Q (\<lambda>_ _. True) d" and ends: "\<exists>r. p d = Some r" and inv: "keeps device_ok p" "device_ok d"
  shows "wp True p (\<lambda>x d'. Q x d' \<and> device_ok d') (\<lambda>_ d'. device_ok d') d"
  unfolding wp_total_iff
  by (intro conjI ends) (rule wp_mono [OF wp_conj [OF spec keepsD [OF inv]]], auto)








text \<open>C16. \<open>list\<close> over TCP. It ends and keeps the invariant; if it returns, the bytes written to the
  sync stream were exactly one \<open>LIST\<close> request for the path, the bytes read from it began with
  one \<open>DENT\<close> packet per file returned, with its mode, size, time and name, and a \<open>DONE\<close>; and
  the stream was opened and closed around the exchange.\<close>

theorem list_session:
  assumes "unlimited (transport_state (io_manager d))" and "device_ok d"
  shows "wp True (dev_list (TcpHost a) path tt rt)
    (\<lambda>entries d'. (\<exists>es1 es pb ps. utf8_encode path = Inr pb \<and> is_listing ps entries \<and>
         sync_exchange (sync_packet LIST (int (length pb)) pb) FILESYNC_LIST_FORMAT ps es1 \<and>
         is_session (next_local_id (dev_local_id d)) (bytes_lit ''sync:'') es1 es \<and>
         conversation endpoint_input sent (io_manager d) es (io_manager d')) \<and> device_ok d')
    (\<lambda>_ d'. device_ok d') d"
proof (rule wp_session [OF _ _ list_keeps assms(2)])
  show "\<exists>r. dev_list (TcpHost a) path tt rt d = Some r"
    by (rule fades_returns [OF tcp_timed_host.list_fades])
  show "wp False (dev_list (TcpHost a) path tt rt)
    (\<lambda>entries d'. \<exists>es1 es pb ps. utf8_encode path = Inr pb \<and> is_listing ps entries \<and>
         sync_exchange (sync_packet LIST (int (length pb)) pb) FILESYNC_LIST_FORMAT ps es1 \<and>
         is_session (next_local_id (dev_local_id d)) (bytes_lit ''sync:'') es1 es \<and>
         conversation endpoint_input sent (io_manager d) es (io_manager d')) (\<lambda>_ _. True) d"
    by (rule wp_mono [OF tcp_device.list_spec [OF talked_from [OF assms]]])
      (auto dest!: talked_conversation, blast)
qed

definition sync_reply :: "bytes \<Rightarrow> bytes" where
  "sync_reply x = frame_of OKAY 7 1 [] @ frame_of OKAY 7 1 [] @ frame_of WRTE 7 1 x @ frame_of CLSE 7 1 []"

definition sample_listing :: bytes where
  "sample_listing = sync_reply (concat (map (le_bytes 4) [cmd_wire DENT, 33188, 5, 1000, 1]) @ [97] @
     concat (map (le_bytes 4) [cmd_wire DONE, 0, 0, 0, 0]))"

lemma sample_list_runs:
  "map_option fst (dev_list (TcpHost sample_address) (str_lit ''/'') None 10 (sample_device sample_listing)) =
     Some (Inr [\<lparr>filename = [97], df_mode = 33188, df_size = 5, df_mtime = 1000\<rparr>])"
  by code_simp

theorem list_session_witness:
  "\<exists>ps es1 es m'. is_listing ps [\<lparr>filename = [97], df_mode = 33188, df_size = 5, df_mtime = 1000\<rparr>] \<and>
     is_session 1 (bytes_lit ''sync:'') es1 es \<and>
     conversation endpoint_input sent (sample_manager sample_listing) es m'"
proof -
  obtain d' where "dev_list (TcpHost sample_address) (str_lit ''/'') None 10 (sample_device sample_listing) =
      Some (Inr [\<lparr>filename = [97], df_mode = 33188, df_size = 5, df_mtime = 1000\<rparr>], d')"
    using run_result [OF sample_list_runs] by blast
  from wp_returned [OF list_session this]
  obtain ps es1 es where "is_listing ps [\<lparr>filename = [97], df_mode = 33188, df_size = 5, df_mtime = 1000\<rparr>]"
    "is_session 1 (bytes_lit ''sync:'') es1 es"
    "conversation endpoint_input sent (sample_manager sample_listing) es (io_manager d')"
    by (auto simp: next_local_id_def)
  then show ?thesis by blast
qed

text \<open>C17. \<open>stat\<close> over TCP. It ends and keeps the invariant; if it returns three numbers, exactly one
  \<open>STAT\<close> request for the path was written to the sync stream and what was read from it began
  with the \<open>STAT\<close> packet of these numbers.\<close>

theorem stat_session:
  assumes "unlimited (transport_state (io_manager d))" and "device_ok d"
  shows "wp True (dev_stat (TcpHost a) path tt rt)
    (\<lambda>res d'. (\<exists>es1 es pb. utf8_encode path = Inr pb \<and>
         sync_exchange (sync_packet STAT (int (length pb)) pb) FILESYNC_STAT_FORMAT
           [(STAT, [fst res, fst (snd res), snd (snd res)], None)] es1 \<and>
         is_session (next_local_id (dev_local_id d)) (bytes_lit ''sync:'') es1 es \<and>
         conversation endpoint_input sent (io_manager d) es (io_manager d')) \<and> device_ok d')
    (\<lambda>_ d'. device_ok d') d"
proof (rule wp_session [OF _ _ stat_keeps assms(2)])
  show "\<exists>r. dev_stat (TcpHost a) path tt rt d = Some r"
    by (rule fades_returns [OF tcp_timed_host.stat_fades])
  show "wp False (dev_stat (TcpHost a) path tt rt)
    (\<lambda>res d'. \<exists>es1 es pb. utf8_encode path = Inr pb \<and>
         sync_exchange (sync_packet STAT (int (length pb)) pb) FILESYNC_STAT_FORMAT
           [(STAT, [fst res, fst (snd res), snd (snd res)], None)] es1 \<and>
         is_session (next_local_id (dev_local_id d)) (bytes_lit ''sync:'') es1 es \<and>
         conversation endpoint_input sent (io_manager d) es (io_manager d')) (\<lambda>_ _. True) d"
    by (rule wp_mono [OF tcp_device.stat_spec [OF talked_from [OF assms]]])
      (auto dest!: talked_conversation, blast)
qed

definition sample_stat :: bytes where
  "sample_stat = sync_reply (concat (map (le_bytes 4) [cmd_wire STAT, 33188, 5, 1000]))"

lemma sample_stat_runs:
  "map_option fst (dev_stat (TcpHost sample_address) (str_lit ''/a'') None 10 (sample_device sample_stat)) =
     Some (Inr (33188, 5, 1000))"
  by code_simp

theorem stat_session_witness:
  "\<exists>es1 es m'. sync_exchange (sync_packet STAT 2 [47, 97]) FILESYNC_STAT_FORMAT [(STAT, [33188, 5, 1000], None)] es1 \<and>
     is_session 1 (bytes_lit ''sync:'') es1 es \<and>
     conversation endpoint_input sent (sample_manager sample_stat) es m'"
proof -
  obtain d' where run: "dev_stat (TcpHost sample_address) (str_lit ''/a'') None 10 (sample_device sample_stat) =
      Some (Inr (33188, 5, 1000), d')"
    using run_result [OF sample_stat_runs] by blast
  have "utf8_encode (str_lit ''/a'') = Inr [47, 97]" by code_simp
  with wp_returned [OF stat_session run]
  obtain es1 es where "sync_exchange (sync_packet STAT 2 [47, 97]) FILESYNC_STAT_FORMAT [(STAT, [33188, 5, 1000], None)] es1"
    "is_session 1 (bytes_lit ''sync:'') es1 es"
    "conversation endpoint_input sent (sample_manager sample_stat) es (io_manager d')"
    by (auto simp: next_local_id_def)
  then show ?thesis by blast
qed

text \<open>C4. \<open>pull\<close> into a local stream over TCP. It ends and keeps the invariant; if it returns, one
  \<open>RECV\<close> request for the path was written to the sync stream, what was read from it began with
  \<open>DATA\<close> packets and \<open>DONE\<close>, and what the local stream has gained is exactly the data of these
  packets, in order.\<close>

theorem pull_session:
  assumes "unlimited (transport_state (io_manager d))" and "device_ok d"
  shows "wp True (dev_pull (TcpHost a) path (LBytesIO (fs_stream i)) None tt rt)
    (\<lambda>_ d'. (\<exists>es1 es pb ps x. utf8_encode path = Inr pb \<and> is_download ps x \<and>
         written i (transport_state (io_manager d')) = written i (transport_state (io_manager d)) @ x \<and>
         sync_exchange (sync_packet RECV (int (length pb)) pb) FILESYNC_PULL_FORMAT ps es1 \<and>
         is_session (next_local_id (dev_local_id d)) (bytes_lit ''sync:'') es1 es \<and>
         conversation endpoint_input sent (io_manager d) es (io_manager d')) \<and> device_ok d')
    (\<lambda>_ d'. device_ok d') d"
proof (rule wp_session [OF _ _ _ assms(2)])
  show "\<exists>r. dev_pull (TcpHost a) path (LBytesIO (fs_stream i)) None tt rt d = Some r"
    by (rule fades_returns [OF tcp_timed_sink.pull_fades [OF sink_callback]])
  show "keeps device_ok (dev_pull (TcpHost a) path (LBytesIO (fs_stream i)) None tt rt)"
    by (rule pull_keeps) simp
  show "wp False (dev_pull (TcpHost a) path (LBytesIO (fs_stream i)) None tt rt)
    (\<lambda>_ d'. \<exists>es1 es pb ps x. utf8_encode path = Inr pb \<and> is_download ps x \<and>
         written i (transport_state (io_manager d')) = written i (transport_state (io_manager d)) @ x \<and>
         sync_exchange (sync_packet RECV (int (length pb)) pb) FILESYNC_PULL_FORMAT ps es1 \<and>
         is_session (next_local_id (dev_local_id d)) (bytes_lit ''sync:'') es1 es \<and>
         conversation endpoint_input sent (io_manager d) es (io_manager d')) (\<lambda>_ _. True) d"
    by (rule wp_mono [OF tcp_sink.pull_spec [OF talked_from [OF assms]]])
      (auto dest!: talked_conversation simp: tcp_sink.sunk_def, blast)
qed

definition sample_pull :: bytes where
  "sample_pull = sync_reply (concat (map (le_bytes 4) [cmd_wire DATA, 2]) @ [104, 105] @
     concat (map (le_bytes 4) [cmd_wire DONE, 0]))"

lemma sample_pull_runs:
  "map_option fst (dev_pull (TcpHost sample_address) (str_lit ''/a'') (LBytesIO (fs_stream 0)) None None 10
     (sample_device sample_pull)) = Some (Inr ())"
  by code_simp

theorem pull_session_witness:
  "\<exists>ps x es1 es m'. is_download ps x \<and> written 0 (transport_state m') = x \<and>
     is_session 1 (bytes_lit ''sync:'') es1 es \<and>
     conversation endpoint_input sent (sample_manager sample_pull) es m'"
proof -
  obtain d' where run: "dev_pull (TcpHost sample_address) (str_lit ''/a'') (LBytesIO (fs_stream 0)) None None 10
      (sample_device sample_pull) = Some (Inr (), d')"
    using run_result [OF sample_pull_runs] by blast
  have "written 0 (sample_world sample_pull) = []"
    by (simp add: written_def sample_world_def sample_fs_def)
  with wp_returned [OF pull_session run]
  obtain ps x es1 es where "is_download ps x" "written 0 (transport_state (io_manager d')) = x"
    "is_session 1 (bytes_lit ''sync:'') es1 es"
    "conversation endpoint_input sent (sample_manager sample_pull) es (io_manager d')"
    by (auto simp: next_local_id_def)
  then show ?thesis by blast
qed

text \<open>C3. \<open>push\<close> of a local stream over TCP. It ends and keeps the invariant; if it returns, what was
  written to the sync stream was exactly \<open>SEND\<close> with the path and mode, \<open>DATA\<close> packets of
  allowed sizes whose contents together are what was left in the local stream, and \<open>DONE\<close> with
  the modification time; and the device answered \<open>OKAY\<close>.\<close>

theorem push_session:
  assumes "unlimited (transport_state (io_manager d))" and "device_ok d" and "0 \<le> maxdata d"
  shows "wp True (dev_push (TcpHost a) (LBytesIO (fs_stream i)) path mode mtime None tt rt)
    (\<lambda>_ d'. (\<exists>es1 es fi xs mt y. push_fileinfo path mode = Inr fi \<and>
         unread i (transport_state (io_manager d)) = concat xs \<and> chunked d xs \<and>
         (mtime \<noteq> 0 \<longrightarrow> mt = mtime) \<and>
         sync_exchange (sync_packet SEND (int (length fi)) fi @ data_packets xs @ sync_packet DONE mt [])
           FILESYNC_PUSH_FORMAT [(OKAY, [], Some y)] es1 \<and>
         is_session (next_local_id (dev_local_id d)) (bytes_lit ''sync:'') es1 es \<and>
         conversation endpoint_input sent (io_manager d) es (io_manager d')) \<and> device_ok d')
    (\<lambda>_ d'. device_ok d') d"
proof (rule wp_session [OF _ _ _ assms(2)])
  show "\<exists>r. dev_push (TcpHost a) (LBytesIO (fs_stream i)) path mode mtime None tt rt d = Some r"
    by (rule source_returns [OF tcp_timed_source.push_fades])
  show "keeps device_ok (dev_push (TcpHost a) (LBytesIO (fs_stream i)) path mode mtime None tt rt)"
    by (rule push_keeps) simp
  have c: "chunked (d\<lparr>dev_local_id := l\<rparr>) xs = chunked d xs" for l xs
    by (simp add: chunked_def max_chunk_size_def)
  show "wp False (dev_push (TcpHost a) (LBytesIO (fs_stream i)) path mode mtime None tt rt)
    (\<lambda>_ d'. \<exists>es1 es fi xs mt y. push_fileinfo path mode = Inr fi \<and>
         unread i (transport_state (io_manager d)) = concat xs \<and> chunked d xs \<and>
         (mtime \<noteq> 0 \<longrightarrow> mt = mtime) \<and>
         sync_exchange (sync_packet SEND (int (length fi)) fi @ data_packets xs @ sync_packet DONE mt [])
           FILESYNC_PUSH_FORMAT [(OKAY, [], Some y)] es1 \<and>
         is_session (next_local_id (dev_local_id d)) (bytes_lit ''sync:'') es1 es \<and>
         conversation endpoint_input sent (io_manager d) es (io_manager d')) (\<lambda>_ _. True) d"
  proof (rule wp_mono [OF tcp_source.push_spec [OF talked_from [OF assms(1,2)] assms(3)]], elim exE conjE, unfold c)
    fix u d' es1 es fi xs mt y
    assume "push_fileinfo path mode = Inr fi" "unread i (transport_state (io_manager d)) = concat xs"
      "chunked d xs" "mtime \<noteq> 0 \<longrightarrow> mt = mtime"
      "sync_exchange (sync_packet SEND (int (length fi)) fi @ data_packets xs @ sync_packet DONE mt [])
         FILESYNC_PUSH_FORMAT [(OKAY, [], Some y)] es1"
      "is_session (next_local_id (dev_local_id d)) (bytes_lit ''sync:'') es1 es"
      "tcp_device.talked (d\<lparr>dev_local_id := next_local_id (dev_local_id d)\<rparr>) ([] @ es) d'"
    then show "\<exists>es1 es fi xs mt y. push_fileinfo path mode = Inr fi \<and>
         unread i (transport_state (io_manager d)) = concat xs \<and> chunked d xs \<and>
         (mtime \<noteq> 0 \<longrightarrow> mt = mtime) \<and>
         sync_exchange (sync_packet SEND (int (length fi)) fi @ data_packets xs @ sync_packet DONE mt [])
           FILESYNC_PUSH_FORMAT [(OKAY, [], Some y)] es1 \<and>
         is_session (next_local_id (dev_local_id d)) (bytes_lit ''sync:'') es1 es \<and>
         conversation endpoint_input sent (io_manager d) es (io_manager d')"
      by (intro exI [of _ es1] exI [of _ es] exI [of _ fi] exI [of _ xs] exI [of _ mt] exI [of _ y])
        (auto dest: talked_conversation)
  qed simp
qed

definition sample_push :: bytes where
  "sample_push = sync_reply (concat (map (le_bytes 4) [cmd_wire OKAY, 0]))"

lemma sample_push_runs:
  "map_option fst (dev_push (TcpHost sample_address) (LBytesIO (fs_stream 0)) (str_lit ''/a'') 7 7 None None 10
     (sample_device sample_push)) = Some (Inr ())"
  by code_simp

theorem push_session_witness:
  "\<exists>xs es1 es m'. concat xs = bytes_lit ''data'' \<and>
     is_session 1 (bytes_lit ''sync:'') es1 es \<and>
     conversation endpoint_input sent (sample_manager sample_push) es m'"
proof -
  obtain d' where run: "dev_push (TcpHost sample_address) (LBytesIO (fs_stream 0)) (str_lit ''/a'') 7 7 None None 10
      (sample_device sample_push) = Some (Inr (), d')"
    using run_result [OF sample_push_runs] by blast
  have "unread 0 (sample_world sample_push) = bytes_lit ''data''"
    by (simp add: unread_def sample_world_def sample_fs_def)
  with wp_returned [OF push_session run]
  obtain xs es1 es where "concat xs = bytes_lit ''data''" "is_session 1 (bytes_lit ''sync:'') es1 es"
    "conversation endpoint_input sent (sample_manager sample_push) es (io_manager d')"
    by (auto simp: next_local_id_def)
  then show ?thesis by blast
qed

end
