(* ===== verification/Pairing_Packets.thy ===== *)
theory Pairing_Packets
  imports Struct_Pack
begin

text \<open>
  The wire formats of Wi-Fi pairing: \<open>pairing/constants.py\<close> and, of
  \<open>pairing/connection.py\<close>, the \<open>PeerInfo\<close> structure of 8192 bytes and the packet header
  of 6 bytes. A header is read back exactly when the payload size is acceptable, every
  other header is rejected, and a peer information that was read can be packed again to the
  bytes it was read from.
\<close>

section \<open>Constants\<close>

definition SPAKE2_CLIENT_NAME :: bytes where "SPAKE2_CLIENT_NAME = bytes_lit ''adb pair client''"
definition SPAKE2_SERVER_NAME :: bytes where "SPAKE2_SERVER_NAME = bytes_lit ''adb pair server''"
definition HKDF_INFO :: bytes where "HKDF_INFO = bytes_lit ''adb pairing_auth aes-128-gcm key''"
definition AES_KEY_LENGTH :: int where "AES_KEY_LENGTH = 16"

text \<open>The label ends with a zero byte.\<close>

definition TLS_EXPORTER_LABEL :: bytes where "TLS_EXPORTER_LABEL = bytes_lit ''adb-label'' @ [0]"
definition TLS_EXPORTER_LENGTH :: int where "TLS_EXPORTER_LENGTH = 64"
definition PAIRING_PACKET_HEADER_VERSION :: int where "PAIRING_PACKET_HEADER_VERSION = 1"
definition PAIRING_PACKET_HEADER_SIZE :: int where "PAIRING_PACKET_HEADER_SIZE = 6"
definition PAIRING_PACKET_TYPE_SPAKE2_MSG :: int where "PAIRING_PACKET_TYPE_SPAKE2_MSG = 0"
definition PAIRING_PACKET_TYPE_PEER_INFO :: int where "PAIRING_PACKET_TYPE_PEER_INFO = 1"
definition PEER_INFO_SIZE :: int where "PEER_INFO_SIZE = 8192"
definition PEER_INFO_DATA_SIZE :: int where "PEER_INFO_DATA_SIZE = PEER_INFO_SIZE - 1"
definition PEER_INFO_TYPE_ADB_RSA_PUB_KEY :: int where "PEER_INFO_TYPE_ADB_RSA_PUB_KEY = 0"
definition PEER_INFO_TYPE_ADB_DEVICE_GUID :: int where "PEER_INFO_TYPE_ADB_DEVICE_GUID = 1"
definition MAX_PAYLOAD_SIZE :: int where "MAX_PAYLOAD_SIZE = PEER_INFO_SIZE * 2"

text \<open>The bytes of the strings, for evaluation.\<close>

lemma name_codes [code]:
  "SPAKE2_CLIENT_NAME = [97, 100, 98, 32, 112, 97, 105, 114, 32, 99, 108, 105, 101, 110, 116]"
  "SPAKE2_SERVER_NAME = [97, 100, 98, 32, 112, 97, 105, 114, 32, 115, 101, 114, 118, 101, 114]"
  "HKDF_INFO = [97, 100, 98, 32, 112, 97, 105, 114, 105, 110, 103, 95, 97, 117, 116, 104, 32, 97, 101, 115, 45, 49, 50, 56, 45, 103, 99, 109, 32, 107, 101, 121]"
  "TLS_EXPORTER_LABEL = [97, 100, 98, 45, 108, 97, 98, 101, 108, 0]"
  by (simp_all add: SPAKE2_CLIENT_NAME_def SPAKE2_SERVER_NAME_def HKDF_INFO_def TLS_EXPORTER_LABEL_def
      bytes_lit_def of_char_def)

lemmas pairing_const_defs = PAIRING_PACKET_HEADER_VERSION_def PAIRING_PACKET_HEADER_SIZE_def
  PAIRING_PACKET_TYPE_SPAKE2_MSG_def PAIRING_PACKET_TYPE_PEER_INFO_def PEER_INFO_SIZE_def
  PEER_INFO_DATA_SIZE_def PEER_INFO_TYPE_ADB_RSA_PUB_KEY_def MAX_PAYLOAD_SIZE_def
  TLS_EXPORTER_LENGTH_def AES_KEY_LENGTH_def

section \<open>Peer information\<close>

record peer_info =
  peer_type :: int
  peer_data :: bytes

definition PeerInfo :: "int \<Rightarrow> bytes \<Rightarrow> exn + peer_info" where
  "PeerInfo t data =
     (if int (length data) > PEER_INFO_DATA_SIZE then Inl ValueError
      else Inr \<lparr>peer_type = t, peer_data = data\<rparr>)"

text \<open>\<open>b"\x00" * n\<close> is empty for negative \<open>n\<close>; \<open>struct.pack("B", type)\<close> takes one byte.\<close>

definition peer_info_pack :: "peer_info \<Rightarrow> exn + bytes" where
  "peer_info_pack p =
     (let padding = replicate (nat (PEER_INFO_DATA_SIZE - int (length (peer_data p)))) 0
      in e_bind (pack_uint 1 (Some (peer_type p))) (\<lambda>t. Inr (t @ peer_data p @ padding)))"

text \<open>\<open>bytes.rstrip(b"\x00")\<close>\<close>

definition rstrip_zeros :: "bytes \<Rightarrow> bytes" where
  "rstrip_zeros d = rev (dropWhile (\<lambda>b. b = 0) (rev d))"

definition peer_info_unpack :: "bytes \<Rightarrow> exn + peer_info" where
  "peer_info_unpack blob =
     (if int (length blob) \<noteq> PEER_INFO_SIZE then Inl ValueError
      else PeerInfo (uint (hd blob)) (rstrip_zeros (tl blob)))"

definition make_peer_info_from_pubkey :: "bytes \<Rightarrow> exn + peer_info" where
  "make_peer_info_from_pubkey pubkey = PeerInfo PEER_INFO_TYPE_ADB_RSA_PUB_KEY pubkey"

section \<open>Packet headers\<close>

text \<open>\<open>struct.pack(">BBI", version, type, size)\<close>: two bytes and a big-endian integer.\<close>

definition pack_BBI :: "int \<Rightarrow> int \<Rightarrow> int \<Rightarrow> exn + bytes" where
  "pack_BBI a b c =
     e_bind (pack_uint 1 (Some a)) (\<lambda>x.
     e_bind (pack_uint 1 (Some b)) (\<lambda>y.
     e_bind (pack_uint 4 (Some c)) (\<lambda>z. Inr (x @ y @ rev z))))"

definition unpack_BBI :: "bytes \<Rightarrow> exn + int \<times> int \<times> int" where
  "unpack_BBI bs =
     (case bs of
        [a, b, c3, c2, c1, c0] \<Rightarrow> Inr (uint a, uint b, le_int [c0, c1, c2, c3])
      | _ \<Rightarrow> Inl StructError)"

definition pack_header :: "int \<Rightarrow> int \<Rightarrow> exn + bytes" where
  "pack_header packet_type payload_size =
     pack_BBI PAIRING_PACKET_HEADER_VERSION packet_type payload_size"

definition unpack_header :: "bytes \<Rightarrow> exn + int \<times> int" where
  "unpack_header blob =
     (if int (length blob) \<noteq> PAIRING_PACKET_HEADER_SIZE then Inl PairingException
      else e_bind (unpack_BBI blob) (\<lambda>(version, packet_type, payload_size).
        if version \<noteq> PAIRING_PACKET_HEADER_VERSION then Inl PairingException
        else if payload_size = 0 \<or> payload_size > MAX_PAYLOAD_SIZE then Inl PairingException
        else Inr (packet_type, payload_size)))"

section \<open>Lemmas\<close>

lemma pack_uint_1:
  "pack_uint 1 (Some i) = (if 0 \<le> i \<and> i < 256 then Inr [word_of_int i] else Inl StructError)"
  "pack_uint (Suc 0) (Some i) = (if 0 \<le> i \<and> i < 256 then Inr [word_of_int i] else Inl StructError)"
  by (simp_all add: pack_uint_def)

lemma pack_BBI_eq:
  "pack_BBI a b c =
     (if 0 \<le> a \<and> a < 256 \<and> 0 \<le> b \<and> b < 256 \<and> u32_range c
      then Inr ([word_of_int a, word_of_int b] @ rev (le_bytes 4 c)) else Inl StructError)"
  unfolding pack_BBI_def pack_uint_1 by (simp add: pack_uint_def u32_range_def)

lemma length_six:
  "length bs = 6 \<longleftrightarrow> (\<exists>a b c d e f. bs = [a, b, c, d, e, f])"
  by (auto simp: length_Suc_conv numeral_eq_Suc)

lemma unpack_BBI_six: "length bs = 6 \<Longrightarrow> \<exists>a b c. unpack_BBI bs = Inr (a, b, c)"
  by (auto simp: length_six unpack_BBI_def)

lemma le_bytes_4:
  obtains a b c d where "le_bytes 4 v = [a, b, c, d]"
  by (simp add: numeral_eq_Suc)

lemma unpack_pack_BBI:
  assumes "pack_BBI a b c = Inr bs"
  shows "unpack_BBI bs = Inr (a, b, c)" "length bs = 6"
proof -
  obtain w x y z where le: "le_bytes 4 c = [w, x, y, z]" by (rule le_bytes_4)
  from assms have r: "0 \<le> a" "a < 256" "0 \<le> b" "b < 256" "u32_range c"
    "bs = [word_of_int a, word_of_int b] @ rev (le_bytes 4 c)"
    by (auto simp: pack_BBI_eq split: if_splits)
  have "le_int [w, x, y, z] = c"
    using le_int_le_bytes [of 4 c] r(5) unfolding le by (simp add: u32_range_def)
  with r le show "unpack_BBI bs = Inr (a, b, c)" "length bs = 6"
    by (simp_all add: unpack_BBI_def uint_word_of_int_byte)
qed

lemma pack_unpack_BBI:
  assumes "unpack_BBI bs = Inr (a, b, c)"
  shows "pack_BBI a b c = Inr bs"
proof -
  from assms obtain x y c3 c2 c1 c0 where bs: "bs = [x, y, c3, c2, c1, c0]"
    and abc: "a = uint x" "b = uint y" "c = le_int [c0, c1, c2, c3]"
    by (auto simp: unpack_BBI_def split: list.splits)
  have "le_bytes 4 c = [c0, c1, c2, c3]"
    using le_bytes_le_int [of "[c0, c1, c2, c3]"] by (simp add: abc eval_nat_numeral del: le_int.simps le_bytes.simps)
  moreover have "u32_range c"
    using le_int_range [of "[c0, c1, c2, c3]"] by (simp add: abc u32_range_def del: le_int.simps)
  ultimately show ?thesis
    using uint_byte_range [of x] uint_byte_range [of y] by (simp add: pack_BBI_eq bs abc(1,2))
qed

lemma unpack_header_eq_Inr:
  "unpack_header bs = Inr (t, n) \<longleftrightarrow>
     pack_header t n = Inr bs \<and> 0 < n \<and> n \<le> MAX_PAYLOAD_SIZE"
proof
  assume "unpack_header bs = Inr (t, n)"
  then show "pack_header t n = Inr bs \<and> 0 < n \<and> n \<le> MAX_PAYLOAD_SIZE"
    using pack_unpack_BBI [of bs]
    by (auto simp: unpack_header_def e_bind_eq_Inr pack_header_def pack_BBI_eq u32_range_def
        split: if_splits)
next
  assume "pack_header t n = Inr bs \<and> 0 < n \<and> n \<le> MAX_PAYLOAD_SIZE"
  then show "unpack_header bs = Inr (t, n)"
    using unpack_pack_BBI [of PAIRING_PACKET_HEADER_VERSION t n bs]
    by (simp add: unpack_header_def pack_header_def pairing_const_defs)
qed

lemma unpack_header_error: "unpack_header bs = Inl e \<Longrightarrow> e = PairingException"
  using unpack_BBI_six [of bs]
  by (auto simp: unpack_header_def pairing_const_defs split: if_splits)

lemma pack_header_length: "pack_header t n = Inr h \<Longrightarrow> length h = 6"
  unfolding pack_header_def by (rule unpack_pack_BBI)

lemma pack_header_ok:
  "0 \<le> t \<Longrightarrow> t < 256 \<Longrightarrow> u32_range n \<Longrightarrow> \<exists>h. pack_header t n = Inr h"
  by (simp add: pack_header_def pack_BBI_eq pairing_const_defs)

text \<open>Trailing zeros.\<close>

lemma rstrip_zeros_split: "d = rstrip_zeros d @ replicate (length d - length (rstrip_zeros d)) 0"
proof -
  define z where "z = takeWhile (\<lambda>b. b = 0) (rev d)"
  have z: "z = replicate (length z) 0"
    using set_takeWhileD [of _ "\<lambda>b. b = 0" "rev d"]
    by (intro replicate_eqI) (auto simp: z_def)
  have "rev d = z @ rev (rstrip_zeros d)"
    by (simp add: z_def rstrip_zeros_def)
  then have d: "d = rstrip_zeros d @ rev z"
    by (metis rev_append rev_rev_ident)
  then have "length z = length d - length (rstrip_zeros d)"
    by (metis length_append length_rev diff_add_inverse)
  with d z show ?thesis by (metis rev_replicate)
qed

lemma rstrip_zeros_length: "length (rstrip_zeros d) \<le> length d"
  by (simp add: rstrip_zeros_def length_dropWhile_le [of _ "rev d", simplified])

lemma rstrip_zeros_padding: "rstrip_zeros (d @ replicate n 0) = rstrip_zeros d"
  by (induction n) (simp_all add: rstrip_zeros_def replicate_app_Cons_same)

lemma rstrip_zeros_id: "d = [] \<or> last d \<noteq> 0 \<Longrightarrow> rstrip_zeros d = d"
  by (cases d rule: rev_cases) (simp_all add: rstrip_zeros_def)

end
