(* ===== verification/Pairing_Auth.thy ===== *)
theory Pairing_Auth
  imports IO_Monad Pairing_Packets
begin

text \<open>
  \<open>pairing/auth.py\<close>: the password-authenticated key exchange and the cipher of one pairing
  session. SPAKE2, HKDF and AES-GCM are library code and parameters of the model; what the
  code adds is modelled: the roles, the guards, the one key, and the nonces counted up.
\<close>

section \<open>The libraries\<close>

text \<open>
  \<open>Spake2_Alice\<close> and \<open>Spake2_Bob\<close> with their own and the peer's name give an object of
  type \<open>'s\<close>; \<open>generate_msg\<close> draws random numbers from the world, \<open>process_msg\<close> gives the
  key material. A key of the cipher is its 16 bytes.
\<close>

record ('w, 's) crypto =
  Spake2_Alice :: "bytes \<Rightarrow> bytes \<Rightarrow> 's"
  Spake2_Bob :: "bytes \<Rightarrow> bytes \<Rightarrow> 's"
  generate_msg :: "'s \<Rightarrow> bytes \<Rightarrow> ('w, bytes \<times> 's) prog"
  process_msg :: "'s \<Rightarrow> bytes \<Rightarrow> (exn + bytes) \<times> 's"
  hkdf_sha256 :: "int \<Rightarrow> bytes \<Rightarrow> bytes \<Rightarrow> bytes"
  aes_encrypt :: "bytes \<Rightarrow> bytes \<Rightarrow> bytes \<Rightarrow> exn + bytes"
  aes_decrypt :: "bytes \<Rightarrow> bytes \<Rightarrow> bytes \<Rightarrow> exn + bytes"

section \<open>\<open>PairingAuthCtx\<close>\<close>

definition ROLE_CLIENT :: pystr where "ROLE_CLIENT = str_lit ''client''"
definition ROLE_SERVER :: pystr where "ROLE_SERVER = str_lit ''server''"

lemma role_codes [code]: "ROLE_CLIENT = [99, 108, 105, 101, 110, 116]" "ROLE_SERVER = [115, 101, 114, 118, 101, 114]"
  by (simp_all add: ROLE_CLIENT_def ROLE_SERVER_def str_lit_def of_char_def)

record 's auth_ctx =
  auth_role :: pystr
  spake :: 's
  cipher :: "bytes option"
  our_msg :: bytes
  enc_sequence :: int
  dec_sequence :: int

definition build_nonce :: "int \<Rightarrow> exn + bytes" where
  "build_nonce sequence = e_bind (pack_uint 8 (Some sequence)) (\<lambda>b. Inr (b @ [0, 0, 0, 0]))"

definition PairingAuthCtx ::
  "('w, 's) crypto \<Rightarrow> pystr \<Rightarrow> bytes \<Rightarrow> ('w, 's auth_ctx) prog" where
  "PairingAuthCtx C role password =
     (if role \<notin> {ROLE_CLIENT, ROLE_SERVER} then io_raise ValueError
      else if password = [] then io_raise ValueError
      else
        (let s = (if role = ROLE_CLIENT then Spake2_Alice C SPAKE2_CLIENT_NAME SPAKE2_SERVER_NAME
                  else Spake2_Bob C SPAKE2_SERVER_NAME SPAKE2_CLIENT_NAME)
         in io_bind (generate_msg C s password) (\<lambda>(msg, s').
              io_return \<lparr>auth_role = role, spake = s', cipher = None, our_msg = msg,
                         enc_sequence = 0, dec_sequence = 0\<rparr>)))"

definition init_cipher ::
  "('w, 's) crypto \<Rightarrow> bytes \<Rightarrow> 's auth_ctx \<Rightarrow> (exn + bool) \<times> 's auth_ctx" where
  "init_cipher C their_msg a =
     (if their_msg = [] then (Inl ValueError, a)
      else if cipher a \<noteq> None then (Inl RuntimeError, a)
      else
        (case process_msg C (spake a) their_msg of
           (Inl _, s) \<Rightarrow> (Inr False, a\<lparr>spake := s\<rparr>)
         | (Inr key_material, s) \<Rightarrow>
             if key_material = [] then (Inr False, a\<lparr>spake := s\<rparr>)
             else (Inr True,
                   a\<lparr>spake := s, cipher := Some (hkdf_sha256 C AES_KEY_LENGTH HKDF_INFO key_material)\<rparr>)))"

text \<open>The sequence number moves on only when the library has returned.\<close>

definition auth_encrypt ::
  "('w, 's) crypto \<Rightarrow> bytes \<Rightarrow> 's auth_ctx \<Rightarrow> (exn + bytes) \<times> 's auth_ctx" where
  "auth_encrypt C plaintext a =
     (case cipher a of
        None \<Rightarrow> (Inl RuntimeError, a)
      | Some key \<Rightarrow>
          (case e_bind (build_nonce (enc_sequence a)) (\<lambda>nonce. aes_encrypt C key nonce plaintext) of
             Inl e \<Rightarrow> (Inl e, a)
           | Inr ciphertext \<Rightarrow> (Inr ciphertext, a\<lparr>enc_sequence := enc_sequence a + 1\<rparr>)))"

definition auth_decrypt ::
  "('w, 's) crypto \<Rightarrow> bytes \<Rightarrow> 's auth_ctx \<Rightarrow> (exn + bytes) \<times> 's auth_ctx" where
  "auth_decrypt C ciphertext a =
     (case cipher a of
        None \<Rightarrow> (Inl RuntimeError, a)
      | Some key \<Rightarrow>
          (case e_bind (build_nonce (dec_sequence a)) (\<lambda>nonce. aes_decrypt C key nonce ciphertext) of
             Inl e \<Rightarrow> (Inl e, a)
           | Inr plaintext \<Rightarrow> (Inr plaintext, a\<lparr>dec_sequence := dec_sequence a + 1\<rparr>)))"

definition safe_encrypted_size :: "int \<Rightarrow> int" where
  "safe_encrypted_size plaintext_len = plaintext_len + 16"

definition safe_decrypted_size :: "int \<Rightarrow> int" where
  "safe_decrypted_size ciphertext_len = ciphertext_len"

section \<open>Nonces\<close>

lemma build_nonce_eq:
  "build_nonce i = (if 0 \<le> i \<and> i < 2 ^ 64 then Inr (le_bytes 8 i @ [0, 0, 0, 0]) else Inl StructError)"
  by (simp add: build_nonce_def pack_uint_def)

lemma build_nonce_length: "build_nonce i = Inr b \<Longrightarrow> length b = 12"
  by (auto simp: build_nonce_eq split: if_splits)

lemma build_nonce_inj:
  assumes "build_nonce i = Inr b" and "build_nonce j = Inr b"
  shows "i = j"
proof -
  from assms have r: "0 \<le> i" "i < 2 ^ 64" "0 \<le> j" "j < 2 ^ 64" and le: "le_bytes 8 i = le_bytes 8 j"
    by (auto simp: build_nonce_eq split: if_splits)
  from arg_cong [OF le, of le_int] have "i mod 256 ^ 8 = j mod 256 ^ 8"
    by (simp only: le_int_le_bytes)
  with r show ?thesis by simp
qed

section \<open>A session of calls\<close>

text \<open>
  The calls on one context, in any order, and what they seal: the key, the nonce and the
  ciphertext of every successful \<open>encrypt\<close>.
\<close>

datatype auth_call = InitCipher bytes | Encrypt bytes | Decrypt bytes

fun after_call :: "('w, 's) crypto \<Rightarrow> auth_call \<Rightarrow> 's auth_ctx \<Rightarrow> 's auth_ctx" where
  "after_call C (InitCipher m) a = snd (init_cipher C m a)"
| "after_call C (Encrypt p) a = snd (auth_encrypt C p a)"
| "after_call C (Decrypt c) a = snd (auth_decrypt C c a)"

fun sealed_by :: "('w, 's) crypto \<Rightarrow> auth_call \<Rightarrow> 's auth_ctx \<Rightarrow> (bytes \<times> bytes \<times> bytes) list" where
  "sealed_by C (Encrypt p) a =
     (case (cipher a, build_nonce (enc_sequence a), fst (auth_encrypt C p a)) of
        (Some key, Inr nonce, Inr ciphertext) \<Rightarrow> [(key, nonce, ciphertext)]
      | _ \<Rightarrow> [])"
| "sealed_by C _ a = []"

fun sealed :: "('w, 's) crypto \<Rightarrow> auth_call list \<Rightarrow> 's auth_ctx \<Rightarrow> (bytes \<times> bytes \<times> bytes) list" where
  "sealed C [] a = []"
| "sealed C (c # cs) a = sealed_by C c a @ sealed C cs (after_call C c a)"

text \<open>Everything sealed from now on has the context's key, if it has one, and a later number.\<close>

definition later_nonce :: "int \<Rightarrow> bytes \<Rightarrow> bool" where
  "later_nonce i b \<longleftrightarrow> (\<exists>j \<ge> i. build_nonce j = Inr b)"

lemma after_call_mono:
  "enc_sequence a \<le> enc_sequence (after_call C c a) \<and>
   (\<forall>k. cipher a = Some k \<longrightarrow> cipher (after_call C c a) = Some k)"
  by (cases c) (auto simp: init_cipher_def auth_encrypt_def auth_decrypt_def
      split: option.split sum.split prod.split)

lemma sealed_by_props:
  assumes "x \<in> set (sealed_by C c a)"
  shows "\<exists>p. c = Encrypt p \<and> cipher a = Some (fst x) \<and> build_nonce (enc_sequence a) = Inr (fst (snd x)) \<and>
    sealed_by C c a = [x] \<and> enc_sequence (after_call C c a) = enc_sequence a + 1"
  using assms
  by (cases c) (auto simp: auth_encrypt_def split: option.splits sum.splits)

lemma sealed_later:
  "x \<in> set (sealed C cs a) \<Longrightarrow>
     later_nonce (enc_sequence a) (fst (snd x)) \<and> (\<forall>k. cipher a = Some k \<longrightarrow> fst x = k)"
proof (induction cs arbitrary: a)
  case Nil
  then show ?case by simp
next
  case (Cons c cs)
  show ?case
  proof (cases "x \<in> set (sealed_by C c a)")
    case True
    with sealed_by_props [OF True] show ?thesis by (auto simp: later_nonce_def)
  next
    case False
    with Cons.prems have "x \<in> set (sealed C cs (after_call C c a))" by simp
    from Cons.IH [OF this] obtain j where "enc_sequence (after_call C c a) \<le> j"
      "build_nonce j = Inr (fst (snd x))" "\<forall>k. cipher (after_call C c a) = Some k \<longrightarrow> fst x = k"
      by (auto simp: later_nonce_def)
    with after_call_mono [of a C c] show ?thesis by (auto simp: later_nonce_def intro!: exI [of _ j])
  qed
qed

lemma sealed_nonces_distinct: "distinct (map (fst \<circ> snd) (sealed C cs a))"
proof (induction cs arbitrary: a)
  case Nil
  then show ?case by simp
next
  case (Cons c cs)
  note later = Cons.IH [of "after_call C c a"]
  show ?case
  proof (cases "sealed_by C c a")
    case Nil
    with later show ?thesis by simp
  next
    case (Cons x xs)
    then have "x \<in> set (sealed_by C c a)" by simp
    from sealed_by_props [OF this] have x: "build_nonce (enc_sequence a) = Inr (fst (snd x))"
      "sealed_by C c a = [x]" "enc_sequence (after_call C c a) = enc_sequence a + 1" by auto
    have "fst (snd y) \<noteq> fst (snd x)" if y: "y \<in> set (sealed C cs (after_call C c a))" for y
    proof
      assume eq: "fst (snd y) = fst (snd x)"
      from sealed_later [OF y] x(3) obtain j where j: "enc_sequence a + 1 \<le> j"
        "build_nonce j = Inr (fst (snd x))" unfolding later_nonce_def eq by auto
      from build_nonce_inj [OF x(1) j(2)] j(1) show False by simp
    qed
    then have "fst (snd x) \<notin> (fst \<circ> snd) ` set (sealed C cs (after_call C c a))" by force
    with x(2) later show ?thesis by simp
  qed
qed

lemma sealed_one_key: "x \<in> set (sealed C cs a) \<Longrightarrow> y \<in> set (sealed C cs a) \<Longrightarrow> fst x = fst y"
proof (induction cs arbitrary: a)
  case Nil
  then show ?case by simp
next
  case (Cons c cs)
  show ?case
  proof (cases "cipher a")
    case None
    then have "sealed_by C c a = []" by (cases c) simp_all
    with Cons show ?thesis by simp
  next
    case (Some k)
    with sealed_later [OF Cons.prems(1)] sealed_later [OF Cons.prems(2)] show ?thesis by simp
  qed
qed

section \<open>Two contexts with one key\<close>

fun encrypt_all :: "('w, 's) crypto \<Rightarrow> bytes list \<Rightarrow> 's auth_ctx \<Rightarrow> exn + bytes list" where
  "encrypt_all C [] a = Inr []"
| "encrypt_all C (p # ps) a =
     (case auth_encrypt C p a of
        (Inl e, _) \<Rightarrow> Inl e
      | (Inr c, a') \<Rightarrow> e_bind (encrypt_all C ps a') (\<lambda>cs. Inr (c # cs)))"

fun decrypt_all :: "('w, 's) crypto \<Rightarrow> bytes list \<Rightarrow> 's auth_ctx \<Rightarrow> exn + bytes list" where
  "decrypt_all C [] a = Inr []"
| "decrypt_all C (c # cs) a =
     (case auth_decrypt C c a of
        (Inl e, _) \<Rightarrow> Inl e
      | (Inr p, a') \<Rightarrow> e_bind (decrypt_all C cs a') (\<lambda>ps. Inr (p # ps)))"

lemma decrypt_encrypt_all:
  assumes inv: "\<And>k n p c. aes_encrypt C k n p = Inr c \<Longrightarrow> aes_decrypt C k n c = Inr p"
    and "encrypt_all C ps a = Inr cs" "cipher b = cipher a" "dec_sequence b = enc_sequence a"
  shows "decrypt_all C cs b = Inr ps"
  using assms(2-)
proof (induction ps arbitrary: a b cs)
  case Nil
  then show ?case by simp
next
  case (Cons p ps)
  from Cons.prems obtain k where k: "cipher a = Some k" "cipher b = Some k"
    by (auto simp: auth_encrypt_def split: option.splits)
  from Cons.prems(1) k(1) obtain n c cs' where n: "build_nonce (enc_sequence a) = Inr n"
    and c: "aes_encrypt C k n p = Inr c" and cs: "cs = c # cs'"
    and rest: "encrypt_all C ps (a\<lparr>enc_sequence := enc_sequence a + 1\<rparr>) = Inr cs'"
    by (auto simp: auth_encrypt_def e_bind_eq_Inr split: sum.splits)
  from Cons.IH [OF rest, of "b\<lparr>dec_sequence := dec_sequence b + 1\<rparr>"] Cons.prems
  have "decrypt_all C cs' (b\<lparr>dec_sequence := dec_sequence b + 1\<rparr>) = Inr ps" by simp
  with n cs k inv [OF c] Cons.prems(3) show ?case by (simp add: auth_decrypt_def)
qed

end
