(* ===== verification/Pairing_Connection.thy ===== *)
theory Pairing_Connection
  imports Pairing_Auth
begin

text \<open>
  \<open>PairingConnection\<close> of \<open>pairing/connection.py\<close>: the client's side of the pairing protocol
  over a transport with \<open>send_all\<close> and \<open>recv_exact\<close>. The locale \<open>pairing_channel\<close> states
  what the two methods promise; inside it, a session is specified by the bytes that go out
  and come in.
\<close>

section \<open>The protocol\<close>

record 'w pairing_transport =
  send_all :: "bytes \<Rightarrow> ('w, unit) prog"
  recv_exact :: "int \<Rightarrow> ('w, bytes) prog"

text \<open>Reading a header and the payload it announces, which has to be of the expected type.\<close>

definition recv_packet :: "('w, 'x) pairing_transport_scheme \<Rightarrow> int \<Rightarrow> ('w, bytes) prog" where
  "recv_packet T expected_type =
     io_bind (recv_exact T PAIRING_PACKET_HEADER_SIZE) (\<lambda>header.
     io_bind (io_lift (unpack_header header)) (\<lambda>(packet_type, payload_size).
       if packet_type \<noteq> expected_type then io_raise PairingException
       else recv_exact T payload_size))"

definition send_packet :: "('w, 'x) pairing_transport_scheme \<Rightarrow> int \<Rightarrow> bytes \<Rightarrow> ('w, unit) prog" where
  "send_packet T packet_type payload =
     io_bind (io_lift (pack_header packet_type (int (length payload)))) (\<lambda>header.
     io_then (send_all T header) (send_all T payload))"

definition exchange_spake2 ::
  "('w, 's) crypto \<Rightarrow> ('w, 'x) pairing_transport_scheme \<Rightarrow> 's auth_ctx \<Rightarrow> ('w, 's auth_ctx) prog" where
  "exchange_spake2 C T a =
     io_then (send_packet T PAIRING_PACKET_TYPE_SPAKE2_MSG (our_msg a))
     (io_bind (recv_packet T PAIRING_PACKET_TYPE_SPAKE2_MSG) (\<lambda>their_msg.
        case init_cipher C their_msg a of
          (Inl e, _) \<Rightarrow> io_raise e
        | (Inr ok, a') \<Rightarrow> if \<not> ok then io_raise PairingException else io_return a'))"

text \<open>Every exception of \<open>decrypt\<close> becomes a \<open>PairingException\<close>; those of \<open>unpack\<close> do not.\<close>

definition exchange_peer_info ::
  "('w, 's) crypto \<Rightarrow> ('w, 'x) pairing_transport_scheme \<Rightarrow> peer_info \<Rightarrow> 's auth_ctx \<Rightarrow>
     ('w, peer_info) prog" where
  "exchange_peer_info C T our_peer_info a =
     io_bind (io_lift (peer_info_pack our_peer_info)) (\<lambda>plaintext.
       case auth_encrypt C plaintext a of
         (Inl e, _) \<Rightarrow> io_raise e
       | (Inr ciphertext, a') \<Rightarrow>
           io_then (send_packet T PAIRING_PACKET_TYPE_PEER_INFO ciphertext)
           (io_bind (recv_packet T PAIRING_PACKET_TYPE_PEER_INFO) (\<lambda>encrypted.
              case fst (auth_decrypt C encrypted a') of
                Inl _ \<Rightarrow> io_raise PairingException
              | Inr decrypted \<Rightarrow> io_lift (peer_info_unpack decrypted))))"

definition pairing_run ::
  "('w, 's) crypto \<Rightarrow> ('w, 'x) pairing_transport_scheme \<Rightarrow> (bytes \<Rightarrow> int \<Rightarrow> ('w, bytes) prog) \<Rightarrow>
     bytes \<Rightarrow> peer_info \<Rightarrow> ('w, peer_info) prog" where
  "pairing_run C T exporter pairing_code our_peer_info =
     io_bind (io_catch (exporter TLS_EXPORTER_LABEL TLS_EXPORTER_LENGTH)
                (\<lambda>_. io_raise PairingException)) (\<lambda>keying_material.
       if int (length keying_material) \<noteq> TLS_EXPORTER_LENGTH then io_raise PairingException
       else
         io_bind (PairingAuthCtx C ROLE_CLIENT (pairing_code @ keying_material)) (\<lambda>a.
         io_bind (exchange_spake2 C T a) (exchange_peer_info C T our_peer_info)))"

section \<open>What a session is\<close>

text \<open>A value the program can return.\<close>

definition may_return :: "('w, 'a) prog \<Rightarrow> 'a \<Rightarrow> bool" where
  "may_return m x \<longleftrightarrow> (\<exists>w w'. m w = Some (Inr x, w'))"

text \<open>A call that has nothing to do with the channel.\<close>

definition undisturbed :: "('w \<Rightarrow> bytes) \<Rightarrow> ('w \<Rightarrow> bytes) \<Rightarrow> ('w, 'a) prog \<Rightarrow> bool" where
  "undisturbed inp out m \<longleftrightarrow>
     (\<forall>w. wp False m (\<lambda>_ w'. inp w' = inp w \<and> out w' = out w) (\<lambda>_ w'. inp w' = inp w \<and> out w' = out w) w)"

lemma undisturbed_keeps: "undisturbed inp out m \<longleftrightarrow> (\<forall>i b. keeps (\<lambda>w. inp w = i \<and> out w = b) m)"
  by (auto simp: undisturbed_def keeps_def)

lemma undisturbed_returns:
  assumes "undisturbed inp out m"
  shows "wp False m (\<lambda>x w'. may_return m x \<and> inp w' = inp w \<and> out w' = out w)
    (\<lambda>_ w'. inp w' = inp w \<and> out w' = out w) w"
  by (rule wp_mono [OF wp_and_run [OF assms [unfolded undisturbed_def, rule_format]]])
    (auto simp: may_return_def)

text \<open>The frame of a packet.\<close>

definition is_packet :: "int \<Rightarrow> bytes \<Rightarrow> bytes \<Rightarrow> bool" where
  "is_packet t payload f \<longleftrightarrow> (\<exists>h. pack_header t (int (length payload)) = Inr h \<and> f = h @ payload)"

text \<open>The peer's key exchange message was received in a packet and accepted.\<close>

definition agreed :: "('w, 's) crypto \<Rightarrow> 's auth_ctx \<Rightarrow> bytes \<Rightarrow> 's auth_ctx \<Rightarrow> bool" where
  "agreed C a received a' \<longleftrightarrow>
     (\<exists>their f. is_packet PAIRING_PACKET_TYPE_SPAKE2_MSG their f \<and> received = f \<and>
        their \<noteq> [] \<and> init_cipher C their a = (Inr True, a'))"

text \<open>The peer information exchanged under the key: what is sent, what is received and the result.\<close>

definition exchanged ::
  "('w, 's) crypto \<Rightarrow> 's auth_ctx \<Rightarrow> peer_info \<Rightarrow> bytes \<Rightarrow> bytes \<Rightarrow> peer_info \<Rightarrow> bool" where
  "exchanged C a ours sent_bytes received p \<longleftrightarrow>
     (\<exists>plain ct a' enc dec.
        peer_info_pack ours = Inr plain \<and> auth_encrypt C plain a = (Inr ct, a') \<and>
        is_packet PAIRING_PACKET_TYPE_PEER_INFO ct sent_bytes \<and>
        is_packet PAIRING_PACKET_TYPE_PEER_INFO enc received \<and>
        fst (auth_decrypt C enc a') = Inr dec \<and> peer_info_unpack dec = Inr p)"

text \<open>
  The whole session: the client's context made from the pairing code and the 64 bytes that the
  exporter gave, its message and the peer's, then the peer informations under the key agreed.
\<close>

definition paired ::
  "('w, 's) crypto \<Rightarrow> (bytes \<Rightarrow> int \<Rightarrow> ('w, bytes) prog) \<Rightarrow> bytes \<Rightarrow> peer_info \<Rightarrow> bytes \<Rightarrow> bytes \<Rightarrow>
     peer_info \<Rightarrow> bool" where
  "paired C exporter code ours sent_bytes received p \<longleftrightarrow>
     (\<exists>km a a' f1 f2 r1 r2. sent_bytes = f1 @ f2 \<and> received = r1 @ r2 \<and> length km = 64 \<and>
        may_return (exporter TLS_EXPORTER_LABEL TLS_EXPORTER_LENGTH) km \<and>
        may_return (PairingAuthCtx C ROLE_CLIENT (code @ km)) a \<and>
        is_packet PAIRING_PACKET_TYPE_SPAKE2_MSG (our_msg a) f1 \<and> agreed C a r1 a' \<and>
        exchanged C a' ours f2 r2 p)"

text \<open>What a session that failed may have sent: our message at most, unless the peer's was accepted.\<close>

definition half_paired ::
  "('w, 's) crypto \<Rightarrow> (bytes \<Rightarrow> int \<Rightarrow> ('w, bytes) prog) \<Rightarrow> bytes \<Rightarrow> bytes \<Rightarrow> bytes \<Rightarrow> bool" where
  "half_paired C exporter code sent_bytes received \<longleftrightarrow>
     sent_bytes = [] \<or>
     (\<exists>km a. may_return (exporter TLS_EXPORTER_LABEL TLS_EXPORTER_LENGTH) km \<and>
        may_return (PairingAuthCtx C ROLE_CLIENT (code @ km)) a \<and>
        (length sent_bytes \<le> 6 + length (our_msg a) \<or> (\<exists>r a'. agreed C a r a' \<and> (\<exists>q. received = r @ q))))"

section \<open>Over a channel\<close>

text \<open>
  \<open>send_all\<close> sends everything unless it raises, when a prefix may have gone out;
  \<open>recv_exact\<close> returns exactly as many bytes as asked for, the next ones of the input.
\<close>

locale pairing_channel =
  fixes T :: "('w, 'x) pairing_transport_scheme"
    and inp :: "'w \<Rightarrow> bytes"
    and out :: "'w \<Rightarrow> bytes"
  assumes send_law: "wp False (send_all T d)
      (\<lambda>_ w'. out w' = out w @ d \<and> inp w' = inp w)
      (\<lambda>_ w'. (\<exists>k. out w' = out w @ take k d) \<and> inp w' = inp w) w"
    and recv_law: "0 \<le> n \<Longrightarrow> wp False (recv_exact T n)
      (\<lambda>d w'. inp w = d @ inp w' \<and> int (length d) = n \<and> out w' = out w)
      (\<lambda>_ w'. (\<exists>d. inp w = d @ inp w') \<and> out w' = out w) w"
begin

lemma send_packet_wire:
  "wp False (send_packet T t d)
     (\<lambda>_ w'. \<exists>f. is_packet t d f \<and> out w' = out w @ f \<and> inp w' = inp w)
     (\<lambda>_ w'. (\<exists>s. out w' = out w @ s \<and> length s \<le> 6 + length d) \<and> inp w' = inp w) w"
proof (cases "pack_header t (int (length d))")
  case (Inl e)
  then show ?thesis by (simp add: send_packet_def wp_simps)
next
  case (Inr h)
  have len: "length h = 6" using Inr by (rule pack_header_length)
  have payload: "wp False (send_all T d)
      (\<lambda>_ w'. \<exists>f. is_packet t d f \<and> out w' = out w @ f \<and> inp w' = inp w)
      (\<lambda>_ w'. (\<exists>s. out w' = out w @ s \<and> length s \<le> 6 + length d) \<and> inp w' = inp w) w1"
    if "out w1 = out w @ h \<and> inp w1 = inp w" for w1
    by (rule wp_mono [OF send_law]) (use that Inr len in \<open>auto simp: is_packet_def\<close>)
  show ?thesis
    unfolding send_packet_def Inr io_lift_Inr io_bind_return wp_bind
    by (rule wp_mono [OF send_law]) (use payload len in auto)
qed

lemma recv_packet_wire:
  "wp False (recv_packet T t)
     (\<lambda>d w'. \<exists>f. is_packet t d f \<and> d \<noteq> [] \<and> inp w = f @ inp w' \<and> out w' = out w)
     (\<lambda>_ w'. (\<exists>r. inp w = r @ inp w') \<and> out w' = out w) w"
proof -
  have payload: "wp False
      (io_bind (io_lift (unpack_header h)) (\<lambda>(packet_type, payload_size).
         if packet_type \<noteq> t then io_raise PairingException else recv_exact T payload_size))
      (\<lambda>d w'. \<exists>f. is_packet t d f \<and> d \<noteq> [] \<and> inp w = f @ inp w' \<and> out w' = out w)
      (\<lambda>_ w'. (\<exists>r. inp w = r @ inp w') \<and> out w' = out w) w1"
    if w1: "inp w = h @ inp w1" "out w1 = out w" for h w1
  proof (cases "unpack_header h")
    case (Inl e)
    with w1 show ?thesis by (auto simp: wp_simps)
  next
    case (Inr r)
    then obtain u n where r: "unpack_header h = Inr (u, n)" by (cases r) simp
    then have hd: "pack_header u n = Inr h" "0 < n" by (simp_all add: unpack_header_eq_Inr)
    have "wp False (recv_exact T n)
        (\<lambda>d w'. \<exists>f. is_packet u d f \<and> d \<noteq> [] \<and> inp w = f @ inp w' \<and> out w' = out w)
        (\<lambda>_ w'. (\<exists>r. inp w = r @ inp w') \<and> out w' = out w) w1"
      by (rule wp_mono [OF recv_law]) (use hd w1 in \<open>auto simp: is_packet_def\<close>)
    with r w1 show ?thesis by (auto simp: wp_simps)
  qed
  show ?thesis
    unfolding recv_packet_def wp_bind [of _ "recv_exact T PAIRING_PACKET_HEADER_SIZE"]
    by (rule wp_mono [OF recv_law]) (use payload in \<open>auto simp: pairing_const_defs\<close>)
qed

lemma exchange_spake2_wire:
  "wp False (exchange_spake2 C T a)
     (\<lambda>a' w'. \<exists>f r. is_packet PAIRING_PACKET_TYPE_SPAKE2_MSG (our_msg a) f \<and> agreed C a r a' \<and>
        out w' = out w @ f \<and> inp w = r @ inp w')
     (\<lambda>_ w'. (\<exists>s. out w' = out w @ s \<and> length s \<le> 6 + length (our_msg a)) \<and> (\<exists>r. inp w = r @ inp w')) w"
proof -
  have recv: "wp False
      (io_bind (recv_packet T PAIRING_PACKET_TYPE_SPAKE2_MSG) (\<lambda>their_msg.
        case init_cipher C their_msg a of
          (Inl e, _) \<Rightarrow> io_raise e
        | (Inr ok, a') \<Rightarrow> if \<not> ok then io_raise PairingException else io_return a'))
     (\<lambda>a' w'. \<exists>f r. is_packet PAIRING_PACKET_TYPE_SPAKE2_MSG (our_msg a) f \<and> agreed C a r a' \<and>
        out w' = out w @ f \<and> inp w = r @ inp w')
     (\<lambda>_ w'. (\<exists>s. out w' = out w @ s \<and> length s \<le> 6 + length (our_msg a)) \<and> (\<exists>r. inp w = r @ inp w')) w1"
    if f: "is_packet PAIRING_PACKET_TYPE_SPAKE2_MSG (our_msg a) f" "out w1 = out w @ f" "inp w1 = inp w" for f w1
  proof -
    have "length f = 6 + length (our_msg a)"
      using f(1) by (auto simp: is_packet_def dest: pack_header_length)
    with f show ?thesis unfolding wp_bind
      by (intro wp_mono [OF recv_packet_wire])
        (auto simp: wp_simps agreed_def split: prod.split sum.split)
  qed
  show ?thesis
    unfolding exchange_spake2_def wp_bind [of _ "send_packet T PAIRING_PACKET_TYPE_SPAKE2_MSG (our_msg a)"]
    by (rule wp_mono [OF send_packet_wire]) (use recv in auto)
qed

lemma exchange_peer_info_wire:
  "wp False (exchange_peer_info C T ours a)
     (\<lambda>p w'. \<exists>f r. exchanged C a ours f r p \<and> out w' = out w @ f \<and> inp w = r @ inp w')
     (\<lambda>_ w'. (\<exists>s. out w' = out w @ s) \<and> (\<exists>r. inp w = r @ inp w')) w"
proof (cases "peer_info_pack ours")
  case (Inl e)
  then show ?thesis by (simp add: exchange_peer_info_def wp_simps)
next
  case (Inr plain)
  show ?thesis
  proof (cases "auth_encrypt C plain a")
    case (Pair res a')
    show ?thesis
    proof (cases res)
      case (Inl e)
      with Pair Inr show ?thesis by (simp add: exchange_peer_info_def wp_simps)
    next
      case (Inr ct)
      with Pair \<open>peer_info_pack ours = Inr plain\<close> have eqs: "peer_info_pack ours = Inr plain"
        "auth_encrypt C plain a = (Inr ct, a')" by simp_all
      have recv: "wp False
          (io_bind (recv_packet T PAIRING_PACKET_TYPE_PEER_INFO) (\<lambda>encrypted.
              case fst (auth_decrypt C encrypted a') of
                Inl _ \<Rightarrow> io_raise PairingException
              | Inr decrypted \<Rightarrow> io_lift (peer_info_unpack decrypted)))
          (\<lambda>p w'. \<exists>f r. exchanged C a ours f r p \<and> out w' = out w @ f \<and> inp w = r @ inp w')
          (\<lambda>_ w'. (\<exists>s. out w' = out w @ s) \<and> (\<exists>r. inp w = r @ inp w')) w1"
        if f: "is_packet PAIRING_PACKET_TYPE_PEER_INFO ct f" "out w1 = out w @ f" "inp w1 = inp w" for f w1
        unfolding wp_bind
      proof (rule wp_mono [OF recv_packet_wire])
        fix enc w2
        assume "\<exists>g. is_packet PAIRING_PACKET_TYPE_PEER_INFO enc g \<and> enc \<noteq> [] \<and> inp w1 = g @ inp w2 \<and> out w2 = out w1"
        then obtain g where g: "is_packet PAIRING_PACKET_TYPE_PEER_INFO enc g" "inp w = g @ inp w2" "out w2 = out w @ f"
          using f by auto
        have "exchanged C a ours f g p"
          if "fst (auth_decrypt C enc a') = Inr dec" "peer_info_unpack dec = Inr p" for dec p
          unfolding exchanged_def using eqs f(1) g(1) that by blast
        with g(2,3) show "wp False (case fst (auth_decrypt C enc a') of
              Inl _ \<Rightarrow> io_raise PairingException | Inr decrypted \<Rightarrow> io_lift (peer_info_unpack decrypted))
            (\<lambda>p w'. \<exists>f r. exchanged C a ours f r p \<and> out w' = out w @ f \<and> inp w = r @ inp w')
            (\<lambda>_ w'. (\<exists>s. out w' = out w @ s) \<and> (\<exists>r. inp w = r @ inp w')) w2"
          by (auto simp: wp_simps split: sum.split)
      qed (use f in auto)
      show ?thesis
        unfolding exchange_peer_info_def eqs io_lift_Inr io_bind_return prod.case sum.case
          wp_bind [of _ "send_packet T PAIRING_PACKET_TYPE_PEER_INFO ct"]
        by (rule wp_mono [OF send_packet_wire]) (use recv in auto)
    qed
  qed
qed

lemma new_context_undisturbed:
  assumes "\<And>s p. undisturbed inp out (generate_msg C s p)"
  shows "undisturbed inp out (PairingAuthCtx C role password)"
  using assms by (auto simp: undisturbed_keeps PairingAuthCtx_def Let_def intro!: keeps_intros)

lemma handshake_wire:
  assumes "may_return (exporter TLS_EXPORTER_LABEL TLS_EXPORTER_LENGTH) km" "length km = 64"
    and "may_return (PairingAuthCtx C ROLE_CLIENT (code @ km)) a"
    and "out w1 = out w" "inp w1 = inp w"
  shows "wp False (io_bind (exchange_spake2 C T a) (exchange_peer_info C T ours))
     (\<lambda>p w'. \<exists>f r. paired C exporter code ours f r p \<and> out w' = out w @ f \<and> inp w = r @ inp w')
     (\<lambda>_ w'. \<exists>f r. half_paired C exporter code f r \<and> out w' = out w @ f \<and> inp w = r @ inp w') w1"
proof -
  have peer: "wp False (exchange_peer_info C T ours a')
     (\<lambda>p w'. \<exists>f r. paired C exporter code ours f r p \<and> out w' = out w @ f \<and> inp w = r @ inp w')
     (\<lambda>_ w'. \<exists>f r. half_paired C exporter code f r \<and> out w' = out w @ f \<and> inp w = r @ inp w') w2"
    if a': "is_packet PAIRING_PACKET_TYPE_SPAKE2_MSG (our_msg a) f1" "agreed C a r1 a'"
      "out w2 = out w @ f1" "inp w = r1 @ inp w2" for a' f1 r1 w2
  proof (rule wp_mono [OF exchange_peer_info_wire])
    fix p w'
    assume "\<exists>f r. exchanged C a' ours f r p \<and> out w' = out w2 @ f \<and> inp w2 = r @ inp w'"
    then obtain f r where fr: "exchanged C a' ours f r p" "out w' = out w2 @ f" "inp w2 = r @ inp w'"
      by blast
    have "paired C exporter code ours (f1 @ f) (r1 @ r) p"
      unfolding paired_def using assms(1-3) a'(1,2) fr(1) by blast
    with fr a' show "\<exists>f r. paired C exporter code ours f r p \<and> out w' = out w @ f \<and> inp w = r @ inp w'"
      by auto
  next
    fix e w'
    assume "(\<exists>s. out w' = out w2 @ s) \<and> (\<exists>r. inp w2 = r @ inp w')"
    then obtain s r where "out w' = out w2 @ s" "inp w2 = r @ inp w'" by blast
    moreover have "half_paired C exporter code (f1 @ s) (r1 @ r)" for s r
      unfolding half_paired_def using assms(1,3) a'(2) by blast
    ultimately show "\<exists>f r. half_paired C exporter code f r \<and> out w' = out w @ f \<and> inp w = r @ inp w'"
      using a' by auto
  qed
  show ?thesis
    unfolding wp_bind
  proof (rule wp_mono [OF exchange_spake2_wire])
    fix e w'
    assume "(\<exists>s. out w' = out w1 @ s \<and> length s \<le> 6 + length (our_msg a)) \<and> (\<exists>r. inp w1 = r @ inp w')"
    then obtain s r where "out w' = out w @ s" "length s \<le> 6 + length (our_msg a)" "inp w = r @ inp w'"
      using assms(4,5) by auto
    moreover have "half_paired C exporter code s r" if "length s \<le> 6 + length (our_msg a)" for s r
      unfolding half_paired_def using assms(1,3) that by blast
    ultimately show "\<exists>f r. half_paired C exporter code f r \<and> out w' = out w @ f \<and> inp w = r @ inp w'"
      by blast
  qed (use peer assms(4,5) in auto)
qed

theorem pairing_run_wire:
  assumes exp: "undisturbed inp out (exporter TLS_EXPORTER_LABEL TLS_EXPORTER_LENGTH)"
    and gen: "\<And>s p. undisturbed inp out (generate_msg C s p)"
  shows "wp False (pairing_run C T exporter code ours)
     (\<lambda>p w'. \<exists>f r. paired C exporter code ours f r p \<and> out w' = out w @ f \<and> inp w = r @ inp w')
     (\<lambda>_ w'. \<exists>f r. half_paired C exporter code f r \<and> out w' = out w @ f \<and> inp w = r @ inp w') w"
proof -
  have untouched: "half_paired C exporter code [] []" by (simp add: half_paired_def)
  have new: "wp False (io_bind (PairingAuthCtx C ROLE_CLIENT (code @ km)) (\<lambda>a.
         io_bind (exchange_spake2 C T a) (exchange_peer_info C T ours)))
     (\<lambda>p w'. \<exists>f r. paired C exporter code ours f r p \<and> out w' = out w @ f \<and> inp w = r @ inp w')
     (\<lambda>_ w'. \<exists>f r. half_paired C exporter code f r \<and> out w' = out w @ f \<and> inp w = r @ inp w') w1"
    if km: "may_return (exporter TLS_EXPORTER_LABEL TLS_EXPORTER_LENGTH) km" "length km = 64"
      "out w1 = out w" "inp w1 = inp w" for km w1
    unfolding wp_bind [of _ "PairingAuthCtx C ROLE_CLIENT (code @ km)"]
    by (rule wp_mono [OF undisturbed_returns [OF new_context_undisturbed [OF gen]]])
      (use km untouched handshake_wire [where exporter = exporter and code = code, OF km(1,2)] in auto)
  show ?thesis
    unfolding pairing_run_def wp_bind wp_catch
    by (rule wp_mono [OF undisturbed_returns [OF exp]])
      (use untouched new in \<open>auto simp: wp_if wp_raise pairing_const_defs\<close>)
qed

end

section \<open>Over a channel whose operations end\<close>

locale live_channel =
  fixes T :: "('w, 'x) pairing_transport_scheme"
    and alive :: "'w \<Rightarrow> bool"
  assumes send_ends: "ends_in alive (send_all T d)"
    and recv_ends: "ends_in alive (recv_exact T n)"
begin

lemma packets_end: "ends_in alive (send_packet T t d)" "ends_in alive (recv_packet T t)"
  unfolding send_packet_def recv_packet_def by (intro ends_intros send_ends recv_ends)+

theorem pairing_run_ends:
  assumes "\<And>l n. ends_in alive (exporter l n)" and "\<And>s p. ends_in alive (generate_msg C s p)"
  shows "ends_in alive (pairing_run C T exporter code ours)"
  unfolding pairing_run_def PairingAuthCtx_def exchange_spake2_def exchange_peer_info_def
  by (intro ends_intros packets_end assms)

end

end
