(* ===== verification/Pairing_Device.thy ===== *)
theory Pairing_Device
  imports Pairing_Connection Tcp_Transport
begin

text \<open>
  \<open>pairing/pairing_device.py\<close>: the retry loop around the operations of \<open>pyOpenSSL\<close>, the
  transport \<open>_PyOpenSSLTransport\<close> built on it, and \<open>pair\<close>. The TLS connection, the socket,
  \<open>select\<close> and the clock are a record of operations; the locale \<open>ssl_channel\<close> states what
  they promise, \<open>ssl_live\<close> when they end. The transport gives the interface that
  \<open>PairingConnection\<close> is verified against.
\<close>

section \<open>The operations used\<close>

record 'w ssl_api =
  ssl_send :: "bytes \<Rightarrow> ('w, int) prog"
  ssl_recv :: "int \<Rightarrow> ('w, bytes) prog"
  ssl_do_handshake :: "('w, unit) prog"
  ssl_export :: "bytes \<Rightarrow> int \<Rightarrow> ('w, bytes) prog"
  ssl_shutdown :: "('w, unit) prog"
  ssl_close :: "('w, unit) prog"
  select_read :: "rat option \<Rightarrow> ('w, bool) prog"
  select_write :: "rat option \<Rightarrow> ('w, bool) prog"
  monotonic :: "('w, rat) prog"
  new_socket :: "address \<Rightarrow> rat option \<Rightarrow> ('w, unit) prog"
  set_nodelay :: "('w, unit) prog"
  set_blocking :: "('w, unit) prog"
  new_ssl :: "('w, unit) prog"
  socket_close :: "('w, unit) prog"

section \<open>Retrying\<close>

definition remaining_s :: "('w, 'x) ssl_api_scheme \<Rightarrow> rat option \<Rightarrow> ('w, rat option) prog" where
  "remaining_s A deadline =
     (case deadline of
        None \<Rightarrow> io_return None
      | Some d \<Rightarrow> io_bind (monotonic A) (\<lambda>now. io_return (Some (max 0 (d - now)))))"

text \<open>Waiting for the socket after \<open>WantReadError\<close> or \<open>WantWriteError\<close>.\<close>

definition want_more ::
  "('w, 'x) ssl_api_scheme \<Rightarrow> (rat option \<Rightarrow> ('w, bool) prog) \<Rightarrow> rat option \<Rightarrow>
     ('w, (unit, 'a) loop_ctl) prog" where
  "want_more A sel deadline =
     io_bind (remaining_s A deadline) (\<lambda>timeout.
       if timeout = Some 0 then io_raise PairingException
       else io_bind (sel timeout) (\<lambda>ready.
         if \<not> ready then io_raise PairingException else io_return (Continue ())))"

definition retry_body ::
  "('w, 'x) ssl_api_scheme \<Rightarrow> ('w, 'a) prog \<Rightarrow> rat option \<Rightarrow> unit \<Rightarrow> ('w, (unit, 'a) loop_ctl) prog" where
  "retry_body A operation deadline _ =
     io_catch (io_bind operation (\<lambda>x. io_return (Break x))) (\<lambda>e.
       if e = WantReadError then want_more A (select_read A) deadline
       else if e = WantWriteError then want_more A (select_write A) deadline
       else io_raise e)"

definition retry_on_want ::
  "('w, 'x) ssl_api_scheme \<Rightarrow> ('w, 'a) prog \<Rightarrow> rat option \<Rightarrow> ('w, 'a) prog" where
  "retry_on_want A operation deadline = io_loop (retry_body A operation deadline) ()"

section \<open>\<open>_PyOpenSSLTransport\<close>\<close>

definition ssl_send_all_body ::
  "('w, 'x) ssl_api_scheme \<Rightarrow> rat option \<Rightarrow> bytes \<Rightarrow> nat \<Rightarrow> ('w, (nat, unit) loop_ctl) prog" where
  "ssl_send_all_body A deadline data sent_n =
     (if sent_n < length data then
        io_bind (retry_on_want A (ssl_send A (drop sent_n data)) deadline) (\<lambda>n.
          if n \<le> 0 then io_raise PairingException else io_return (Continue (sent_n + nat n)))
      else io_return (Break ()))"

definition ssl_send_all ::
  "('w, 'x) ssl_api_scheme \<Rightarrow> rat option \<Rightarrow> bytes \<Rightarrow> ('w, unit) prog" where
  "ssl_send_all A deadline data = io_loop (ssl_send_all_body A deadline data) 0"

definition ssl_recv_exact_body ::
  "('w, 'x) ssl_api_scheme \<Rightarrow> rat option \<Rightarrow> bytes \<times> int \<Rightarrow> ('w, (bytes \<times> int, bytes) loop_ctl) prog" where
  "ssl_recv_exact_body A deadline = (\<lambda>(chunks, remaining).
     if remaining > 0 then
       io_bind (io_catch (retry_on_want A (ssl_recv A remaining) deadline) (\<lambda>e.
                  if e = ZeroReturnError then io_raise PairingException else io_raise e)) (\<lambda>chunk.
         if chunk = [] then io_raise PairingException
         else io_return (Continue (chunks @ chunk, remaining - int (length chunk))))
     else io_return (Break chunks))"

definition ssl_recv_exact ::
  "('w, 'x) ssl_api_scheme \<Rightarrow> rat option \<Rightarrow> int \<Rightarrow> ('w, bytes) prog" where
  "ssl_recv_exact A deadline n = io_loop (ssl_recv_exact_body A deadline) ([], n)"

definition PyOpenSSLTransport :: "('w, 'x) ssl_api_scheme \<Rightarrow> rat option \<Rightarrow> 'w pairing_transport" where
  "PyOpenSSLTransport A deadline =
     \<lparr>send_all = ssl_send_all A deadline, recv_exact = ssl_recv_exact A deadline\<rparr>"

lemma PyOpenSSLTransport_sel [simp]:
  "send_all (PyOpenSSLTransport A d) = ssl_send_all A d"
  "recv_exact (PyOpenSSLTransport A d) = ssl_recv_exact A d"
  by (simp_all add: PyOpenSSLTransport_def)

section \<open>Pairing\<close>

text \<open>\<open>str.encode("ascii")\<close>\<close>

definition ascii_encode :: "pystr \<Rightarrow> exn + bytes" where
  "ascii_encode s =
     (if list_all (\<lambda>c. c < 128) s then Inr (map of_nat s) else Inl UnicodeEncodeError)"

definition ascii_bytes :: "py_data \<Rightarrow> exn + bytes" where
  "ascii_bytes d = (case d of PyBytes b \<Rightarrow> Inr b | PyStr s \<Rightarrow> ascii_encode s)"

text \<open>The subclasses of \<open>SSL.Error\<close>.\<close>

definition ssl_error :: "exn \<Rightarrow> bool" where
  "ssl_error e \<longleftrightarrow> e \<in> {WantReadError, WantWriteError, ZeroReturnError, OpenSSLError}"

definition translated :: "('w, 'a) prog \<Rightarrow> ('w, 'a) prog" where
  "translated m =
     io_catch m (\<lambda>e. if ssl_error e \<or> os_error e then io_raise PairingException else io_raise e)"

definition ignoring :: "(exn \<Rightarrow> bool) \<Rightarrow> ('w, unit) prog \<Rightarrow> ('w, unit) prog" where
  "ignoring P m = io_catch m (\<lambda>e. if P e then io_return () else io_raise e)"

definition close_ssl :: "('w, 'x) ssl_api_scheme \<Rightarrow> ('w, unit) prog" where
  "close_ssl A = io_then (ignoring ssl_error (ssl_shutdown A)) (ignoring ssl_error (ssl_close A))"

definition close_sock :: "('w, 'x) ssl_api_scheme \<Rightarrow> ('w, unit) prog" where
  "close_sock A = ignoring os_error (socket_close A)"

text \<open>Once the socket is open: the deadline, if there is one, and the TLS connection.\<close>

definition pair_setup :: "('w, 'x) ssl_api_scheme \<Rightarrow> rat option \<Rightarrow> ('w, rat option) prog" where
  "pair_setup A pair_timeout =
     io_then (set_nodelay A) (io_then (set_blocking A)
     (io_bind (case pair_timeout of
                 None \<Rightarrow> io_return None
               | Some t \<Rightarrow>
                   if t = 0 then io_return None
                   else io_bind (monotonic A) (\<lambda>now. io_return (Some (now + t)))) (\<lambda>deadline.
        io_then (new_ssl A) (io_return deadline))))"

definition pair_session ::
  "('w, 'x) ssl_api_scheme \<Rightarrow> ('w, 's) crypto \<Rightarrow> bytes \<Rightarrow> bytes \<Rightarrow> rat option \<Rightarrow> ('w, peer_info) prog" where
  "pair_session A C pairing_code public_key deadline =
     io_then (retry_on_want A (ssl_do_handshake A) deadline)
     (io_bind (io_lift (make_peer_info_from_pubkey public_key)) (\<lambda>info.
        pairing_run C (PyOpenSSLTransport A deadline) (ssl_export A) pairing_code info))"

text \<open>
  The \<open>try\<close> statement: what the \<open>finally\<close> clause closes depends on how far the body got.
\<close>

definition pair_try ::
  "('w, 'x) ssl_api_scheme \<Rightarrow> ('w, 's) crypto \<Rightarrow> address \<Rightarrow> bytes \<Rightarrow> bytes \<Rightarrow> rat option \<Rightarrow>
     ('w, peer_info) prog" where
  "pair_try A C addr pairing_code public_key pair_timeout =
     io_then (translated (new_socket A addr pair_timeout))
     (io_bind (io_catch (translated (pair_setup A pair_timeout)) (\<lambda>e. io_then (close_sock A) (io_raise e)))
        (\<lambda>deadline.
           io_finally (translated (pair_session A C pairing_code public_key deadline))
             (io_then (close_ssl A) (close_sock A))))"

text \<open>
  \<open>x509\<close> stands for loading the key and making the certificate (\<open>auth/x509.py\<close>), \<open>build_context\<close>
  for the calls of \<open>pyOpenSSL\<close> in \<open>_build_ssl_context\<close>.
\<close>

definition pair ::
  "('w, 'x) ssl_api_scheme \<Rightarrow> ('w, 's) crypto \<Rightarrow> (bytes \<Rightarrow> exn + bytes \<times> bytes) \<Rightarrow>
     (bytes \<Rightarrow> bytes \<Rightarrow> exn + unit) \<Rightarrow> address \<Rightarrow> py_data \<Rightarrow> bytes \<Rightarrow> py_data \<Rightarrow> rat option \<Rightarrow>
     ('w, peer_info) prog" where
  "pair A C x509 build_context addr pairing_code private_key_pem public_key pair_timeout =
     io_bind (io_lift (ascii_bytes pairing_code)) (\<lambda>code.
     io_bind (io_lift (ascii_bytes public_key)) (\<lambda>pub.
       if code = [] then io_raise ValueError
       else
         io_bind (io_lift (x509 private_key_pem)) (\<lambda>(cert_pem, key_pem).
         io_then (io_lift (build_context cert_pem key_pem))
           (pair_try A C addr code pub pair_timeout))))"

text \<open>
  \<open>pair_async\<close> of \<open>pairing/pairing_device_async.py\<close> runs \<open>pair\<close> in a thread and awaits it: result and
  exception are those of \<open>pair\<close>, whose socket no other task knows.
\<close>

definition pair_async ::
  "('w, 'x) ssl_api_scheme \<Rightarrow> ('w, 's) crypto \<Rightarrow> (bytes \<Rightarrow> exn + bytes \<times> bytes) \<Rightarrow>
     (bytes \<Rightarrow> bytes \<Rightarrow> exn + unit) \<Rightarrow> address \<Rightarrow> py_data \<Rightarrow> bytes \<Rightarrow> py_data \<Rightarrow> rat option \<Rightarrow>
     ('w, peer_info) prog" where
  "pair_async A C x509 build_context addr pairing_code private_key_pem public_key pair_timeout =
     pair A C x509 build_context addr pairing_code private_key_pem public_key pair_timeout"

section \<open>What the operations promise\<close>

text \<open>
  A TLS connection as a channel: \<open>send\<close> takes at most what it is given and \<open>recv\<close> returns at
  most as much as it is asked for, and a call that raises has taken nothing and lost nothing.
\<close>

locale ssl_channel =
  fixes A :: "('w, 'x) ssl_api_scheme"
    and inp :: "'w \<Rightarrow> bytes"
    and out :: "'w \<Rightarrow> bytes"
  assumes ssl_send_law: "wp False (ssl_send A d)
      (\<lambda>n w'. n \<le> int (length d) \<and> out w' = out w @ take (nat n) d \<and> inp w' = inp w)
      (\<lambda>_ w'. out w' = out w \<and> inp w' = inp w) w"
    and ssl_recv_law: "0 < n \<Longrightarrow> wp False (ssl_recv A n)
      (\<lambda>d w'. inp w = d @ inp w' \<and> int (length d) \<le> n \<and> out w' = out w)
      (\<lambda>_ w'. inp w' = inp w \<and> out w' = out w) w"
    and select_undisturbed: "undisturbed inp out (select_read A t)" "undisturbed inp out (select_write A t)"
    and monotonic_undisturbed: "undisturbed inp out (monotonic A)"
begin

lemma remaining_undisturbed: "undisturbed inp out (remaining_s A deadline)"
  using monotonic_undisturbed by (auto simp: undisturbed_keeps remaining_s_def intro!: keeps_intros)

lemma want_more_undisturbed:
  assumes "\<And>t. undisturbed inp out (sel t)"
  shows "undisturbed inp out (want_more A sel deadline)"
  using assms remaining_undisturbed
  by (auto simp: undisturbed_keeps want_more_def intro!: keeps_intros)

text \<open>Retrying keeps what the operation promises, if the operation does nothing when it raises.\<close>

lemma retry_wire:
  assumes op: "\<And>w1. inp w1 = inp w \<Longrightarrow> out w1 = out w \<Longrightarrow>
      wp False operation Q (\<lambda>_ w'. inp w' = inp w \<and> out w' = out w) w1"
  shows "wp False (retry_on_want A operation deadline) Q (\<lambda>_ w'. inp w' = inp w \<and> out w' = out w) w"
  unfolding retry_on_want_def
proof (rule loop_partial [where I = "\<lambda>_ w1. inp w1 = inp w \<and> out w1 = out w"])
  fix a w1
  assume w1: "inp w1 = inp w \<and> out w1 = out w"
  have more: "wp False (want_more A sel deadline)
      (loop_post (\<lambda>_ w1. inp w1 = inp w \<and> out w1 = out w) Q)
      (\<lambda>_ w'. inp w' = inp w \<and> out w' = out w) w2"
    if "\<And>t. undisturbed inp out (sel t)" "inp w2 = inp w" "out w2 = out w" for sel w2
  proof -
    have "wp False (want_more A sel deadline) (\<lambda>c w'. c = Continue ()) (\<lambda>_ _. True) w2"
      by (rule wp_partialI)
        (auto simp: want_more_def io_bind_eq_Some io_raise_def io_return_def split: if_splits)
    from wp_conj [OF this want_more_undisturbed [OF that(1), unfolded undisturbed_def, rule_format]]
    show ?thesis by (rule wp_mono) (use that in auto)
  qed
  show "wp False (retry_body A operation deadline a)
      (loop_post (\<lambda>_ w1. inp w1 = inp w \<and> out w1 = out w) Q)
      (\<lambda>_ w'. inp w' = inp w \<and> out w' = out w) w1"
    unfolding retry_body_def wp_catch wp_bind
    by (rule wp_mono [OF op]) (use w1 more select_undisturbed in \<open>auto simp: wp_return wp_if wp_raise\<close>)
qed simp

lemma send_all_wire:
  "wp False (ssl_send_all A deadline d)
     (\<lambda>_ w'. out w' = out w @ d \<and> inp w' = inp w)
     (\<lambda>_ w'. (\<exists>k. out w' = out w @ take k d) \<and> inp w' = inp w) w"
  unfolding ssl_send_all_def
proof (rule loop_partial [where I = "\<lambda>n w1. out w1 = out w @ take n d \<and> n \<le> length d \<and> inp w1 = inp w"])
  fix n w1
  assume w1: "out w1 = out w @ take n d \<and> n \<le> length d \<and> inp w1 = inp w"
  have send: "wp False (ssl_send A (drop n d))
      (\<lambda>k w'. k \<le> int (length d - n) \<and> out w' = out w @ take (n + nat k) d \<and> inp w' = inp w)
      (\<lambda>_ w'. inp w' = inp w1 \<and> out w' = out w1) w2"
    if "inp w2 = inp w1" "out w2 = out w1" for w2
    by (rule wp_mono [OF ssl_send_law]) (use that w1 in \<open>auto simp: take_add\<close>)
  show "wp False (ssl_send_all_body A deadline d n)
      (loop_post (\<lambda>n w1. out w1 = out w @ take n d \<and> n \<le> length d \<and> inp w1 = inp w)
        (\<lambda>_ w'. out w' = out w @ d \<and> inp w' = inp w))
      (\<lambda>_ w'. (\<exists>k. out w' = out w @ take k d) \<and> inp w' = inp w) w1"
  proof (cases "n < length d")
    case True
    then show ?thesis
      unfolding ssl_send_all_body_def if_P [OF True] wp_bind
      by (intro wp_mono [OF retry_wire [OF send]]) (use w1 in \<open>auto simp: wp_simps\<close>)
  next
    case False
    with w1 show ?thesis by (simp add: ssl_send_all_body_def wp_simps)
  qed
qed simp

lemma recv_exact_wire:
  assumes "0 \<le> n"
  shows "wp False (ssl_recv_exact A deadline n)
     (\<lambda>d w'. inp w = d @ inp w' \<and> int (length d) = n \<and> out w' = out w)
     (\<lambda>_ w'. (\<exists>d. inp w = d @ inp w') \<and> out w' = out w) w"
  unfolding ssl_recv_exact_def
proof (rule loop_partial [where I = "\<lambda>(c, r) w1. inp w = c @ inp w1 \<and> 0 \<le> r \<and> int (length c) + r = n \<and> out w1 = out w"])
  fix a w1
  assume "(case a of (c, r) \<Rightarrow> \<lambda>w1. inp w = c @ inp w1 \<and> 0 \<le> r \<and> int (length c) + r = n \<and> out w1 = out w) w1"
  then obtain c r where a: "a = (c, r)" and w1: "inp w = c @ inp w1" "0 \<le> r" "int (length c) + r = n" "out w1 = out w"
    by (cases a) auto
  show "wp False (ssl_recv_exact_body A deadline a)
      (loop_post (\<lambda>(c, r) w1. inp w = c @ inp w1 \<and> 0 \<le> r \<and> int (length c) + r = n \<and> out w1 = out w)
        (\<lambda>d w'. inp w = d @ inp w' \<and> int (length d) = n \<and> out w' = out w))
      (\<lambda>_ w'. (\<exists>d. inp w = d @ inp w') \<and> out w' = out w) w1"
  proof (cases "r > 0")
    case True
    have recv: "wp False (ssl_recv A r)
        (\<lambda>d w'. inp w = c @ d @ inp w' \<and> int (length d) \<le> r \<and> out w' = out w)
        (\<lambda>_ w'. inp w' = inp w1 \<and> out w' = out w1) w2"
      if "inp w2 = inp w1" "out w2 = out w1" for w2
      by (rule wp_mono [OF ssl_recv_law [OF True]]) (use that w1 in auto)
    show ?thesis
      unfolding ssl_recv_exact_body_def a prod.case if_P [OF True] wp_bind wp_catch
      by (intro wp_mono [OF retry_wire [OF recv]]) (use w1 in \<open>auto simp: wp_simps\<close>)
  next
    case False
    with w1 show ?thesis by (simp add: ssl_recv_exact_body_def a wp_simps)
  qed
qed (simp add: assms)

end

sublocale ssl_channel \<subseteq> channel: pairing_channel "PyOpenSSLTransport A deadline" inp out
  by unfold_locales (simp_all add: send_all_wire recv_exact_wire)

section \<open>When they end\<close>

text \<open>
  While the connection is \<open>alive\<close> every operation ends; \<open>WantReadError\<close> and \<open>WantWriteError\<close>
  cannot be raised for ever, for each lowers a measure of what the peer will still do.
\<close>

definition wants :: "exn \<Rightarrow> nat" where
  "wants e = (if e = WantReadError \<or> e = WantWriteError then 1 else 0)"

definition ends_wanting :: "('w \<Rightarrow> bool) \<Rightarrow> ('w \<Rightarrow> nat) \<Rightarrow> ('w, 'a) prog \<Rightarrow> bool" where
  "ends_wanting alive fuel m \<longleftrightarrow>
     (\<forall>w. alive w \<longrightarrow> wp True m (\<lambda>_ w'. alive w' \<and> fuel w' \<le> fuel w)
        (\<lambda>e w'. alive w' \<and> fuel w' + wants e \<le> fuel w) w)"

locale ssl_live =
  fixes A :: "('w, 'x) ssl_api_scheme"
    and alive :: "'w \<Rightarrow> bool"
    and fuel :: "'w \<Rightarrow> nat"
  assumes io_live: "ends_wanting alive fuel (ssl_send A d)" "ends_wanting alive fuel (ssl_recv A n)"
      "ends_wanting alive fuel (ssl_do_handshake A)"
    and select_live: "ends_in (\<lambda>w. alive w \<and> fuel w \<le> c) (select_read A t)"
      "ends_in (\<lambda>w. alive w \<and> fuel w \<le> c) (select_write A t)"
    and monotonic_live: "ends_in (\<lambda>w. alive w \<and> fuel w \<le> c) (monotonic A)"
begin

lemma want_more_live:
  assumes "\<And>t. ends_in (\<lambda>w. alive w \<and> fuel w \<le> c) (sel t)"
  shows "ends_in (\<lambda>w. alive w \<and> fuel w \<le> c) (want_more A sel deadline)"
  unfolding want_more_def remaining_s_def by (intro ends_intros assms monotonic_live)

lemma retry_live:
  fixes operation :: "('w, 'c) prog"
  assumes op: "ends_wanting alive fuel operation"
  shows "ends_in alive (retry_on_want A operation deadline)"
  unfolding ends_in_def retry_on_want_def
proof (intro allI impI)
  fix s assume "alive s"
  then show "wp True (io_loop (retry_body A operation deadline) ()) (\<lambda>_. alive) (\<lambda>_. alive) s"
  proof (rule loop_total [where I = "\<lambda>_. alive" and \<mu> = "\<lambda>_. fuel", rotated])
    fix a :: unit and w assume w: "alive w"
    have more: "wp True (want_more A sel deadline :: ('w, (unit, 'c) loop_ctl) prog)
        (loop_post (\<lambda>a' s'. alive s' \<and> fuel s' < fuel w) (\<lambda>_. alive)) (\<lambda>_. alive) w1"
      if sel: "\<And>t c. ends_in (\<lambda>w. alive w \<and> fuel w \<le> c) (sel t)" and w1: "alive w1" "fuel w1 < fuel w" for sel w1
    proof (rule wp_mono [OF ends_inD [OF want_more_live [OF sel]]])
      show "alive w1 \<and> fuel w1 \<le> fuel w1" using w1 by simp
    qed (use w1 in \<open>auto simp: loop_post_def split: loop_ctl.split\<close>)
    show "wp True (retry_body A operation deadline a)
        (loop_post (\<lambda>a' s'. alive s' \<and> fuel s' < fuel w) (\<lambda>_. alive)) (\<lambda>_. alive) w"
      unfolding retry_body_def wp_catch wp_bind
      by (rule wp_mono [OF op [unfolded ends_wanting_def, rule_format, OF w]])
        (use more [of "select_read A", OF select_live(1)] more [of "select_write A", OF select_live(2)]
          in \<open>auto simp: wp_return wp_if wp_raise wants_def\<close>)
  qed
qed

lemma send_all_live: "ends_in alive (ssl_send_all A deadline d)"
  unfolding ends_in_def ssl_send_all_def
proof (intro allI impI)
  fix s assume "alive s"
  then show "wp True (io_loop (ssl_send_all_body A deadline d) 0) (\<lambda>_. alive) (\<lambda>_. alive) s"
  proof (rule loop_total [where I = "\<lambda>_. alive" and \<mu> = "\<lambda>n _. length d - n", rotated])
    fix n w assume w: "alive w"
    show "wp True (ssl_send_all_body A deadline d n)
        (loop_post (\<lambda>n' s'. alive s' \<and> length d - n' < length d - n) (\<lambda>_. alive)) (\<lambda>_. alive) w"
    proof (cases "n < length d")
      case True
      show ?thesis
        unfolding ssl_send_all_body_def if_P [OF True] wp_bind
        by (rule wp_mono [OF ends_inD [OF retry_live [OF io_live(1)] w]])
          (use True in \<open>auto simp: wp_simps\<close>)
    next
      case False
      with w show ?thesis by (simp add: ssl_send_all_body_def wp_simps)
    qed
  qed
qed

lemma recv_exact_live: "ends_in alive (ssl_recv_exact A deadline n)"
  unfolding ends_in_def ssl_recv_exact_def
proof (intro allI impI)
  fix s assume "alive s"
  then show "wp True (io_loop (ssl_recv_exact_body A deadline) ([], n)) (\<lambda>_. alive) (\<lambda>_. alive) s"
  proof (rule loop_total [where I = "\<lambda>_. alive" and \<mu> = "\<lambda>(_, r) _. nat r", rotated])
    fix a :: "bytes \<times> int" and w assume w: "alive w"
    obtain c r where a: "a = (c, r)" by (cases a)
    show "wp True (ssl_recv_exact_body A deadline a)
        (loop_post (\<lambda>a' s'. alive s' \<and> (case a' of (_, r') \<Rightarrow> \<lambda>_. nat r') s' < (case a of (_, r) \<Rightarrow> \<lambda>_. nat r) w)
          (\<lambda>_. alive)) (\<lambda>_. alive) w"
    proof (cases "r > 0")
      case True
      show ?thesis
        unfolding ssl_recv_exact_body_def a prod.case if_P [OF True] wp_bind wp_catch
        by (rule wp_mono [OF ends_inD [OF retry_live [OF io_live(2)] w]])
          (use True in \<open>auto simp: wp_simps\<close>)
    next
      case False
      with w show ?thesis by (simp add: ssl_recv_exact_body_def a wp_simps)
    qed
  qed
qed

end

sublocale ssl_live \<subseteq> live: live_channel "PyOpenSSLTransport A deadline" alive
  by unfold_locales (simp_all add: send_all_live recv_exact_live)

end
