(* ===== verification/Pairing_World.thy ===== *)
theory Pairing_World
  imports Pairing_Device
begin

text \<open>
  A scripted TLS connection: what the peer will do is a list of events with their times, and
  so is what the connection will take and how the handshake goes. The socket blocks, so an
  operation waits for its next event however long that takes, and with no event left it does
  not return. The connection interprets the interfaces of the pairing transport.
\<close>

section \<open>The connection\<close>

text \<open>
  \<open>Record\<close> is a TLS record without application data, on which \<open>recv\<close> raises
  \<open>WantReadError\<close>; \<open>CloseNotify\<close> and \<open>Broken\<close> stay. A connection with no more events to send
  on takes everything. A handshake that has succeeded or failed stays so.
\<close>

datatype tls_rx = Plain bytes | Record | CloseNotify | Broken
datatype tls_tx = Takes nat | Full | Reset

record pairing_world = net +
  from_peer :: "(rat \<times> tls_rx) list"
  to_peer :: "(rat \<times> tls_tx) list"
  handshake_steps :: "(rat \<times> (exn + unit)) list"
  keying :: "bytes \<Rightarrow> int \<Rightarrow> exn + bytes"
  sock_open :: bool

definition tls_wait :: "rat \<Rightarrow> (pairing_world, unit) prog" where
  "tls_wait a = io_modify (\<lambda>w. w\<lparr>clock := max a (clock w)\<rparr>)"

definition tls_recv :: "int \<Rightarrow> (pairing_world, bytes) prog" where
  "tls_recv n w =
     (case from_peer w of
        [] \<Rightarrow> None
      | (a, ev) # es \<Rightarrow>
          (case ev of
             Plain d \<Rightarrow>
               io_then (tls_wait a)
                 (io_then (io_modify (\<lambda>w. w\<lparr>from_peer :=
                     (if drop (nat n) d = [] then es else (a, Plain (drop (nat n) d)) # es)\<rparr>))
                   (io_return (take (nat n) d))) w
           | Record \<Rightarrow>
               io_then (tls_wait a)
                 (io_then (io_modify (\<lambda>w. w\<lparr>from_peer := es\<rparr>)) (io_raise WantReadError)) w
           | CloseNotify \<Rightarrow> io_then (tls_wait a) (io_raise ZeroReturnError) w
           | Broken \<Rightarrow> io_then (tls_wait a) (io_raise OpenSSLError) w))"

definition tls_send :: "bytes \<Rightarrow> (pairing_world, int) prog" where
  "tls_send d w =
     (case to_peer w of
        [] \<Rightarrow> Some (Inr (int (length d)), w\<lparr>sent := sent w @ d\<rparr>)
      | (a, ev) # es \<Rightarrow>
          (case ev of
             Takes k \<Rightarrow>
               io_then (tls_wait a)
                 (io_then (io_modify (\<lambda>w. w\<lparr>to_peer := es, sent := sent w @ take k d\<rparr>))
                   (io_return (int (min k (length d))))) w
           | Full \<Rightarrow>
               io_then (tls_wait a)
                 (io_then (io_modify (\<lambda>w. w\<lparr>to_peer := es\<rparr>)) (io_raise WantWriteError)) w
           | Reset \<Rightarrow> io_then (tls_wait a) (io_raise OpenSSLError) w))"

definition tls_handshake :: "(pairing_world, unit) prog" where
  "tls_handshake w =
     (case handshake_steps w of
        [] \<Rightarrow> None
      | (a, r) # rs \<Rightarrow>
          io_then (tls_wait a)
            (if r = Inl WantReadError \<or> r = Inl WantWriteError
             then io_then (io_modify (\<lambda>w. w\<lparr>handshake_steps := rs\<rparr>)) (io_lift r)
             else io_lift r) w)"

text \<open>What \<open>select\<close> waits for: the next step of the handshake, then the next event.\<close>

definition rx_time :: "pairing_world \<Rightarrow> rat option" where
  "rx_time w =
     (let next = (case from_peer w of [] \<Rightarrow> None | (a, _) # _ \<Rightarrow> Some a)
      in case handshake_steps w of
           [] \<Rightarrow> next
         | (a, r) # _ \<Rightarrow> if r \<noteq> Inr () \<or> clock w < a then Some a else next)"

definition tx_time :: "pairing_world \<Rightarrow> rat option" where
  "tx_time w = (case to_peer w of [] \<Rightarrow> Some 0 | (a, _) # _ \<Rightarrow> Some a)"

definition ScriptedSSL :: "pairing_world ssl_api" where
  "ScriptedSSL =
     \<lparr>ssl_send = tls_send, ssl_recv = tls_recv, ssl_do_handshake = tls_handshake,
      ssl_export = (\<lambda>l n. io_bind (io_gets keying) (\<lambda>k. io_lift (k l n))),
      ssl_shutdown = io_return (), ssl_close = io_return (),
      select_read = (\<lambda>t. io_bind (io_gets rx_time) (wait_until t)),
      select_write = (\<lambda>t. io_bind (io_gets tx_time) (wait_until t)),
      monotonic = sys_time,
      new_socket = (\<lambda>a t. io_then (create_connection a t) (io_modify (\<lambda>w. w\<lparr>sock_open := True\<rparr>))),
      set_nodelay = io_return (), set_blocking = io_return (), new_ssl = io_return (),
      socket_close = io_modify (\<lambda>w. w\<lparr>sock_open := False\<rparr>)\<rparr>"

lemma ScriptedSSL_sel [simp]:
  "ssl_send ScriptedSSL = tls_send" "ssl_recv ScriptedSSL = tls_recv"
  "ssl_do_handshake ScriptedSSL = tls_handshake"
  "ssl_export ScriptedSSL = (\<lambda>l n. io_bind (io_gets keying) (\<lambda>k. io_lift (k l n)))"
  "ssl_shutdown ScriptedSSL = io_return ()" "ssl_close ScriptedSSL = io_return ()"
  "select_read ScriptedSSL t = io_bind (io_gets rx_time) (wait_until t)"
  "select_write ScriptedSSL t = io_bind (io_gets tx_time) (wait_until t)"
  "monotonic ScriptedSSL = sys_time"
  "new_socket ScriptedSSL a t = io_then (create_connection a t) (io_modify (\<lambda>w. w\<lparr>sock_open := True\<rparr>))"
  "set_nodelay ScriptedSSL = io_return ()" "set_blocking ScriptedSSL = io_return ()"
  "new_ssl ScriptedSSL = io_return ()"
  "socket_close ScriptedSSL = io_modify (\<lambda>w. w\<lparr>sock_open := False\<rparr>)"
  by (simp_all add: ScriptedSSL_def)

section \<open>It is a channel\<close>

fun rx_plain :: "tls_rx \<Rightarrow> bytes" where
  "rx_plain (Plain d) = d"
| "rx_plain _ = []"

definition peer_input :: "pairing_world \<Rightarrow> bytes" where
  "peer_input w = concat (map (\<lambda>(_, ev). rx_plain ev) (from_peer w))"

lemma peer_input_simps [simp]:
  "peer_input (w\<lparr>clock := x\<rparr>) = peer_input w" "peer_input (w\<lparr>sent := b\<rparr>) = peer_input w"
  "peer_input (w\<lparr>to_peer := es\<rparr>) = peer_input w" "peer_input (w\<lparr>sock_open := o'\<rparr>) = peer_input w"
  "peer_input (w\<lparr>handshake_steps := hs\<rparr>) = peer_input w" "peer_input (w\<lparr>dials := ds\<rparr>) = peer_input w"
  by (simp_all add: peer_input_def)

lemma scripted_wait: "undisturbed peer_input sent (wait_until t r)"
proof -
  have "wp False (wait_until t r) (\<lambda>_ w'. clock w \<le> clock w' \<and> (peer_input w', sent w') = (peer_input w, sent w))
      (\<lambda>e w'. e = ValueError \<and> w' = w) w" for w
    by (rule wait_keeps) simp
  then show ?thesis unfolding undisturbed_def by (auto intro: wp_mono)
qed

interpretation scripted: ssl_channel ScriptedSSL peer_input sent
proof unfold_locales
  fix d w
  show "wp False (ssl_send ScriptedSSL d)
      (\<lambda>n w'. n \<le> int (length d) \<and> sent w' = sent w @ take (nat n) d \<and> peer_input w' = peer_input w)
      (\<lambda>_ w'. sent w' = sent w \<and> peer_input w' = peer_input w) w"
    by (auto simp: wp_def tls_send_def tls_wait_def io_defs min_def split: list.split prod.split tls_tx.split)
next
  fix n :: int and w
  assume "0 < n"
  then show "wp False (ssl_recv ScriptedSSL n)
      (\<lambda>d w'. peer_input w = d @ peer_input w' \<and> int (length d) \<le> n \<and> sent w' = sent w)
      (\<lambda>_ w'. peer_input w' = peer_input w \<and> sent w' = sent w) w"
    by (auto simp: wp_def tls_recv_def tls_wait_def io_defs peer_input_def min_def
        split: list.split prod.split tls_rx.split)
next
  fix t
  show "undisturbed peer_input sent (select_read ScriptedSSL t)"
    "undisturbed peer_input sent (select_write ScriptedSSL t)"
    using scripted_wait unfolding undisturbed_def by (simp_all add: wp_simps)
  show "undisturbed peer_input sent (monotonic ScriptedSSL)"
    unfolding undisturbed_def by (simp add: wp_simps)
qed

section \<open>Its operations end\<close>

text \<open>The peer ends the connection sooner or later, and the handshake has an outcome.\<close>

definition peer_ends :: "pairing_world \<Rightarrow> bool" where
  "peer_ends w \<longleftrightarrow> (\<exists>(a, ev) \<in> set (from_peer w). ev = CloseNotify \<or> ev = Broken) \<and>
     (\<exists>(a, r) \<in> set (handshake_steps w). r \<noteq> Inl WantReadError \<and> r \<noteq> Inl WantWriteError)"

definition peer_fuel :: "pairing_world \<Rightarrow> nat" where
  "peer_fuel w = length (from_peer w) + length (to_peer w) + length (handshake_steps w)"

lemma peer_ends_simps [simp]:
  "peer_ends (w\<lparr>clock := x\<rparr>) = peer_ends w" "peer_ends (w\<lparr>sent := b\<rparr>) = peer_ends w"
  "peer_ends (w\<lparr>to_peer := es\<rparr>) = peer_ends w" "peer_ends (w\<lparr>sock_open := o'\<rparr>) = peer_ends w"
  "peer_ends (w\<lparr>dials := ds\<rparr>) = peer_ends w"
  by (simp_all add: peer_ends_def)

lemma peer_ends_Cons:
  assumes "peer_ends w"
  obtains a ev es where "from_peer w = (a, ev) # es"
  using assms by (cases "from_peer w") (auto simp: peer_ends_def)

lemma scripted_recv_ends: "ends_wanting peer_ends peer_fuel (tls_recv n)"
  unfolding ends_wanting_def
proof (intro allI impI)
  fix w assume e: "peer_ends w"
  then obtain a ev es where "from_peer w = (a, ev) # es" by (rule peer_ends_Cons)
  with e show "wp True (tls_recv n) (\<lambda>_ w'. peer_ends w' \<and> peer_fuel w' \<le> peer_fuel w)
      (\<lambda>e w'. peer_ends w' \<and> peer_fuel w' + wants e \<le> peer_fuel w) w"
    by (cases ev) (auto simp: wp_def tls_recv_def tls_wait_def io_defs peer_ends_def peer_fuel_def wants_def)
qed

lemma scripted_send_ends: "ends_wanting peer_ends peer_fuel (tls_send d)"
  unfolding ends_wanting_def
  by (auto simp: wp_def tls_send_def tls_wait_def io_defs peer_fuel_def wants_def
      split: list.split prod.split tls_tx.split)

lemma scripted_handshake_ends: "ends_wanting peer_ends peer_fuel tls_handshake"
  unfolding ends_wanting_def
proof (intro allI impI)
  fix w assume e: "peer_ends w"
  then obtain a r rs where "handshake_steps w = (a, r) # rs"
    by (cases "handshake_steps w") (auto simp: peer_ends_def)
  with e show "wp True tls_handshake (\<lambda>_ w'. peer_ends w' \<and> peer_fuel w' \<le> peer_fuel w)
      (\<lambda>e w'. peer_ends w' \<and> peer_fuel w' + wants e \<le> peer_fuel w) w"
    by (cases r) (auto simp: wp_def tls_handshake_def tls_wait_def io_defs peer_ends_def peer_fuel_def wants_def)
qed

lemma wait_known_ends:
  assumes "\<And>w x. J w \<Longrightarrow> J (w\<lparr>clock := x\<rparr>)"
  shows "ends_in J (wait_until t (Some a))"
  using assms by (auto simp: ends_in_def wp_def wait_until_def split: option.split)

lemma select_known_ends:
  assumes "\<And>w. J w \<Longrightarrow> \<exists>a. f w = Some a" and "\<And>w x. J w \<Longrightarrow> J (w\<lparr>clock := x\<rparr>)"
  shows "ends_in J (io_bind (io_gets f) (wait_until t))"
  unfolding ends_in_def wp_bind wp_gets
proof (intro allI impI)
  fix w assume J: "J w"
  from assms(1) [OF J] obtain a where "f w = Some a" ..
  with ends_inD [OF wait_known_ends [of J, OF assms(2)] J] show "wp True (wait_until t (f w)) (\<lambda>_. J) (\<lambda>_. J) w"
    by simp
qed

lemma scripted_select_ends:
  "ends_in (\<lambda>w. peer_ends w \<and> peer_fuel w \<le> c) (io_bind (io_gets rx_time) (wait_until t))"
  "ends_in (\<lambda>w. peer_ends w \<and> peer_fuel w \<le> c) (io_bind (io_gets tx_time) (wait_until t))"
proof -
  have "\<exists>a. rx_time w = Some a" if "peer_ends w \<and> peer_fuel w \<le> c" for w
    using conjunct1 [OF that] by (rule peer_ends_Cons) (auto simp: rx_time_def Let_def split: list.split)
  then show "ends_in (\<lambda>w. peer_ends w \<and> peer_fuel w \<le> c) (io_bind (io_gets rx_time) (wait_until t))"
    by (rule select_known_ends) (simp_all add: peer_fuel_def)
  show "ends_in (\<lambda>w. peer_ends w \<and> peer_fuel w \<le> c) (io_bind (io_gets tx_time) (wait_until t))"
    by (rule select_known_ends) (auto simp: peer_fuel_def tx_time_def split: list.split)
qed

interpretation scripted_live: ssl_live ScriptedSSL peer_ends peer_fuel
  by unfold_locales (simp_all add: scripted_send_ends scripted_recv_ends scripted_handshake_ends
      scripted_select_ends, simp add: ends_in_def wp_simps peer_fuel_def)

section \<open>Pairing over it\<close>

lemma export_undisturbed: "undisturbed peer_input sent (ssl_export ScriptedSSL l n)"
  by (auto simp: undisturbed_def wp_simps split: sum.split)

text \<open>
  The library draws its random numbers elsewhere: \<open>generate_msg\<close> returns and leaves the
  connection as it is.
\<close>

definition own_randomness :: "('w, 's) crypto \<Rightarrow> bool" where
  "own_randomness C \<longleftrightarrow> (\<forall>s p w. \<exists>r. generate_msg C s p w = Some (r, w))"

lemma own_randomness_run:
  assumes "own_randomness C"
  shows "wp True (generate_msg C s p) (\<lambda>_ w'. w' = w) (\<lambda>_ w'. w' = w) w"
proof -
  obtain r where "generate_msg C s p w = Some (r, w)"
    using assms unfolding own_randomness_def by blast
  then show ?thesis by (cases r) (simp_all add: wp_def)
qed

lemma own_randomness_undisturbed: "own_randomness C \<Longrightarrow> undisturbed inp out (generate_msg C s p)"
  unfolding undisturbed_def by (auto intro: wp_mono [OF wp_weaken [OF own_randomness_run]])

lemma own_randomness_ends: "own_randomness C \<Longrightarrow> ends_in J (generate_msg C s p)"
  unfolding ends_in_def by (auto intro: wp_mono [OF own_randomness_run])

lemma wp_translated [wp_simps]:
  "wp t (translated m) Q E w =
     wp t m Q (\<lambda>e. if ssl_error e \<or> os_error e then E PairingException else E e) w"
  unfolding translated_def wp_catch
  by (rule arg_cong [where f = "\<lambda>E. wp t m Q E w"], intro ext) (simp add: wp_simps)

lemma ends_in_translated: "ends_in J m \<Longrightarrow> ends_in J (translated m)"
  unfolding translated_def by (intro ends_intros)

lemma ignoring_return [simp]: "ignoring P (io_return ()) = io_return ()"
  by (rule ext) (simp add: ignoring_def io_defs)

lemma ignoring_modify [simp]: "ignoring P (io_modify f) = io_modify f"
  by (rule ext) (simp add: ignoring_def io_defs)

lemma scripted_close [simp]:
  "close_ssl ScriptedSSL = io_return ()"
  "close_sock ScriptedSSL = io_modify (\<lambda>w. w\<lparr>sock_open := False\<rparr>)"
  by (simp_all add: close_ssl_def close_sock_def)

lemma handshake_undisturbed: "undisturbed peer_input sent tls_handshake"
  by (auto simp: undisturbed_def wp_def tls_handshake_def tls_wait_def io_defs
      split: list.split prod.split sum.split)

lemma new_socket_undisturbed: "undisturbed peer_input sent (create_connection a t)"
  using scripted_wait
  by (auto simp: undisturbed_keeps create_connection_def intro!: keeps_intros)

lemma pair_setup_undisturbed: "undisturbed peer_input sent (pair_setup ScriptedSSL t)"
  using scripted.monotonic_undisturbed
  by (auto simp: undisturbed_keeps pair_setup_def intro!: keeps_intros)

lemma pair_session_wire:
  assumes C: "own_randomness C" and w: "peer_input w1 = peer_input w" "sent w1 = sent w"
  shows "wp False (pair_session ScriptedSSL C code pub deadline)
     (\<lambda>p w'. \<exists>ours f r. make_peer_info_from_pubkey pub = Inr ours \<and>
        paired C (ssl_export ScriptedSSL) code ours f r p \<and>
        sent w' = sent w @ f \<and> peer_input w = r @ peer_input w')
     (\<lambda>_ w'. \<exists>f r. half_paired C (ssl_export ScriptedSSL) code f r \<and>
        sent w' = sent w @ f \<and> peer_input w = r @ peer_input w') w1"
proof -
  have untouched: "half_paired C (ssl_export ScriptedSSL) code [] []" by (simp add: half_paired_def)
  have hs: "wp False (retry_on_want ScriptedSSL tls_handshake deadline)
      (\<lambda>_ w'. peer_input w' = peer_input w \<and> sent w' = sent w)
      (\<lambda>_ w'. peer_input w' = peer_input w1 \<and> sent w' = sent w1) w1"
    by (rule scripted.retry_wire)
      (rule wp_mono [OF handshake_undisturbed [unfolded undisturbed_def, rule_format]], use w in auto)
  have run: "wp False (pairing_run C (PyOpenSSLTransport ScriptedSSL deadline) (ssl_export ScriptedSSL) code ours)
     (\<lambda>p w'. \<exists>ours f r. make_peer_info_from_pubkey pub = Inr ours \<and>
        paired C (ssl_export ScriptedSSL) code ours f r p \<and>
        sent w' = sent w @ f \<and> peer_input w = r @ peer_input w')
     (\<lambda>_ w'. \<exists>f r. half_paired C (ssl_export ScriptedSSL) code f r \<and>
        sent w' = sent w @ f \<and> peer_input w = r @ peer_input w') w2"
    if "make_peer_info_from_pubkey pub = Inr ours" "peer_input w2 = peer_input w" "sent w2 = sent w" for ours w2
    by (rule wp_mono [OF scripted.channel.pairing_run_wire [OF export_undisturbed own_randomness_undisturbed [OF C]]])
      (use that in auto)
  show ?thesis
    unfolding pair_session_def wp_bind wp_lift ScriptedSSL_sel(3)
    by (rule wp_mono [OF hs]) (use w untouched run in \<open>auto split: sum.split\<close>)
qed

text \<open>The \<open>try\<close> statement around a session.\<close>

lemma pair_try_wire:
  assumes talk: "\<And>deadline w1. peer_input w1 = peer_input w \<Longrightarrow> sent w1 = sent w \<Longrightarrow>
      wp False (pair_session ScriptedSSL C code pub deadline)
        (\<lambda>p w'. Q p (w'\<lparr>sock_open := False\<rparr>)) (\<lambda>_ w'. E (w'\<lparr>sock_open := False\<rparr>)) w1"
    and untouched: "\<And>w'. peer_input w' = peer_input w \<Longrightarrow> sent w' = sent w \<Longrightarrow> E w'"
  shows "wp False (pair_try ScriptedSSL C addr code pub timeout) Q (\<lambda>_. E) w"
proof -
  let ?same = "\<lambda>w'. peer_input w' = peer_input w \<and> sent w' = sent w"
  have finish: "wp False (io_finally (translated (pair_session ScriptedSSL C code pub deadline))
      (io_then (close_ssl ScriptedSSL) (close_sock ScriptedSSL))) Q (\<lambda>_. E) w1" if "?same w1" for deadline w1
    using that by (auto simp: wp_finally wp_translated wp_modify intro!: wp_mono [OF talk])
  have set_up: "wp False (io_bind (io_catch (translated (pair_setup ScriptedSSL timeout))
        (\<lambda>e. io_then (close_sock ScriptedSSL) (io_raise e))) (\<lambda>deadline.
      io_finally (translated (pair_session ScriptedSSL C code pub deadline))
        (io_then (close_ssl ScriptedSSL) (close_sock ScriptedSSL)))) Q (\<lambda>_. E) w1" if "?same w1" for w1
    unfolding wp_bind [of _ "io_catch p h" for p h] wp_catch wp_translated
    by (rule wp_mono [OF pair_setup_undisturbed [unfolded undisturbed_def, rule_format]])
      (use that finish in \<open>auto simp: wp_bind wp_modify wp_raise untouched\<close>)
  show ?thesis
    unfolding pair_try_def wp_bind [of _ "translated p" for p] wp_translated ScriptedSSL_sel wp_bind [of _ "create_connection a t" for a t]
    by (rule wp_mono [OF new_socket_undisturbed [unfolded undisturbed_def, rule_format]])
      (use set_up untouched in \<open>auto simp: wp_modify\<close>)
qed

section \<open>Pairing ends and leaves no socket open\<close>

lemma pair_try_ends:
  assumes "own_randomness C"
  shows "ends_in peer_ends (pair_try ScriptedSSL C addr code pub timeout)"
proof -
  have create: "ends_in peer_ends (create_connection addr timeout)"
    unfolding create_connection_def by (intro ends_intros wait_known_ends) simp_all
  have clock: "ends_in peer_ends sys_time" by (simp add: ends_in_def wp_simps)
  have hs: "ends_in peer_ends (retry_on_want ScriptedSSL tls_handshake d)" for d
    by (rule scripted_live.retry_live [OF scripted_handshake_ends])
  have run: "ends_in peer_ends (pairing_run C (PyOpenSSLTransport ScriptedSSL d)
      (\<lambda>l n. io_bind (io_gets keying) (\<lambda>k. io_lift (k l n))) code ours)" for d ours
    by (rule scripted_live.live.pairing_run_ends) (intro ends_intros, rule own_randomness_ends [OF assms])
  show ?thesis
    unfolding pair_try_def pair_session_def pair_setup_def scripted_close ScriptedSSL_sel
    by (intro ends_intros ends_in_translated create clock hs run) simp_all
qed

lemma pair_ends_in:
  assumes "own_randomness C"
  shows "ends_in peer_ends (pair ScriptedSSL C x509 context addr code pem pub timeout)"
  unfolding pair_def by (intro ends_intros pair_try_ends [OF assms])

text \<open>An exception of the network or of TLS.\<close>

definition network_error :: "exn \<Rightarrow> bool" where
  "network_error e \<longleftrightarrow> ssl_error e \<or> os_error e"

lemma pairing_exception_no_network_error [simp]: "\<not> network_error PairingException"
  by (simp add: network_error_def ssl_error_def os_error_def)

lemma translated_errors: "wp False (translated m) (\<lambda>_ _. True) (\<lambda>e _. \<not> network_error e) w"
  unfolding wp_translated
  by (rule wp_mono [OF wp_trivial]) (auto simp: network_error_def ssl_error_def os_error_def)

lemma finally_close:
  "wp False (io_finally (translated m) (io_then (close_ssl ScriptedSSL) (close_sock ScriptedSSL)))
     (\<lambda>_ w'. \<not> sock_open w') (\<lambda>e w'. \<not> sock_open w' \<and> \<not> network_error e) w"
  unfolding wp_finally
  by (rule wp_mono [OF translated_errors]) (simp_all add: wp_modify)

lemma create_keeps_sock: "keeps (\<lambda>w. sock_open w = b) (create_connection a t)"
proof -
  have "wp False (wait_until t r) (\<lambda>_ w'. clock w \<le> clock w' \<and> sock_open w' = sock_open w)
      (\<lambda>e w'. e = ValueError \<and> w' = w) w" for t r w
    by (rule wait_keeps) simp
  then have "keeps (\<lambda>w. sock_open w = b) (wait_until t r)" for t r
    unfolding keeps_def by (auto intro: wp_mono)
  then show ?thesis unfolding create_connection_def by (auto intro!: keeps_intros)
qed

lemma pair_try_closes:
  assumes "\<not> sock_open w"
  shows "wp False (pair_try ScriptedSSL C addr code pub timeout)
    (\<lambda>_ w'. \<not> sock_open w') (\<lambda>e w'. \<not> sock_open w' \<and> \<not> network_error e) w"
proof -
  have set_up: "wp False (io_bind (io_catch (translated (pair_setup ScriptedSSL timeout))
        (\<lambda>e. io_then (close_sock ScriptedSSL) (io_raise e))) (\<lambda>deadline.
      io_finally (translated (pair_session ScriptedSSL C code pub deadline))
        (io_then (close_ssl ScriptedSSL) (close_sock ScriptedSSL))))
     (\<lambda>_ w'. \<not> sock_open w') (\<lambda>e w'. \<not> sock_open w' \<and> \<not> network_error e) w1" for w1
    unfolding wp_bind [of _ "io_catch p h" for p h] wp_catch
    by (rule wp_mono [OF translated_errors]) (simp_all add: finally_close [simplified] wp_bind wp_modify wp_raise)
  have create: "wp False (create_connection addr timeout) (\<lambda>_ w'. \<not> sock_open w') (\<lambda>_ w'. \<not> sock_open w') w"
    using keepsD [OF create_keeps_sock [where b = False], of w] assms by simp
  show ?thesis
    unfolding pair_try_def wp_bind [of _ "translated p" for p] wp_translated ScriptedSSL_sel
      wp_bind [of _ "create_connection a t" for a t]
    by (rule wp_mono [OF create])
      (use set_up in \<open>auto simp: wp_modify network_error_def ssl_error_def os_error_def\<close>)
qed

end
