(* ===== verification/Pairing_Properties.thy ===== *)
theory Pairing_Properties
  imports Pairing_World
begin

text \<open>
  The properties of Wi-Fi pairing: its wire formats, the nonces of its cipher, and \<open>pair\<close> over
  a scripted TLS connection.
\<close>

section \<open>Wire formats\<close>

text \<open>A pairing packet header that can be packed has six bytes and is read back, with its type
  and size, exactly when its size is between 1 and 16384; with any other size it is rejected.
  Packing fails exactly for a type that is no byte or a size that is no 32-bit number, and every
  byte string that is read is a header that was packed: a wrong length or version is rejected.\<close>

theorem pairing_header_round_trip:
  "(case pack_header t n of
      Inl e \<Rightarrow> e = StructError \<and> \<not> (0 \<le> t \<and> t < 256 \<and> 0 \<le> n \<and> n < 2 ^ 32)
    | Inr h \<Rightarrow> length h = 6 \<and>
        unpack_header h = (if 0 < n \<and> n \<le> 16384 then Inr (t, n) else Inl PairingException)) \<and>
   (case unpack_header b of
      Inl e \<Rightarrow> e = PairingException
    | Inr (u, m) \<Rightarrow> pack_header u m = Inr b)"
proof (rule conjI)
  show "case pack_header t n of
      Inl e \<Rightarrow> e = StructError \<and> \<not> (0 \<le> t \<and> t < 256 \<and> 0 \<le> n \<and> n < 2 ^ 32)
    | Inr h \<Rightarrow> length h = 6 \<and>
        unpack_header h = (if 0 < n \<and> n \<le> 16384 then Inr (t, n) else Inl PairingException)"
  proof (cases "pack_header t n")
    case (Inl e)
    then show ?thesis by (auto simp: pack_header_def pack_BBI_eq u32_range_def pairing_const_defs split: if_splits)
  next
    case (Inr h)
    have "unpack_BBI h = Inr (1, t, n)" "length h = 6"
      using unpack_pack_BBI Inr unfolding pack_header_def pairing_const_defs by blast+
    moreover from Inr have "0 \<le> n"
      by (auto simp: pack_header_def pack_BBI_eq u32_range_def split: if_splits)
    ultimately show ?thesis using Inr by (simp add: unpack_header_def pairing_const_defs)
  qed
  show "case unpack_header b of Inl e \<Rightarrow> e = PairingException | Inr (u, m) \<Rightarrow> pack_header u m = Inr b"
    by (auto split: sum.split dest: unpack_header_error simp: unpack_header_eq_Inr)
qed

text \<open>A peer information travels as 8192 bytes. Packing one with data of at most 8191 bytes
  and unpacking it gives the type and the data without its trailing zeros; and what was unpacked
  from any 8192 bytes packs to exactly those bytes again.\<close>

theorem peer_info_round_trip:
  "e_bind (PeerInfo t d) (\<lambda>p. e_bind (peer_info_pack p) (\<lambda>b. Inr (int (length b), peer_info_unpack b))) =
     (if 8191 < length d then Inl ValueError
      else if 0 \<le> t \<and> t < 256
        then Inr (8192, Inr \<lparr>peer_type = t, peer_data = rstrip_zeros d\<rparr>)
      else Inl StructError) \<and>
   e_bind (peer_info_unpack blob) peer_info_pack = (if length blob = 8192 then Inr blob else Inl ValueError)"
proof (rule conjI)
  have len: "length (rstrip_zeros d) \<le> length d" by (rule rstrip_zeros_length)
  show "e_bind (PeerInfo t d) (\<lambda>p. e_bind (peer_info_pack p) (\<lambda>b. Inr (int (length b), peer_info_unpack b))) =
     (if 8191 < length d then Inl ValueError
      else if 0 \<le> t \<and> t < 256
        then Inr (8192, Inr \<lparr>peer_type = t, peer_data = rstrip_zeros d\<rparr>)
      else Inl StructError)"
    using len by (auto simp: PeerInfo_def peer_info_pack_def peer_info_unpack_def pack_uint_1
        pairing_const_defs Let_def rstrip_zeros_padding uint_word_of_int_byte)
  show "e_bind (peer_info_unpack blob) peer_info_pack = (if length blob = 8192 then Inr blob else Inl ValueError)"
  proof (cases "length blob = 8192")
    case False
    then show ?thesis by (simp add: peer_info_unpack_def pairing_const_defs)
  next
    case True
    then obtain b bs where b: "blob = b # bs" "length bs = 8191" by (cases blob) auto
    have "length (rstrip_zeros bs) \<le> 8191" using rstrip_zeros_length [of bs] b by simp
    moreover have "nat (8191 - int (length (rstrip_zeros bs))) = length bs - length (rstrip_zeros bs)"
      using b by simp
    ultimately show ?thesis
      using True b rstrip_zeros_split [of bs] uint_byte_range [of b]
      by (simp add: peer_info_unpack_def PeerInfo_def peer_info_pack_def pack_uint_1 pairing_const_defs Let_def)
  qed
qed

section \<open>The cipher\<close>


text \<open>If AES-GCM decrypts what it encrypted, a context that has the key of another and starts
  at its number decrypts the messages of the other, received in order, to what was encrypted.\<close>

theorem cipher_in_step:
  assumes "\<And>k n p c. aes_encrypt C k n p = Inr c \<Longrightarrow> aes_decrypt C k n c = Inr p"
    and "encrypt_all C ps a = Inr cs" and "cipher b = cipher a" and "dec_sequence b = enc_sequence a"
  shows "decrypt_all C cs b = Inr ps"
  by (rule decrypt_encrypt_all [OF assms])

text \<open>A cipher for the examples: the nonce goes in front and the key byte is added.\<close>

definition sample_crypto :: "(pairing_world, unit) crypto" where
  "sample_crypto =
     \<lparr>Spake2_Alice = (\<lambda>_ _. ()), Spake2_Bob = (\<lambda>_ _. ()), generate_msg = (\<lambda>_ p. io_return (take 2 p, ())),
      process_msg = (\<lambda>_ m. (Inr m, ())), hkdf_sha256 = (\<lambda>n i k. take (nat n) (k @ i)),
      aes_encrypt = (\<lambda>k n p. Inr (n @ map ((+) (hd k)) p)),
      aes_decrypt = (\<lambda>k n c. if take (length n) c = n then Inr (map (\<lambda>b. b - hd k) (drop (length n) c))
                             else Inl (ForeignError ''InvalidTag''))\<rparr>"

definition sample_ctx :: "unit auth_ctx" where
  "sample_ctx = \<lparr>auth_role = ROLE_CLIENT, spake = (), cipher = Some [7], our_msg = [1],
     enc_sequence = 0, dec_sequence = 0\<rparr>"

lemma sample_encrypts:
  "encrypt_all sample_crypto [[1, 2], [3]] sample_ctx =
     Inr [[0,0,0,0,0,0,0,0,0,0,0,0,8,9], [1,0,0,0,0,0,0,0,0,0,0,0,10]]"
  by code_simp

theorem cipher_in_step_witness:
  "decrypt_all sample_crypto
     [[0,0,0,0,0,0,0,0,0,0,0,0,8,9], [1,0,0,0,0,0,0,0,0,0,0,0,10]] sample_ctx = Inr [[1, 2], [3]]"
proof (rule cipher_in_step [OF _ sample_encrypts])
  fix k n p c
  assume "aes_encrypt sample_crypto k n p = Inr c"
  then show "aes_decrypt sample_crypto k n c = Inr p"
    by (auto simp: sample_crypto_def o_def)
qed (simp_all add: sample_ctx_def)

section \<open>Pairing with a device\<close>


text \<open>C22. \<open>pair\<close> ends, with or without a deadline, if the peer closes the connection or breaks it
  sooner or later and the TLS handshake has an outcome: waiting for more cannot go on for ever.\<close>

theorem pair_ends:
  assumes "own_randomness C" and "peer_ends w"
  shows "\<exists>r w'. pair ScriptedSSL C x509 context addr code pem pub timeout w = Some (r, w')"
  by (rule wp_totalD [OF ends_inD [OF pair_ends_in [OF assms(1)] assms(2)]])


text \<open>A failure that is no \<open>PairingException\<close>: when the peer's information was received and
  decrypted, but does not have 8192 bytes, a \<open>ValueError\<close> is raised.\<close>

theorem wrong_size_is_value_error:
  assumes "peer_info_pack ours = Inr plain" and "auth_encrypt C plain a = (Inr ct, a')"
    and "send_packet T PAIRING_PACKET_TYPE_PEER_INFO ct w = Some (Inr (), w1)"
    and "recv_packet T PAIRING_PACKET_TYPE_PEER_INFO w1 = Some (Inr enc, w2)"
    and "fst (auth_decrypt C enc a') = Inr dec" and "length dec \<noteq> 8192"
  shows "exchange_peer_info C T ours a w = Some (Inl ValueError, w2)"
  using assms by (simp add: exchange_peer_info_def run_simps peer_info_unpack_def pairing_const_defs)

definition silly_crypto :: "(unit, unit) crypto" where
  "silly_crypto =
     \<lparr>Spake2_Alice = (\<lambda>_ _. ()), Spake2_Bob = (\<lambda>_ _. ()), generate_msg = (\<lambda>_ p. io_return (p, ())),
      process_msg = (\<lambda>_ m. (Inr m, ())), hkdf_sha256 = (\<lambda>n i k. k),
      aes_encrypt = (\<lambda>k n p. Inr [9]), aes_decrypt = (\<lambda>k n c. Inr c)\<rparr>"

definition canned_transport :: "unit pairing_transport" where
  "canned_transport =
     \<lparr>send_all = (\<lambda>_. io_return ()),
      recv_exact = (\<lambda>n. io_return (if n = 6 then [1, 1, 0, 0, 0, 1] else [5]))\<rparr>"

lemma canned_runs:
  "send_packet canned_transport PAIRING_PACKET_TYPE_PEER_INFO [9] () = Some (Inr (), ())"
  "recv_packet canned_transport PAIRING_PACKET_TYPE_PEER_INFO () = Some (Inr [5], ())"
  by code_simp+

theorem wrong_size_is_value_error_witness:
  "exchange_peer_info silly_crypto canned_transport \<lparr>peer_type = 0, peer_data = [5]\<rparr> sample_ctx () =
     Some (Inl ValueError, ())"
proof (rule wrong_size_is_value_error [OF _ _ canned_runs, where a' = "sample_ctx\<lparr>enc_sequence := 1\<rparr>" and dec = "[5]"])
  show "peer_info_pack \<lparr>peer_type = 0, peer_data = [5]\<rparr> = Inr (0 # 5 # replicate 8190 0)"
    by (simp add: peer_info_pack_def pack_uint_1 pairing_const_defs)
qed (simp_all add: silly_crypto_def sample_ctx_def auth_encrypt_def auth_decrypt_def build_nonce_eq)

section \<open>Examples\<close>

lemma sample_own_randomness: "own_randomness sample_crypto"
  by (simp add: own_randomness_def sample_crypto_def io_return_def)

text \<open>A device whose first packet is not the expected one.\<close>

definition sample_pairing :: pairing_world where
  "sample_pairing = \<lparr>clock = 0, sent = [],
     dials = (\<lambda>_. [(0, Inr \<lparr>rx = [], tx = [], sock_timeout = None\<rparr>)]), handshakes = [],
     from_peer = [(1, Plain [1, 1, 0]), (2, Record), (3, Plain [0, 0, 1, 7]), (4, CloseNotify)],
     to_peer = [(0, Takes 3), (0, Full)], handshake_steps = [(0, Inl WantReadError), (0, Inr ())],
     keying = (\<lambda>_ _. Inr (replicate 64 1)), sock_open = False\<rparr>"

abbreviation sample_pair :: "(pairing_world, peer_info) prog" where
  "sample_pair \<equiv> pair ScriptedSSL sample_crypto (\<lambda>b. Inr (b, b)) (\<lambda>_ _. Inr ()) (str_lit ''host'', 37000)
     (PyStr (str_lit ''51'')) [] (PyBytes [5]) (Some 30)"



theorem pair_ends_witness: "\<exists>r w'. sample_pair sample_pairing = Some (r, w')"
  by (rule pair_ends [OF sample_own_randomness]) (simp add: peer_ends_def sample_pairing_def)


end
