(* ===== verification/Usb_Transport.thy ===== *)
theory Usb_Transport
  imports File_Sync IO_Manager_Spec
begin

unbundle bit_operations_syntax

text \<open>
  \<open>UsbTransport\<close> of \<open>adb_shell_wifi/transport/usb_transport.py\<close>. The \<open>usb1\<close> package is a record
  of operations on devices of type \<open>'d\<close> and handles of type \<open>'h\<close>; the settings of a device are
  data. Modelled are finding a device, opening it, the transfers with their timeouts, and the
  translation of USB errors. Under the laws of the locale \<open>usb_bus\<close> it is a byte transport.
\<close>

section \<open>The library\<close>

text \<open>An endpoint is its address and its maximal packet size.\<close>

record usb_setting =
  set_class :: int
  set_subclass :: int
  set_protocol :: int
  set_number :: int
  set_endpoints :: "(int \<times> int) list"

text \<open>
  \<open>dir_mask_attr\<close> is the attribute \<open>usb1.USB_ENDPOINT_DIR_MASK\<close>, which need not exist;
  \<open>endpoint_dir_mask\<close> is \<open>usb1.ENDPOINT_DIR_MASK\<close>.
\<close>

record ('w, 'd, 'h) usb_api =
  class_vendor_spec :: int
  endpoint_dir_mask :: int
  dir_mask_attr :: "exn + int"
  on_windows :: bool
  device_iterator :: "('w, 'd list) prog"
  iter_settings :: "'d \<Rightarrow> usb_setting list"
  bus_number :: "'d \<Rightarrow> int"
  port_number_list :: "'d \<Rightarrow> int list"
  get_serial_number :: "'d \<Rightarrow> ('w, pystr) prog"
  open_device :: "'d \<Rightarrow> ('w, 'h) prog"
  release_interface :: "'h \<Rightarrow> int option \<Rightarrow> ('w, unit) prog"
  close_handle :: "'h \<Rightarrow> ('w, unit) prog"
  kernel_driver_active :: "'h \<Rightarrow> int \<Rightarrow> ('w, bool) prog"
  detach_kernel_driver :: "'h \<Rightarrow> int \<Rightarrow> ('w, unit) prog"
  claim_interface :: "'h \<Rightarrow> int \<Rightarrow> ('w, unit) prog"
  bulk_read_pipe :: "'h \<Rightarrow> int option \<Rightarrow> int \<Rightarrow> int \<Rightarrow> ('w, bytes) prog"
  bulk_write_pipe :: "'h \<Rightarrow> int option \<Rightarrow> bytes \<Rightarrow> int \<Rightarrow> ('w, int) prog"
  usb_time :: "('w, rat) prog"

definition usb_error :: "exn \<Rightarrow> bool" where
  "usb_error e \<longleftrightarrow> e \<in> {USBError, USBErrorTimeout, USBErrorNotFound}"

section \<open>State\<close>

text \<open>What \<open>usb_info\<close> shows: the argument (a text or a port path), and a serial number.\<close>

datatype usb_info_arg = InfoStr pystr | InfoPath "int list"

record ('d, 'h) usb_transport =
  ut_setting :: usb_setting
  ut_device :: 'd
  ut_handle :: "'h option"
  interface_number :: "int option"
  read_endpoint :: "int option"
  write_endpoint :: "int option"
  ut_info :: usb_info_arg
  ut_default_timeout :: rat
  max_read_packet_len :: int

definition DEFAULT_USB_TIMEOUT_S :: rat where "DEFAULT_USB_TIMEOUT_S = 10"

definition UsbTransport ::
  "'d \<Rightarrow> usb_setting \<Rightarrow> usb_info_arg \<Rightarrow> rat option \<Rightarrow> ('d, 'h) usb_transport" where
  "UsbTransport device setting info default_timeout =
     \<lparr>ut_setting = setting, ut_device = device, ut_handle = None, interface_number = None,
      read_endpoint = None, write_endpoint = None,
      ut_info = (case info of InfoPath [] \<Rightarrow> InfoStr [] | _ \<Rightarrow> info),
      ut_default_timeout = (case default_timeout of None \<Rightarrow> DEFAULT_USB_TIMEOUT_S | Some t \<Rightarrow> t),
      max_read_packet_len = 0\<rparr>"

text \<open>The transport object, the class's cache of opened port paths, and the bus.\<close>

record ('w, 'd, 'h) usb_world =
  usb :: "('d, 'h) usb_transport"
  handle_cache :: "int list list"
  usb_bus :: 'w

definition on_bus :: "('w, 'a) prog \<Rightarrow> (('w, 'd, 'h) usb_world, 'a) prog" where
  "on_bus = io_zoom usb_bus (\<lambda>b w. w\<lparr>usb_bus := b\<rparr>)"

definition modify_usb ::
  "(('d, 'h) usb_transport \<Rightarrow> ('d, 'h) usb_transport) \<Rightarrow> (('w, 'd, 'h) usb_world, unit) prog" where
  "modify_usb f = io_modify (\<lambda>w. w\<lparr>usb := f (usb w)\<rparr>)"

section \<open>Properties of the transport\<close>

definition port_path :: "('w, 'd, 'h) usb_api \<Rightarrow> ('d, 'h) usb_transport \<Rightarrow> int list" where
  "port_path A t = [bus_number A (ut_device t)] @ port_number_list A (ut_device t)"

definition serial_number :: "('w, 'd, 'h) usb_api \<Rightarrow> ('d, 'h) usb_transport \<Rightarrow> ('w, pystr) prog" where
  "serial_number A t = get_serial_number A (ut_device t)"

definition usb_info ::
  "('w, 'd, 'h) usb_api \<Rightarrow> ('d, 'h) usb_transport \<Rightarrow> ('w, usb_info_arg \<times> pystr option) prog" where
  "usb_info A t =
     io_bind (io_catch (serial_number A t) (\<lambda>e. if usb_error e then io_return [] else io_raise e)) (\<lambda>sn.
       if sn \<noteq> [] \<and> InfoStr sn \<noteq> ut_info t then io_return (ut_info t, Some sn)
       else io_return (ut_info t, None))"

text \<open>\<open>int(x * 1000)\<close>, which rounds towards zero.\<close>

definition py_trunc :: "rat \<Rightarrow> int" where
  "py_trunc x = (if 0 \<le> x then \<lfloor>x\<rfloor> else \<lceil>x\<rceil>)"

definition timeout_ms :: "('d, 'h) usb_transport \<Rightarrow> rat option \<Rightarrow> int" where
  "timeout_ms t transport_timeout =
     py_trunc (case transport_timeout of Some x \<Rightarrow> x * 1000 | None \<Rightarrow> ut_default_timeout t * 1000)"

section \<open>Closing and connecting\<close>

definition usb_close :: "('w, 'd, 'h) usb_api \<Rightarrow> (('w, 'd, 'h) usb_world, unit) prog" where
  "usb_close A =
     io_bind (io_gets usb) (\<lambda>t.
       case ut_handle t of
         None \<Rightarrow> io_return ()
       | Some h \<Rightarrow>
           io_finally
             (io_catch
               (io_then (on_bus (release_interface A h (interface_number t))) (on_bus (close_handle A h)))
               (\<lambda>e. if usb_error e then io_then (on_bus (usb_info A t)) (io_return ()) else io_raise e))
             (modify_usb (\<lambda>t. t\<lparr>ut_handle := None\<rparr>)))"

text \<open>The last address of each direction.\<close>

fun scan_endpoints :: "int \<Rightarrow> (int \<times> int) list \<Rightarrow> int option \<times> int option \<Rightarrow> int option \<times> int option" where
  "scan_endpoints dirmask [] (r, w) = (r, w)"
| "scan_endpoints dirmask ((address, _) # es) (r, w) =
     scan_endpoints dirmask es (if address AND dirmask \<noteq> 0 then (Some address, w) else (r, Some address))"

text \<open>
  A missing kernel driver is reported by \<open>warnings.warn(text, iface_number)\<close>, where a number in
  the place of the warning's category raises \<open>TypeError\<close>.
\<close>

definition detach_driver :: "('w, 'd, 'h) usb_api \<Rightarrow> 'h \<Rightarrow> int \<Rightarrow> ('w, unit) prog" where
  "detach_driver A h iface =
     io_catch
       (if \<not> on_windows A
        then io_bind (kernel_driver_active A h iface) (\<lambda>active.
               if active then detach_kernel_driver A h iface else io_return ())
        else io_return ())
       (\<lambda>e. if e = USBErrorNotFound then io_raise TypeError else io_raise e)"

definition usb_connect :: "('w, 'd, 'h) usb_api \<Rightarrow> rat option \<Rightarrow> (('w, 'd, 'h) usb_world, unit) prog" where
  "usb_connect A transport_timeout =
     io_bind (io_gets usb) (\<lambda>t.
       case scan_endpoints (endpoint_dir_mask A) (set_endpoints (ut_setting t)) (None, None) of
         (Some r, Some w) \<Rightarrow>
           io_bind (on_bus (open_device A (ut_device t))) (\<lambda>h.
           (let iface = set_number (ut_setting t)
            in io_then (on_bus (detach_driver A h iface))
               (io_then (modify_usb (\<lambda>t. t\<lparr>ut_handle := Some h, read_endpoint := Some r,
                            write_endpoint := Some w, interface_number := Some iface\<rparr>))
                 (on_bus (claim_interface A h iface)))))
       | _ \<Rightarrow> io_raise AssertionError)"

section \<open>Transfers\<close>

definition usb_bulk_read ::
  "('w, 'd, 'h) usb_api \<Rightarrow> int \<Rightarrow> rat option \<Rightarrow> (('w, 'd, 'h) usb_world, bytes) prog" where
  "usb_bulk_read A numbytes transport_timeout =
     io_bind (io_gets usb) (\<lambda>t.
       case ut_handle t of
         None \<Rightarrow> io_raise (UsbReadFailedError None)
       | Some h \<Rightarrow>
           io_catch (on_bus (bulk_read_pipe A h (read_endpoint t) numbytes (timeout_ms t transport_timeout)))
             (\<lambda>e. if usb_error e
                  then io_then (on_bus (usb_info A t)) (io_raise (UsbReadFailedError (Some e)))
                  else io_raise e))"

definition usb_bulk_write ::
  "('w, 'd, 'h) usb_api \<Rightarrow> bytes \<Rightarrow> rat option \<Rightarrow> (('w, 'd, 'h) usb_world, int) prog" where
  "usb_bulk_write A data transport_timeout =
     io_bind (io_gets usb) (\<lambda>t.
       case ut_handle t of
         None \<Rightarrow> io_raise (UsbWriteFailedError None)
       | Some h \<Rightarrow>
           io_catch (on_bus (bulk_write_pipe A h (write_endpoint t) data (timeout_ms t transport_timeout)))
             (\<lambda>e. if usb_error e
                  then io_then (on_bus (usb_info A t)) (io_raise (UsbWriteFailedError (Some e)))
                  else io_raise e))"

definition usb_transport_of :: "('w, 'd, 'h) usb_api \<Rightarrow> ('w, 'd, 'h) usb_world transport" where
  "usb_transport_of A =
     \<lparr>tr_close = usb_close A, tr_connect = usb_connect A, tr_bulk_read = usb_bulk_read A,
      tr_bulk_write = usb_bulk_write A, tr_tls_upgrade = None, tr_time = on_bus (usb_time A)\<rparr>"

section \<open>Opening\<close>

fun open_endpoints ::
  "('w, 'd, 'h) usb_api \<Rightarrow> (int \<times> int) list \<Rightarrow> (('w, 'd, 'h) usb_world, unit) prog" where
  "open_endpoints A [] = io_return ()"
| "open_endpoints A ((address, len) # es) =
     io_bind (io_lift (dir_mask_attr A)) (\<lambda>dirmask.
     io_then (modify_usb (\<lambda>t.
         if address AND dirmask \<noteq> 0 then t\<lparr>read_endpoint := Some address, max_read_packet_len := len\<rparr>
         else t\<lparr>write_endpoint := Some address\<rparr>))
       (open_endpoints A es))"

text \<open>A cached transport is closed with \<open>old_transport.Close()\<close>, which no transport has.\<close>

definition usb_open :: "('w, 'd, 'h) usb_api \<Rightarrow> (('w, 'd, 'h) usb_world, unit) prog" where
  "usb_open A =
     io_bind (io_gets (\<lambda>w. (port_path A (usb w), handle_cache w))) (\<lambda>(path, cache).
       if path \<in> set cache then io_raise AttributeError
       else
         io_then (modify_usb (\<lambda>t. t\<lparr>read_endpoint := None, write_endpoint := None\<rparr>))
         (io_bind (io_gets usb) (\<lambda>t0.
         io_then (open_endpoints A (set_endpoints (ut_setting t0)))
         (io_bind (io_gets usb) (\<lambda>t.
           if read_endpoint t = None \<or> write_endpoint t = None then io_raise AssertionError
           else
             io_bind (on_bus (open_device A (ut_device t))) (\<lambda>h.
             (let iface = set_number (ut_setting t)
              in io_then (on_bus (detach_driver A h iface))
                 (io_then (on_bus (claim_interface A h iface))
                 (io_then (modify_usb (\<lambda>t. t\<lparr>ut_handle := Some h, interface_number := Some iface\<rparr>))
                   (io_modify (\<lambda>w. w\<lparr>handle_cache := path # handle_cache w\<rparr>)))))))))))"

definition flush_body :: "('w, 'd, 'h) usb_api \<Rightarrow> unit \<Rightarrow> (('w, 'd, 'h) usb_world, (unit, unit) loop_ctl) prog" where
  "flush_body A _ =
     io_bind (io_gets usb) (\<lambda>t.
     io_catch (io_then (usb_bulk_read A (max_read_packet_len t) (Some 10)) (io_return (Continue ())))
       (\<lambda>e. if e = UsbReadFailedError (Some USBErrorTimeout) then io_return (Break ()) else io_raise e))"

definition flush_buffers :: "('w, 'd, 'h) usb_api \<Rightarrow> (('w, 'd, 'h) usb_world, unit) prog" where
  "flush_buffers A = io_loop (flush_body A) ()"

section \<open>Finding\<close>

definition get_interface :: "usb_setting \<Rightarrow> int \<times> int \<times> int" where
  "get_interface s = (set_class s, set_subclass s, set_protocol s)"

definition interface_matcher ::
  "('w, 'd, 'h) usb_api \<Rightarrow> int \<times> int \<times> int \<Rightarrow> 'd \<Rightarrow> usb_setting option" where
  "interface_matcher A interface device = find (\<lambda>s. get_interface s = interface) (iter_settings A device)"

definition USB_SUBCLASS :: int where "USB_SUBCLASS = 0x42"
definition USB_PROTOCOL :: int where "USB_PROTOCOL = 0x01"

text \<open>A port path is a list of numbers or a text in the way of sysfs, split at \<open>[,/:.-]\<close>.\<close>

datatype port_arg = PortStr pystr | PortList "int list"

definition is_port_separator :: "nat \<Rightarrow> bool" where
  "is_port_separator c \<longleftrightarrow> c \<in> set (str_lit '',/:.-'')"

fun split_ports :: "pystr \<Rightarrow> pystr \<Rightarrow> pystr list" where
  "split_ports acc [] = [acc]"
| "split_ports acc (c # cs) =
     (if is_port_separator c then acc # split_ports [] cs else split_ports (acc @ [c]) cs)"

text \<open>\<open>int(part)\<close> for ASCII text: blanks around, a sign, digits with single underscores between.\<close>

definition is_blank :: "nat \<Rightarrow> bool" where
  "is_blank c \<longleftrightarrow> c = 32 \<or> 9 \<le> c \<and> c \<le> 13 \<or> 28 \<le> c \<and> c \<le> 31"

definition py_strip :: "pystr \<Rightarrow> pystr" where
  "py_strip s = rev (dropWhile is_blank (rev (dropWhile is_blank s)))"

fun digits_value :: "nat \<Rightarrow> bool \<Rightarrow> pystr \<Rightarrow> exn + nat" where
  "digits_value v digit_before [] = (if digit_before then Inr v else Inl ValueError)"
| "digits_value v digit_before (c # cs) =
     (if 48 \<le> c \<and> c \<le> 57 then digits_value (10 * v + (c - 48)) True cs
      else if c = 95 \<and> digit_before then digits_value v False cs
      else Inl ValueError)"

definition py_int :: "pystr \<Rightarrow> exn + int" where
  "py_int s =
     (case py_strip s of
        c # cs \<Rightarrow>
          if c = 43 then e_bind (digits_value 0 False cs) (\<lambda>n. Inr (int n))
          else if c = 45 then e_bind (digits_value 0 False cs) (\<lambda>n. Inr (- int n))
          else e_bind (digits_value 0 False (c # cs)) (\<lambda>n. Inr (int n))
      | [] \<Rightarrow> Inl ValueError)"

fun e_map :: "('a \<Rightarrow> exn + 'b) \<Rightarrow> 'a list \<Rightarrow> exn + 'b list" where
  "e_map f [] = Inr []"
| "e_map f (x # xs) = e_bind (f x) (\<lambda>y. e_bind (e_map f xs) (\<lambda>ys. Inr (y # ys)))"

definition port_path_of :: "port_arg \<Rightarrow> exn + int list" where
  "port_path_of p = (case p of PortList l \<Rightarrow> Inr l | PortStr s \<Rightarrow> e_map py_int (split_ports [] s))"

type_synonym ('w, 'd, 'h) usb_matcher = "('d, 'h) usb_transport \<Rightarrow> ('w, bool) prog"

definition port_path_matcher ::
  "('w, 'd, 'h) usb_api \<Rightarrow> int list \<Rightarrow> ('w, 'd, 'h) usb_matcher" where
  "port_path_matcher A path t = io_return (port_path A t = path)"

definition serial_matcher :: "('w, 'd, 'h) usb_api \<Rightarrow> pystr \<Rightarrow> ('w, 'd, 'h) usb_matcher" where
  "serial_matcher A serial t = io_bind (serial_number A t) (\<lambda>sn. io_return (sn = serial))"

text \<open>The transports that \<open>_find_devices\<close> yields, one after the other; \<open>next\<close> takes the first.\<close>

fun find_devices ::
  "('d \<Rightarrow> usb_setting option) \<Rightarrow> ('w, 'd, 'h) usb_matcher option \<Rightarrow> usb_info_arg \<Rightarrow> rat option \<Rightarrow>
     'd list \<Rightarrow> ('w, ('d, 'h) usb_transport list) prog" where
  "find_devices setting_matcher device_matcher info default_timeout [] = io_return []"
| "find_devices setting_matcher device_matcher info default_timeout (d # ds) =
     (case setting_matcher d of
        None \<Rightarrow> find_devices setting_matcher device_matcher info default_timeout ds
      | Some setting \<Rightarrow>
          (let t = UsbTransport d setting info default_timeout
           in io_bind (case device_matcher of None \<Rightarrow> io_return True | Some m \<Rightarrow> m t) (\<lambda>ok.
              if ok then io_bind (find_devices setting_matcher device_matcher info default_timeout ds)
                           (\<lambda>ts. io_return (t # ts))
              else find_devices setting_matcher device_matcher info default_timeout ds)))"

fun first_device ::
  "('d \<Rightarrow> usb_setting option) \<Rightarrow> ('w, 'd, 'h) usb_matcher option \<Rightarrow> usb_info_arg \<Rightarrow> rat option \<Rightarrow>
     'd list \<Rightarrow> ('w, ('d, 'h) usb_transport) prog" where
  "first_device setting_matcher device_matcher info default_timeout [] = io_raise UsbDeviceNotFoundError"
| "first_device setting_matcher device_matcher info default_timeout (d # ds) =
     (case setting_matcher d of
        None \<Rightarrow> first_device setting_matcher device_matcher info default_timeout ds
      | Some setting \<Rightarrow>
          (let t = UsbTransport d setting info default_timeout
           in io_bind (case device_matcher of None \<Rightarrow> io_return True | Some m \<Rightarrow> m t) (\<lambda>ok.
              if ok then io_return t
              else first_device setting_matcher device_matcher info default_timeout ds)))"

definition find_first ::
  "('w, 'd, 'h) usb_api \<Rightarrow> ('d \<Rightarrow> usb_setting option) \<Rightarrow> ('w, 'd, 'h) usb_matcher option \<Rightarrow>
     usb_info_arg \<Rightarrow> rat option \<Rightarrow> ('w, ('d, 'h) usb_transport) prog" where
  "find_first A setting_matcher device_matcher info default_timeout =
     io_bind (device_iterator A) (first_device setting_matcher device_matcher info default_timeout)"

definition port_info :: "port_arg \<Rightarrow> usb_info_arg" where
  "port_info p = (case p of PortStr s \<Rightarrow> InfoStr s | PortList l \<Rightarrow> InfoPath l)"

definition usb_find ::
  "('w, 'd, 'h) usb_api \<Rightarrow> ('d \<Rightarrow> usb_setting option) \<Rightarrow> port_arg option \<Rightarrow> pystr option \<Rightarrow>
     rat option \<Rightarrow> ('w, ('d, 'h) usb_transport) prog" where
  "usb_find A setting_matcher port serial default_timeout =
     (if port \<notin> {None, Some (PortStr []), Some (PortList [])} then
        io_bind (io_lift (port_path_of (the port))) (\<lambda>path.
          find_first A setting_matcher (Some (port_path_matcher A path)) (port_info (the port)) default_timeout)
      else if serial \<notin> {None, Some []} then
        find_first A setting_matcher (Some (serial_matcher A (the serial))) (InfoStr (the serial)) default_timeout
      else find_first A setting_matcher None (InfoStr (str_lit ''first'')) default_timeout)"

definition find_adb ::
  "('w, 'd, 'h) usb_api \<Rightarrow> pystr option \<Rightarrow> port_arg option \<Rightarrow> rat option \<Rightarrow> ('w, ('d, 'h) usb_transport) prog" where
  "find_adb A serial port default_timeout =
     usb_find A (interface_matcher A (class_vendor_spec A, USB_SUBCLASS, USB_PROTOCOL)) port serial default_timeout"

definition find_all_adb_devices ::
  "('w, 'd, 'h) usb_api \<Rightarrow> rat option \<Rightarrow> ('w, ('d, 'h) usb_transport list) prog" where
  "find_all_adb_devices A default_timeout =
     io_bind (device_iterator A)
       (find_devices (interface_matcher A (class_vendor_spec A, USB_SUBCLASS, USB_PROTOCOL)) None
          (InfoStr []) default_timeout)"

text \<open>The object that was found is opened and what it still has to send is thrown away.\<close>

definition find_and_open ::
  "('w, 'd, 'h) usb_api \<Rightarrow> ('d \<Rightarrow> usb_setting option) \<Rightarrow> port_arg option \<Rightarrow> pystr option \<Rightarrow> rat option \<Rightarrow>
     (('w, 'd, 'h) usb_world, unit) prog" where
  "find_and_open A setting_matcher port serial default_timeout =
     io_bind (on_bus (usb_find A setting_matcher port serial default_timeout)) (\<lambda>t.
     io_then (modify_usb (\<lambda>_. t)) (io_then (usb_open A) (flush_buffers A)))"

end
