(* ===== verification/Usb_World.thy ===== *)
theory Usb_World
  imports Usb_Transport Sockets
begin

text \<open>
  What the USB transport promises. Over a bus whose transfers lose nothing it is a byte
  transport; a scripted bus with one open device at a time is such a bus. On it a timeout of
  less than a millisecond never expires, because the library takes 0 for "no limit".
\<close>

section \<open>Running on the bus\<close>

lemma wp_on_bus [wp_simps]:
  "wp t (on_bus p) Q E w =
     wp t p (\<lambda>x b. Q x (w\<lparr>usb_bus := b\<rparr>)) (\<lambda>e b. E e (w\<lparr>usb_bus := b\<rparr>)) (usb_bus w)"
  by (simp add: on_bus_def wp_zoom)

lemma wp_modify_usb [wp_simps]: "wp t (modify_usb f) Q E w = Q () (w\<lparr>usb := f (usb w)\<rparr>)"
  by (simp add: modify_usb_def wp_simps)

lemma usb_transport_of_sel [simp]:
  "tr_close (usb_transport_of A) = usb_close A"
  "tr_connect (usb_transport_of A) = usb_connect A"
  "tr_bulk_read (usb_transport_of A) = usb_bulk_read A"
  "tr_bulk_write (usb_transport_of A) = usb_bulk_write A"
  "tr_tls_upgrade (usb_transport_of A) = None"
  "tr_time (usb_transport_of A) = on_bus (usb_time A)"
  by (simp_all add: usb_transport_of_def)

section \<open>A byte transport\<close>

text \<open>
  A transfer moves what it returns, or nothing when it raises; the serial number and the clock
  have nothing to do with the transfers.
\<close>

locale usb_pipe =
  fixes A :: "('w, 'd, 'h) usb_api"
    and inp :: "'w \<Rightarrow> bytes"
    and out :: "'w \<Rightarrow> bytes"
  assumes pipe_read: "0 < n \<Longrightarrow> wp False (bulk_read_pipe A h ep n ms)
      (\<lambda>d w'. int (length d) \<le> n \<and> inp w = d @ inp w' \<and> out w' = out w)
      (\<lambda>e w'. inp w' = inp w \<and> out w' = out w \<and> \<not> malformed e) w"
    and pipe_write: "wp False (bulk_write_pipe A h ep d ms)
      (\<lambda>k w'. 0 \<le> k \<and> k \<le> int (length d) \<and> out w' = out w @ take (nat k) d \<and> inp w' = inp w)
      (\<lambda>e w'. out w' = out w \<and> inp w' = inp w) w"
    and pipe_serial: "wp False (get_serial_number A dev)
      (\<lambda>_ w'. inp w' = inp w \<and> out w' = out w)
      (\<lambda>e w'. inp w' = inp w \<and> out w' = out w \<and> \<not> malformed e) w"
    and pipe_time: "wp False (usb_time A) (\<lambda>_ w'. inp w' = inp w \<and> out w' = out w) (\<lambda>_ _. False) w"
begin

lemma info_quiet:
  "wp False (usb_info A t) (\<lambda>_ w'. inp w' = inp w \<and> out w' = out w)
     (\<lambda>e w'. inp w' = inp w \<and> out w' = out w \<and> \<not> malformed e) w"
  unfolding usb_info_def serial_number_def wp_bind wp_catch
  by (rule wp_mono [OF pipe_serial]) (simp_all add: wp_simps)

lemma usb_read_law:
  assumes "0 < n"
  shows "wp False (usb_bulk_read A n t)
     (\<lambda>d w'. int (length d) \<le> n \<and> inp (usb_bus w) = d @ inp (usb_bus w') \<and> out (usb_bus w') = out (usb_bus w))
     (\<lambda>e w'. inp (usb_bus w') = inp (usb_bus w) \<and> out (usb_bus w') = out (usb_bus w) \<and> \<not> malformed e) w"
proof (cases "ut_handle (usb w)")
  case None
  then show ?thesis by (simp add: usb_bulk_read_def wp_simps malformed_def)
next
  case (Some h)
  have failed: "wp False (io_then (on_bus (usb_info A (usb w))) (io_raise (UsbReadFailedError (Some e))))
      (\<lambda>d w'. int (length d) \<le> n \<and> inp (usb_bus w) = d @ inp (usb_bus w') \<and> out (usb_bus w') = out (usb_bus w))
      (\<lambda>e w'. inp (usb_bus w') = inp (usb_bus w) \<and> out (usb_bus w') = out (usb_bus w) \<and> \<not> malformed e)
      (w\<lparr>usb_bus := b\<rparr>)"
    if "inp b = inp (usb_bus w)" "out b = out (usb_bus w)" for e b
    unfolding wp_bind wp_on_bus
    by (rule wp_mono [OF info_quiet]) (use that in \<open>auto simp: wp_raise malformed_def\<close>)
  show ?thesis
    unfolding usb_bulk_read_def wp_bind wp_gets Some option.case wp_catch wp_on_bus
    by (rule wp_mono [OF pipe_read [OF assms]]) (use failed in \<open>auto simp: wp_if wp_raise\<close>)
qed

lemma usb_write_law:
  "wp False (usb_bulk_write A d t)
     (\<lambda>k w'. 0 \<le> k \<and> k \<le> int (length d) \<and> out (usb_bus w') = out (usb_bus w) @ take (nat k) d \<and>
        inp (usb_bus w') = inp (usb_bus w))
     (\<lambda>e w'. out (usb_bus w') = out (usb_bus w) \<and> inp (usb_bus w') = inp (usb_bus w)) w"
proof (cases "ut_handle (usb w)")
  case None
  then show ?thesis by (simp add: usb_bulk_write_def wp_simps)
next
  case (Some h)
  have failed: "wp False (io_then (on_bus (usb_info A (usb w))) (io_raise (UsbWriteFailedError (Some e))))
      (\<lambda>k w'. 0 \<le> k \<and> k \<le> int (length d) \<and> out (usb_bus w') = out (usb_bus w) @ take (nat k) d \<and>
        inp (usb_bus w') = inp (usb_bus w))
      (\<lambda>e w'. out (usb_bus w') = out (usb_bus w) \<and> inp (usb_bus w') = inp (usb_bus w))
      (w\<lparr>usb_bus := b\<rparr>)"
    if "inp b = inp (usb_bus w)" "out b = out (usb_bus w)" for e b
    unfolding wp_bind wp_on_bus
    by (rule wp_mono [OF info_quiet]) (use that in \<open>auto simp: wp_raise\<close>)
  show ?thesis
    unfolding usb_bulk_write_def wp_bind wp_gets Some option.case wp_catch wp_on_bus
    by (rule wp_mono [OF pipe_write]) (use failed in \<open>auto simp: wp_if wp_raise\<close>)
qed

end

sublocale usb_pipe \<subseteq> bytes: byte_transport "usb_transport_of A" "\<lambda>w. inp (usb_bus w)" "\<lambda>w. out (usb_bus w)"
  by unfold_locales (simp_all add: usb_read_law write_clean [OF usb_write_law] wp_on_bus pipe_time)

section \<open>A scripted bus\<close>

text \<open>
  What the device will send and take, with the times; \<open>Stall\<close> is a transfer that fails. The
  devices are plugged in in a fixed order; the handles that are open are numbered.
\<close>

datatype pipe_event = Packet bytes | Stall

record usb_dev =
  dev_settings :: "usb_setting list"
  dev_bus :: int
  dev_ports :: "int list"
  dev_serial :: pystr

record usb_script = net +
  plugged :: "usb_dev list"
  pipe_in :: "(rat \<times> pipe_event) list"
  pipe_out :: "(rat \<times> nat option) list"
  open_handles :: "nat list"
  release_outcome :: "exn + unit"
  driver_outcome :: "exn + bool"

text \<open>A timeout of 0 milliseconds is none.\<close>

definition usb_wait :: "int \<Rightarrow> rat option \<Rightarrow> (usb_script, bool) prog" where
  "usb_wait ms = wait_until (if ms = 0 then None else Some (of_int ms / 1000))"

definition script_read :: "int \<Rightarrow> int \<Rightarrow> (usb_script, bytes) prog" where
  "script_read n ms =
     io_bind (io_gets pipe_in) (\<lambda>es.
     io_bind (usb_wait ms (case es of [] \<Rightarrow> None | (a, _) # _ \<Rightarrow> Some a)) (\<lambda>ok.
       case es of
         (a, Packet d) # rest \<Rightarrow>
           if ok then
             io_then (io_modify (\<lambda>w. w\<lparr>pipe_in :=
                 (if drop (nat n) d = [] then rest else (a, Packet (drop (nat n) d)) # rest)\<rparr>))
               (io_return (take (nat n) d))
           else io_raise USBErrorTimeout
       | (_, Stall) # rest \<Rightarrow>
           if ok then io_then (io_modify (\<lambda>w. w\<lparr>pipe_in := rest\<rparr>)) (io_raise USBError)
           else io_raise USBErrorTimeout
       | [] \<Rightarrow> io_raise USBErrorTimeout))"

definition script_write :: "bytes \<Rightarrow> int \<Rightarrow> (usb_script, int) prog" where
  "script_write d ms =
     io_bind (io_gets pipe_out) (\<lambda>es.
     io_bind (usb_wait ms (case es of [] \<Rightarrow> Some 0 | (a, _) # _ \<Rightarrow> Some a)) (\<lambda>ok.
       if \<not> ok then io_raise USBErrorTimeout
       else case es of
         (_, Some k) # rest \<Rightarrow>
           io_then (io_modify (\<lambda>w. w\<lparr>pipe_out := rest, sent := sent w @ take k d\<rparr>))
             (io_return (int (min k (length d))))
       | (_, None) # rest \<Rightarrow> io_then (io_modify (\<lambda>w. w\<lparr>pipe_out := rest\<rparr>)) (io_raise USBError)
       | [] \<Rightarrow> io_then (io_modify (\<lambda>w. w\<lparr>sent := sent w @ d\<rparr>)) (io_return (int (length d)))))"

definition ScriptedUSB :: "(usb_script, usb_dev, nat) usb_api" where
  "ScriptedUSB =
     \<lparr>class_vendor_spec = 255, endpoint_dir_mask = 128, dir_mask_attr = Inl AttributeError,
      on_windows = False, device_iterator = io_gets plugged, iter_settings = dev_settings,
      bus_number = dev_bus, port_number_list = dev_ports,
      get_serial_number = (\<lambda>d. io_return (dev_serial d)),
      open_device = (\<lambda>d. io_bind (io_gets (\<lambda>w. Suc (foldr max (open_handles w) 0))) (\<lambda>h.
        io_then (io_modify (\<lambda>w. w\<lparr>open_handles := h # open_handles w\<rparr>)) (io_return h))),
      release_interface = (\<lambda>h i. io_bind (io_gets release_outcome) io_lift),
      close_handle = (\<lambda>h. io_modify (\<lambda>w. w\<lparr>open_handles := remove1 h (open_handles w)\<rparr>)),
      kernel_driver_active = (\<lambda>h i. io_bind (io_gets driver_outcome) io_lift),
      detach_kernel_driver = (\<lambda>h i. io_return ()), claim_interface = (\<lambda>h i. io_return ()),
      bulk_read_pipe = (\<lambda>h ep n ms. script_read n ms), bulk_write_pipe = (\<lambda>h ep d ms. script_write d ms),
      usb_time = sys_time\<rparr>"

lemma ScriptedUSB_sel [simp]:
  "class_vendor_spec ScriptedUSB = 255" "endpoint_dir_mask ScriptedUSB = 128"
  "dir_mask_attr ScriptedUSB = Inl AttributeError" "on_windows ScriptedUSB = False"
  "device_iterator ScriptedUSB = io_gets plugged" "iter_settings ScriptedUSB = dev_settings"
  "bus_number ScriptedUSB = dev_bus" "port_number_list ScriptedUSB = dev_ports"
  "get_serial_number ScriptedUSB d = io_return (dev_serial d)"
  "bulk_read_pipe ScriptedUSB h ep n ms = script_read n ms"
  "bulk_write_pipe ScriptedUSB h ep b ms = script_write b ms"
  "usb_time ScriptedUSB = sys_time"
  by (simp_all add: ScriptedUSB_def)

definition pipe_bytes :: "pipe_event \<Rightarrow> bytes" where
  "pipe_bytes ev = (case ev of Packet d \<Rightarrow> d | Stall \<Rightarrow> [])"

definition pipe_input :: "usb_script \<Rightarrow> bytes" where
  "pipe_input w = concat (map (\<lambda>(_, ev). pipe_bytes ev) (pipe_in w))"

lemma pipe_wait:
  "wp False (usb_wait ms r) (\<lambda>_ w'. clock w \<le> clock w' \<and> (pipe_in w', pipe_out w', sent w') = (pipe_in w, pipe_out w, sent w))
     (\<lambda>e w'. e = ValueError \<and> w' = w) w"
  unfolding usb_wait_def by (rule wait_keeps) simp

lemma pipe_input_simps [simp]:
  "pipe_input (w\<lparr>sent := b\<rparr>) = pipe_input w" "pipe_input (w\<lparr>pipe_out := es\<rparr>) = pipe_input w"
  "pipe_input (w\<lparr>clock := t\<rparr>) = pipe_input w"
  by (simp_all add: pipe_input_def)

interpretation scripted_usb: usb_pipe ScriptedUSB pipe_input sent
proof unfold_locales
  fix n :: int and h ms and ep :: "int option" and w
  assume "0 < n"
  then show "wp False (bulk_read_pipe ScriptedUSB h ep n ms)
      (\<lambda>d w'. int (length d) \<le> n \<and> pipe_input w = d @ pipe_input w' \<and> sent w' = sent w)
      (\<lambda>e w'. pipe_input w' = pipe_input w \<and> sent w' = sent w \<and> \<not> malformed e) w"
    by (auto simp: script_read_def wp_simps pipe_input_def pipe_bytes_def malformed_def min_def
        intro!: wp_mono [OF pipe_wait] split: list.split prod.split pipe_event.split)
next
  fix d h ms and ep :: "int option" and w
  show "wp False (bulk_write_pipe ScriptedUSB h ep d ms)
      (\<lambda>k w'. 0 \<le> k \<and> k \<le> int (length d) \<and> sent w' = sent w @ take (nat k) d \<and> pipe_input w' = pipe_input w)
      (\<lambda>e w'. sent w' = sent w \<and> pipe_input w' = pipe_input w) w"
    by (auto simp: script_write_def wp_simps pipe_input_def min_def
        intro!: wp_mono [OF pipe_wait] split: list.split prod.split option.split)
qed (simp_all add: wp_simps)

end
