(* ===== verification/Usb_Properties.thy ===== *)
theory Usb_Properties
  imports Usb_World Samples
begin

text \<open>
  The properties of the USB transport: which device is found, what the I/O manager gets from it,
  and what becomes of errors, handles and timeouts.
\<close>

section \<open>Port paths\<close>

text \<open>A path in the way of sysfs: numbers in decimal with separators between.\<close>

definition sysfs_path :: "nat \<Rightarrow> (nat \<times> nat) list \<Rightarrow> pystr" where
  "sysfs_path n rest = nat_digits n @ concat (map (\<lambda>(sep, k). sep # nat_digits k) rest)"

lemma digits_value_nat_digits:
  "digits_value v b (nat_digits n @ cs) = digits_value (v * 10 ^ length (nat_digits n) + n) True cs"
proof (induction n arbitrary: v b cs rule: nat_digits.induct)
  case (1 n)
  show ?case
  proof (cases "n < 10")
    case True
    then show ?thesis by (simp add: nat_digits.simps [of n] mult.commute)
  next
    case False
    have le: "n mod 10 \<le> 9" by presburger
    have last: "digits_value V True ((48 + n mod 10) # cs) = digits_value (10 * V + n mod 10) True cs" for V
      using le by simp
    have "10 * (v * 10 ^ length (nat_digits (n div 10)) + n div 10) + n mod 10 =
        v * 10 ^ Suc (length (nat_digits (n div 10))) + n"
      by (simp add: algebra_simps)
    moreover have "digits_value v b (nat_digits n @ cs) =
        digits_value (10 * (v * 10 ^ length (nat_digits (n div 10)) + n div 10) + n mod 10) True cs"
      using 1 [OF False, of v b "(48 + n mod 10) # cs"] last False
      by (simp add: nat_digits.simps [of n] del: digits_value.simps)
    moreover have "length (nat_digits n) = Suc (length (nat_digits (n div 10)))"
      using False by (simp add: nat_digits.simps [of n])
    ultimately show ?thesis by (simp only:)
  qed
qed

lemma nat_digits_range: "c \<in> set (nat_digits n) \<Longrightarrow> 48 \<le> c \<and> c \<le> 57"
proof (induction n rule: nat_digits.induct)
  case (1 n)
  then show ?case by (auto simp: nat_digits.simps [of n] split: if_splits)
qed

lemma nat_digits_not_Nil: "nat_digits n \<noteq> []"
  by (simp add: nat_digits.simps [of n])

lemma dropWhile_none: "(\<And>x. x \<in> set xs \<Longrightarrow> \<not> P x) \<Longrightarrow> dropWhile P xs = xs"
  by (cases xs) simp_all

lemma py_int_nat_digits: "py_int (nat_digits n) = Inr (int n)"
proof -
  have blank: "\<not> is_blank c" if "c \<in> set (nat_digits n)" for c
    using nat_digits_range [OF that] by (simp add: is_blank_def)
  then have "dropWhile is_blank (nat_digits n) = nat_digits n"
    "dropWhile is_blank (rev (nat_digits n)) = rev (nat_digits n)"
    by (intro dropWhile_none; simp)+
  then have strip: "py_strip (nat_digits n) = nat_digits n" by (simp add: py_strip_def)
  obtain c cs where c: "nat_digits n = c # cs" using nat_digits_not_Nil by (cases "nat_digits n") auto
  with nat_digits_range [of c n] have "c \<noteq> 43" "c \<noteq> 45" by auto
  with strip c digits_value_nat_digits [of 0 False n "[]"] show ?thesis by (simp add: py_int_def)
qed

lemma split_ports_word:
  "(\<And>c. c \<in> set xs \<Longrightarrow> \<not> is_port_separator c) \<Longrightarrow> split_ports acc (xs @ ys) = split_ports (acc @ xs) ys"
  by (induction xs arbitrary: acc) simp_all

lemma digit_no_separator: "c \<in> set (nat_digits n) \<Longrightarrow> \<not> is_port_separator c"
  using nat_digits_range [of c n] by (auto simp: is_port_separator_def str_lit_def of_char_def)

lemma split_sysfs_path:
  "list_all (\<lambda>(sep, _). is_port_separator sep) rest \<Longrightarrow>
     split_ports [] (sysfs_path n rest) = nat_digits n # map (\<lambda>(_, k). nat_digits k) rest"
proof (induction rest arbitrary: n)
  case Nil
  then show ?case
    using split_ports_word [of "nat_digits n" "[]" "[]"] digit_no_separator by (simp add: sysfs_path_def)
next
  case (Cons r rest)
  obtain sep k where r: "r = (sep, k)" by (cases r)
  with Cons split_ports_word [of "nat_digits n" "[]" "sep # sysfs_path k rest"] digit_no_separator
  show ?case by (simp add: sysfs_path_def)
qed

lemma e_map_ints: "e_map py_int (map (\<lambda>(_, k). nat_digits k) rest) = Inr (map (\<lambda>(_, k). int k) rest)"
  by (induction rest) (auto simp: py_int_nat_digits)

lemma port_path_sysfs:
  assumes "list_all (\<lambda>(sep, _). is_port_separator sep) rest"
  shows "port_path_of (PortStr (sysfs_path n rest)) = Inr (int n # map (\<lambda>(_, k). int k) rest)"
  by (simp add: port_path_of_def split_sysfs_path [OF assms] py_int_nat_digits e_map_ints)

section \<open>Finding a device\<close>

definition is_adb_device :: "('w, 'd, 'h) usb_api \<Rightarrow> 'd \<Rightarrow> bool" where
  "is_adb_device A d \<longleftrightarrow>
     (\<exists>s \<in> set (iter_settings A d). set_class s = class_vendor_spec A \<and> set_subclass s = 0x42 \<and> set_protocol s = 1)"

definition adb_setting :: "('w, 'd, 'h) usb_api \<Rightarrow> 'd \<Rightarrow> usb_setting option" where
  "adb_setting A = interface_matcher A (class_vendor_spec A, USB_SUBCLASS, USB_PROTOCOL)"

lemma adb_setting_iff: "(\<exists>s. adb_setting A d = Some s) \<longleftrightarrow> is_adb_device A d"
  by (auto simp: adb_setting_def interface_matcher_def is_adb_device_def get_interface_def
      USB_SUBCLASS_def USB_PROTOCOL_def find_None_iff simp flip: not_None_eq)

lemma ut_device_UsbTransport [simp]: "ut_device (UsbTransport d s info dt) = d"
  by (simp add: UsbTransport_def)

lemma first_device_find:
  assumes "\<And>t w. m t w = Some (Inr (P (ut_device t)), w)"
  shows "first_device setting (Some m) info dt ds w =
     (case find (\<lambda>d. P d \<and> setting d \<noteq> None) ds of
        None \<Rightarrow> Some (Inl UsbDeviceNotFoundError, w)
      | Some d \<Rightarrow> Some (Inr (UsbTransport d (the (setting d)) info dt), w))"
proof (induction ds)
  case Nil
  then show ?case by (simp add: run_simps)
next
  case (Cons d ds)
  with Cons assms show ?case by (auto simp: run_simps io_bind_def Let_def split: option.split)
qed

text \<open>C29. Looking for an ADB device at a port, given as a list of numbers or as a text in the way
  of sysfs with any of the separators, gives the first device plugged in at exactly that port
  that has a setting with the ADB interface, with the first such setting; if there is none,
  \<open>UsbDeviceNotFoundError\<close> is raised.\<close>

theorem usb_find_by_port:
  assumes "device_iterator A w = Some (Inr ds, w')"
    and "list_all (\<lambda>(sep, _). is_port_separator sep) rest"
    and "path = int n # map (\<lambda>(_, k). int k) rest"
    and "p = PortList path \<or> p = PortStr (sysfs_path n rest)"
  shows "find_adb A serial (Some p) dt w =
     (case find (\<lambda>d. bus_number A d # port_number_list A d = path \<and> is_adb_device A d) ds of
        None \<Rightarrow> Some (Inl UsbDeviceNotFoundError, w')
      | Some d \<Rightarrow> Some (Inr (UsbTransport d (the (adb_setting A d)) (port_info p) dt), w'))"
proof -
  have p: "port_path_of p = Inr path" "p \<noteq> PortStr []" "p \<noteq> PortList []"
    using assms(3,4) port_path_sysfs [OF assms(2), of n]
    by (auto simp: port_path_of_def sysfs_path_def nat_digits_not_Nil)
  have "port_path_matcher A path t w = Some (Inr (bus_number A (ut_device t) # port_number_list A (ut_device t) = path), w)" for t w
    by (simp add: port_path_matcher_def port_path_def io_return_def)
  note first_device_find [of "port_path_matcher A path" "\<lambda>d. bus_number A d # port_number_list A d = path",
      OF this, of "adb_setting A" "port_info p" dt ds w']
  then show ?thesis
    using p assms(1)
    by (simp add: find_adb_def usb_find_def find_first_def run_simps adb_setting_def [symmetric] adb_setting_iff)
qed

section \<open>The I/O manager over USB\<close>


section \<open>Errors, handles and timeouts\<close>

lemma usb_error_simps [simp]:
  "\<not> usb_error (UsbReadFailedError x)" "\<not> usb_error (UsbWriteFailedError x)"
  by (simp_all add: usb_error_def)

lemma usb_info_error: "wp False (usb_info A t) (\<lambda>_ _. True) (\<lambda>e _. \<not> usb_error e) b"
  unfolding usb_info_def wp_bind wp_catch
  by (rule wp_mono [OF wp_trivial]) (simp_all add: wp_simps)

text \<open>No exception of the USB library gets out of a transfer: it is raised as
  \<open>UsbReadFailedError\<close> or \<open>UsbWriteFailedError\<close>; a closed transport raises these at once and
  touches nothing, and no transfer changes the transport object.\<close>

theorem usb_transfers_translate:
  "wp False (usb_bulk_read A n t) (\<lambda>_ w'. usb w' = usb w)
     (\<lambda>e w'. usb w' = usb w \<and> \<not> usb_error e \<and>
        (ut_handle (usb w) = None \<longrightarrow> e = UsbReadFailedError None \<and> w' = w)) w \<and>
   wp False (usb_bulk_write A d t) (\<lambda>_ w'. usb w' = usb w)
     (\<lambda>e w'. usb w' = usb w \<and> \<not> usb_error e \<and>
        (ut_handle (usb w) = None \<longrightarrow> e = UsbWriteFailedError None \<and> w' = w)) w"
proof (cases "ut_handle (usb w)")
  case None
  then show ?thesis by (simp add: usb_bulk_read_def usb_bulk_write_def wp_simps)
next
  case (Some h)
  have info: "wp False (on_bus (usb_info A (usb w)))
      (\<lambda>_. wp False (io_raise (f e)) (\<lambda>_ w'. usb w' = usb w) (\<lambda>e w'. usb w' = usb w \<and> \<not> usb_error e))
      (\<lambda>e w'. usb w' = usb w \<and> \<not> usb_error e) (w\<lparr>usb_bus := b\<rparr>)"
    if "\<not> usb_error (f e)" for f e b
    unfolding wp_on_bus by (rule wp_mono [OF usb_info_error]) (use that in \<open>simp_all add: wp_raise\<close>)
  show ?thesis
    unfolding usb_bulk_read_def usb_bulk_write_def wp_bind wp_gets Some option.case wp_catch wp_on_bus
    by (intro conjI; rule wp_mono [OF wp_trivial])
      (use info [of UsbReadFailedError] info [of UsbWriteFailedError]
        info [of "\<lambda>e. UsbReadFailedError (Some e)"] info [of "\<lambda>e. UsbWriteFailedError (Some e)"]
       in \<open>auto simp: wp_if wp_raise wp_bind\<close>)
qed

text \<open>However closing ends, the transport is closed afterwards, and no USB error gets out. But when
  the interface cannot be released, the handle is not closed and nothing refers to it any more.\<close>

theorem usb_close_closes:
  "wp False (usb_close A) (\<lambda>_ w'. ut_handle (usb w') = None)
     (\<lambda>e w'. ut_handle (usb w') = None \<and> \<not> usb_error e) w \<and>
   (ut_handle (usb w) = Some h \<and> release_interface A h (interface_number (usb w)) (usb_bus w) = Some (Inl e, b) \<and>
      usb_error e \<and> get_serial_number A (ut_device (usb w)) b = Some (Inr sn, b) \<longrightarrow>
    usb_close A w = Some (Inr (), w\<lparr>usb := (usb w)\<lparr>ut_handle := None\<rparr>, usb_bus := b\<rparr>))"
proof
  show "wp False (usb_close A) (\<lambda>_ w'. ut_handle (usb w') = None)
     (\<lambda>e w'. ut_handle (usb w') = None \<and> \<not> usb_error e) w"
  proof (cases "ut_handle (usb w)")
    case None
    then show ?thesis by (simp add: usb_close_def wp_simps)
  next
    case (Some h)
    have info: "wp False (on_bus (usb_info A (usb w))) (\<lambda>_ w'. True) (\<lambda>e w'. \<not> usb_error e) w1" for w1
      unfolding wp_on_bus by (rule usb_info_error)
    have "wp False (io_catch (io_then (on_bus (release_interface A h (interface_number (usb w)))) (on_bus (close_handle A h)))
        (\<lambda>e. if usb_error e then io_then (on_bus (usb_info A (usb w))) (io_return ()) else io_raise e))
      (\<lambda>_ _. True) (\<lambda>e _. \<not> usb_error e) w"
      unfolding wp_catch
      by (rule wp_mono [OF wp_trivial])
        (auto simp: wp_if wp_raise wp_bind wp_return intro!: wp_mono [OF info])
    then show ?thesis
      unfolding usb_close_def wp_bind wp_gets Some option.case wp_finally
      by (rule wp_mono) (simp_all add: wp_modify_usb)
  qed
qed (auto simp: usb_close_def usb_info_def serial_number_def on_bus_def modify_usb_def io_defs)

text \<open>When the kernel has no driver for the interface, connecting raises \<open>TypeError\<close>, with the
  handle that was opened left open and the transport without one: the warning the code means to
  give instead is called with the interface number as its category.\<close>

theorem usb_missing_driver_raises:
  assumes "scan_endpoints (endpoint_dir_mask A) (set_endpoints (ut_setting (usb w))) (None, None) = (Some r, Some x)"
    and "open_device A (ut_device (usb w)) (usb_bus w) = Some (Inr h, b)" and "\<not> on_windows A"
    and "kernel_driver_active A h (set_number (ut_setting (usb w))) b = Some (Inl USBErrorNotFound, b')"
  shows "usb_connect A t w = Some (Inl TypeError, w\<lparr>usb_bus := b'\<rparr>)"
  using assms by (simp add: usb_connect_def detach_driver_def on_bus_def io_defs Let_def)

text \<open>C40. A read with a timeout of at least a millisecond ends. With a shorter one, 0 among them, the
  library gets 0 milliseconds, which mean no limit: where nothing arrives the read does not
  return.\<close>

theorem usb_short_timeout_blocks:
  assumes "ut_handle (usb w) = Some h"
  shows "(1 / 1000 \<le> t \<longrightarrow> (\<exists>r. usb_bulk_read ScriptedUSB n (Some t) w = Some r)) \<and>
    (0 \<le> t \<and> t < 1 / 1000 \<and> pipe_in (usb_bus w) = [] \<longrightarrow> usb_bulk_read ScriptedUSB n (Some t) w = None)"
proof (intro conjI impI)
  assume "1 / 1000 \<le> t"
  then have ms: "timeout_ms (usb w) (Some t) \<noteq> 0"
    by (simp add: timeout_ms_def py_trunc_def floor_eq_iff)
  have "wp True (script_read n (timeout_ms (usb w) (Some t))) (\<lambda>_ _. True) (\<lambda>_ _. True) b" for b
    using ms unfolding script_read_def usb_wait_def wp_bind wp_gets
    by (auto intro!: wp_mono [OF wait_ends] simp: wp_simps split: list.split prod.split pipe_event.split)
  then have "wp True (usb_bulk_read ScriptedUSB n (Some t)) (\<lambda>_ _. True) (\<lambda>_ _. True) w"
    using assms unfolding usb_bulk_read_def usb_info_def serial_number_def
    by (auto simp: wp_simps intro: wp_mono)
  then show "\<exists>r. usb_bulk_read ScriptedUSB n (Some t) w = Some r"
    using wp_totalD by fastforce
next
  assume t: "0 \<le> t \<and> t < 1 / 1000 \<and> pipe_in (usb_bus w) = []"
  then have "timeout_ms (usb w) (Some t) = 0"
    by (simp add: timeout_ms_def py_trunc_def floor_eq_iff)
  with t assms show "usb_bulk_read ScriptedUSB n (Some t) w = None"
    by (simp add: usb_bulk_read_def on_bus_def script_read_def usb_wait_def wait_until_def io_defs)
qed

section \<open>Examples\<close>

definition sample_setting :: usb_setting where
  "sample_setting = \<lparr>set_class = 255, set_subclass = 66, set_protocol = 1, set_number = 0,
     set_endpoints = [(129, 512), (1, 512)]\<rparr>"

definition sample_dev :: usb_dev where
  "sample_dev = \<lparr>dev_settings = [sample_setting], dev_bus = 1, dev_ports = [2, 3], dev_serial = []\<rparr>"

definition sample_bus :: "bytes \<Rightarrow> usb_script" where
  "sample_bus b = \<lparr>clock = 0, sent = [], dials = (\<lambda>_. []), handshakes = [],
     plugged = [sample_dev\<lparr>dev_ports := [2]\<rparr>, sample_dev],
     pipe_in = (if b = [] then [] else [(0, Packet b)]), pipe_out = [], open_handles = [1],
     release_outcome = Inl USBError, driver_outcome = Inl USBErrorNotFound\<rparr>"

definition sample_usb :: "bytes \<Rightarrow> (usb_script, usb_dev, nat) usb_world" where
  "sample_usb b = \<lparr>usb = (UsbTransport sample_dev sample_setting (InfoStr []) None)\<lparr>ut_handle := Some 1\<rparr>,
     handle_cache = [], usb_bus = sample_bus b\<rparr>"

lemma sample_usb_sel [simp]:
  "usb_bus (sample_usb b) = sample_bus b" "ut_handle (usb (sample_usb b)) = Some 1"
  "ut_device (usb (sample_usb b)) = sample_dev" "ut_setting (usb (sample_usb b)) = sample_setting"
  by (simp_all add: sample_usb_def UsbTransport_def)

theorem usb_find_by_port_witness:
  "find_adb ScriptedUSB None (Some (PortStr (str_lit ''1-2.3''))) None (sample_bus []) =
     Some (Inr (UsbTransport sample_dev sample_setting (InfoStr (str_lit ''1-2.3'')) None), sample_bus [])"
proof -
  have path: "str_lit ''1-2.3'' = sysfs_path 1 [(45, 2), (46, 3)]" by code_simp
  have "list_all (\<lambda>(sep, _). is_port_separator sep) [(45, 2), (46, 3)]" by code_simp
  note find = usb_find_by_port [where A = ScriptedUSB and serial = None and dt = None, OF _ this refl disjI2 [OF refl],
      of "sample_bus []" "plugged (sample_bus [])" "sample_bus []" 1]
  show ?thesis
    unfolding path
    by (subst find)
      (simp_all add: io_gets_def sample_bus_def sample_dev_def sample_setting_def is_adb_device_def
        adb_setting_def interface_matcher_def get_interface_def USB_SUBCLASS_def USB_PROTOCOL_def port_info_def)
qed


theorem usb_transfers_translate_witness:
  "wp False (usb_bulk_read ScriptedUSB 5 (Some 1)) (\<lambda>_ _. True) (\<lambda>e w'. e = UsbReadFailedError None)
     ((sample_usb [])\<lparr>usb := UsbTransport sample_dev sample_setting (InfoStr []) None\<rparr>)"
  by (rule wp_mono [OF usb_transfers_translate [THEN conjunct1]]) (simp_all add: UsbTransport_def)

theorem usb_close_closes_witness:
  "\<exists>w'. usb_close ScriptedUSB (sample_usb []) = Some (Inr (), w') \<and> ut_handle (usb w') = None \<and>
     open_handles (usb_bus w') = [1]"
proof -
  have "ut_handle (usb (sample_usb [])) = Some 1 \<and>
    release_interface ScriptedUSB 1 (interface_number (usb (sample_usb []))) (usb_bus (sample_usb [])) =
      Some (Inl USBError, sample_bus []) \<and> usb_error USBError \<and>
    get_serial_number ScriptedUSB (ut_device (usb (sample_usb []))) (sample_bus []) = Some (Inr [], sample_bus [])"
    by (simp add: ScriptedUSB_def io_defs sample_bus_def usb_error_def sample_dev_def)
  from usb_close_closes [THEN conjunct2, rule_format, OF this] show ?thesis
    by (auto simp: sample_bus_def)
qed

theorem usb_missing_driver_raises_witness:
  "\<exists>w'. usb_connect ScriptedUSB None (sample_usb []) = Some (Inl TypeError, w') \<and>
     open_handles (usb_bus w') = [2, 1]"
proof -
  have "usb_connect ScriptedUSB None (sample_usb []) = Some (Inl TypeError,
      (sample_usb [])\<lparr>usb_bus := (sample_bus [])\<lparr>open_handles := [2, 1]\<rparr>\<rparr>)"
    by (rule usb_missing_driver_raises [where r = 129 and x = 1 and h = 2 and
          b = "(sample_bus [])\<lparr>open_handles := [2, 1]\<rparr>"])
      (simp_all add: ScriptedUSB_def sample_bus_def sample_setting_def io_defs)
  then show ?thesis by simp
qed

theorem usb_short_timeout_blocks_witness:
  "usb_bulk_read ScriptedUSB 24 (Some 0) (sample_usb []) = None \<and>
   (\<exists>r. usb_bulk_read ScriptedUSB 24 (Some 1) (sample_usb []) = Some r)"
  using usb_short_timeout_blocks [of "sample_usb []" 1 0 24] usb_short_timeout_blocks [of "sample_usb []" 1 1 24]
  by (simp add: sample_bus_def)

end
