(* ===== verification/Base64.thy ===== *)
theory Base64
  imports Prelude
begin

text \<open>
  What the code uses of Python's \<open>base64\<close> module: \<open>b64encode\<close> and the lenient \<open>b64decode\<close> of
  \<open>binascii\<close>, which skips the characters that are not in the alphabet and stops at a padding
  that is complete. \<open>binascii.Error\<close> is a \<open>ValueError\<close>.
\<close>

section \<open>The alphabet\<close>

definition b64_char :: "nat \<Rightarrow> byte" where
  "b64_char v =
     (if v < 26 then word_of_nat (65 + v)
      else if v < 52 then word_of_nat (97 + (v - 26))
      else if v < 62 then word_of_nat (48 + (v - 52))
      else if v = 62 then 43 else 47)"

definition b64_value :: "byte \<Rightarrow> nat option" where
  "b64_value c =
     (if 65 \<le> c \<and> c \<le> 90 then Some (unat c - 65)
      else if 97 \<le> c \<and> c \<le> 122 then Some (unat c - 97 + 26)
      else if 48 \<le> c \<and> c \<le> 57 then Some (unat c - 48 + 52)
      else if c = 43 then Some 62
      else if c = 47 then Some 63 else None)"

definition b64_pad :: byte where "b64_pad = 61"

section \<open>Encoding and decoding\<close>

fun b64encode :: "bytes \<Rightarrow> bytes" where
  "b64encode [] = []"
| "b64encode [a] = [b64_char (unat a div 4), b64_char (unat a mod 4 * 16), b64_pad, b64_pad]"
| "b64encode [a, b] =
     [b64_char (unat a div 4), b64_char (unat a mod 4 * 16 + unat b div 16),
      b64_char (unat b mod 16 * 4), b64_pad]"
| "b64encode (a # b # c # bs) =
     b64_char (unat a div 4) # b64_char (unat a mod 4 * 16 + unat b div 16) #
     b64_char (unat b mod 16 * 4 + unat c div 64) # b64_char (unat c mod 64) # b64encode bs"

text \<open>
  \<open>q\<close> characters of a group of four have been read, \<open>left\<close> are the bits they left over, and
  \<open>pads\<close> padding characters came since the last one.
\<close>

fun a2b :: "nat \<Rightarrow> nat \<Rightarrow> nat \<Rightarrow> bytes \<Rightarrow> exn + bytes" where
  "a2b q left pads [] = (if q = 0 then Inr [] else Inl ValueError)"
| "a2b q left pads (c # cs) =
     (if c = b64_pad then
        if 2 \<le> q then if 4 \<le> q + (pads + 1) then Inr [] else a2b q left (pads + 1) cs
        else a2b q left pads cs
      else
        (case b64_value c of
           None \<Rightarrow> a2b q left pads cs
         | Some v \<Rightarrow>
             if q = 0 then a2b 1 v 0 cs
             else if q = 1 then
               e_bind (a2b 2 (v mod 16) 0 cs) (\<lambda>bs. Inr (word_of_nat (left * 4 + v div 16) # bs))
             else if q = 2 then
               e_bind (a2b 3 (v mod 4) 0 cs) (\<lambda>bs. Inr (word_of_nat (left * 16 + v div 4) # bs))
             else e_bind (a2b 0 0 0 cs) (\<lambda>bs. Inr (word_of_nat (left * 64 + v) # bs))))"

definition b64decode :: "bytes \<Rightarrow> exn + bytes" where
  "b64decode s = a2b 0 0 0 s"

section \<open>Round trips\<close>

lemma b64_value_char: "v < 64 \<Longrightarrow> b64_value (b64_char v) = Some v"
proof -
  have "list_all (\<lambda>v. b64_value (b64_char v) = Some v) [0..<64]" by code_simp
  then show "v < 64 \<Longrightarrow> ?thesis" by (simp add: list_all_iff)
qed

lemma b64_char_pad: "v < 64 \<Longrightarrow> b64_char v \<noteq> b64_pad"
  using b64_value_char [of v] by (auto simp: b64_pad_def b64_value_def)

lemma a2b_char:
  "v < 64 \<Longrightarrow> a2b q left pads (b64_char v # cs) =
     (if q = 0 then a2b 1 v 0 cs
      else if q = 1 then e_bind (a2b 2 (v mod 16) 0 cs) (\<lambda>bs. Inr (word_of_nat (left * 4 + v div 16) # bs))
      else if q = 2 then e_bind (a2b 3 (v mod 4) 0 cs) (\<lambda>bs. Inr (word_of_nat (left * 16 + v div 4) # bs))
      else e_bind (a2b 0 0 0 cs) (\<lambda>bs. Inr (word_of_nat (left * 64 + v) # bs)))"
  by (simp add: b64_value_char b64_char_pad)

text \<open>The numbers below are the groups of six bits of three bytes, and the bytes put together again.\<close>

lemma byte_parts [simp]:
  "unat (a :: byte) < 256" "unat a div 4 < 64" "unat a div 16 < 16" "unat a div 64 < 4"
proof -
  show "unat a < 256" using unsigned_less [of a] by simp
  then show "unat a div 4 < 64" "unat a div 16 < 16" "unat a div 64 < 4" by linarith+
qed

lemma sextets_less [simp]:
  "n mod 4 * 16 + unat (a :: byte) div 16 < 64" "n mod 4 * 16 < (64 :: nat)"
  "n mod 16 * 4 + unat a div 64 < 64" "n mod 16 * 4 < (64 :: nat)" "n mod 64 < (64 :: nat)"
proof -
  have "n mod 4 < 4" "n mod 16 < 16" by simp_all
  then show "n mod 4 * 16 + unat a div 16 < 64" "n mod 16 * 4 + unat a div 64 < 64"
    "n mod 4 * 16 < 64" "n mod 16 * 4 < 64" "n mod 64 < 64"
    using byte_parts(3,4) [of a] by linarith+
qed

lemma sextets_join [simp]:
  "n div 4 * 4 + (n mod 4 * 16 + unat (b :: byte) div 16) div 16 = n"
  "n div 4 * 4 + (n mod 4 * 16) div 16 = (n :: nat)"
  "(m mod 4 * 16 + unat b div 16) mod 16 * 16 + (unat b mod 16 * 4 + unat (c :: byte) div 64) div 4 = unat b"
  "(m mod 4 * 16 + unat b div 16) mod 16 * 16 + (unat b mod 16 * 4) div 4 = unat b"
  "(k mod 16 * 4 + unat c div 64) mod 4 * 64 + unat c mod 64 = unat c"
  using byte_parts(3) [of b] byte_parts(4) [of c] by simp_all

lemma a2b_group:
  "a2b 0 left pads (b64_char (unat a div 4) # b64_char (unat a mod 4 * 16 + unat b div 16) #
     b64_char (unat b mod 16 * 4 + unat c div 64) # b64_char (unat c mod 64) # cs) =
   e_bind (a2b 0 0 0 cs) (\<lambda>r. Inr (a # b # c # r))"
  by (cases "a2b 0 0 0 cs") (simp_all add: a2b_char del: a2b.simps)

lemma a2b_pair:
  "a2b 0 left pads (b64_char (unat a div 4) # b64_char (unat a mod 4 * 16 + unat b div 16) #
     b64_char (unat b mod 16 * 4) # b64_pad # cs) = Inr [a, b]"
  by (simp add: a2b_char del: a2b.simps) simp

lemma a2b_single:
  "a2b 0 left pads (b64_char (unat a div 4) # b64_char (unat a mod 4 * 16) # b64_pad # b64_pad # cs) = Inr [a]"
  by (simp add: a2b_char del: a2b.simps) simp

text \<open>Decoding stops at the padding, whatever follows it.\<close>

lemma suc3_mod3: "Suc (Suc (Suc n)) mod 3 = n mod 3"
  by presburger

lemma a2b_encode:
  "a2b 0 0 0 (b64encode bs @ rest) =
     (if length bs mod 3 = 0 then e_bind (a2b 0 0 0 rest) (\<lambda>r. Inr (bs @ r)) else Inr bs)"
proof (induction bs rule: b64encode.induct)
  case 1
  then show ?case by (cases "a2b 0 0 0 rest") simp_all
next
  case (4 a b c bs)
  then show ?case by (cases "a2b 0 0 0 rest") (simp_all add: a2b_group suc3_mod3 del: a2b.simps)
qed (simp_all add: a2b_pair a2b_single del: a2b.simps)

lemma b64decode_encode: "b64decode (b64encode bs) = Inr bs"
  using a2b_encode [of bs "[]"] by (simp add: b64decode_def split: if_splits)

lemma b64decode_encode_rest:
  "length bs mod 3 \<noteq> 0 \<Longrightarrow> b64decode (b64encode bs @ rest) = Inr bs"
  using a2b_encode [of bs rest] by (simp add: b64decode_def)

end
