(* ===== verification/Keygen.thy ===== *)
theory Keygen
  imports Base64 Struct_Pack Host_OS
begin

text \<open>
  \<open>adb_shell_wifi/auth/keygen.py\<close>: the public key format of Android, and writing a pair of key
  files. The \<open>cryptography\<close> package is a record of operations on its private keys, of type \<open>'k\<close>.
  Files are those of \<open>Host_OS\<close>; the result of \<open>os.getlogin\<close> is an argument.
\<close>

section \<open>The library\<close>

text \<open>
  \<open>private_bytes\<close> serialises to PKCS 8 in PEM, which \<open>load_pem_private_key\<close> reads; \<open>modinv\<close> is
  \<open>rsa._modinv\<close>, the inverse of its first argument modulo the second.
\<close>

record 'k key_library =
  load_pem_private_key :: "bytes \<Rightarrow> exn + 'k"
  private_bytes :: "'k \<Rightarrow> bytes"
  key_n :: "'k \<Rightarrow> int"
  key_e :: "'k \<Rightarrow> int"
  modinv :: "int \<Rightarrow> int \<Rightarrow> int"

section \<open>The format of a public key\<close>

definition ANDROID_PUBKEY_MODULUS_SIZE :: int where "ANDROID_PUBKEY_MODULUS_SIZE = 2048 div 8"
definition ANDROID_PUBKEY_MODULUS_SIZE_WORDS :: int where
  "ANDROID_PUBKEY_MODULUS_SIZE_WORDS = ANDROID_PUBKEY_MODULUS_SIZE div 4"

text \<open>\<open>struct\<close> with \<open>'<LL256s256sL'\<close>: strings are padded with zeros or cut to their size.\<close>

definition pack_string :: "nat \<Rightarrow> bytes \<Rightarrow> bytes" where
  "pack_string n b = take n b @ replicate (n - length b) 0"

definition rsa_public_key_size :: int where
  "rsa_public_key_size = 4 + 4 + ANDROID_PUBKEY_MODULUS_SIZE + ANDROID_PUBKEY_MODULUS_SIZE + 4"

definition rsa_public_key_pack :: "int \<Rightarrow> int \<Rightarrow> bytes \<Rightarrow> bytes \<Rightarrow> int \<Rightarrow> exn + bytes" where
  "rsa_public_key_pack size_words n0inv modulus rr exponent =
     e_bind (pack_uint 4 (Some size_words)) (\<lambda>s.
     e_bind (pack_uint 4 (Some n0inv)) (\<lambda>i.
     e_bind (pack_uint 4 (Some exponent)) (\<lambda>e.
       Inr (s @ i @ pack_string (nat ANDROID_PUBKEY_MODULUS_SIZE) modulus
            @ pack_string (nat ANDROID_PUBKEY_MODULUS_SIZE) rr @ e))))"

definition rsa_public_key_unpack :: "bytes \<Rightarrow> exn + int \<times> int \<times> bytes \<times> bytes \<times> int" where
  "rsa_public_key_unpack b =
     (let n = nat ANDROID_PUBKEY_MODULUS_SIZE
      in if int (length b) \<noteq> rsa_public_key_size then Inl StructError
         else Inr (le_int (take 4 b), le_int (take 4 (drop 4 b)), take n (drop 8 b),
                   take n (drop (8 + n) b), le_int (drop (8 + n + n) b)))"

text \<open>\<open>n.to_bytes(length, endianess)\<close>; the code for Python 2 is left out.\<close>

datatype endianess = BigEndian | LittleEndian

definition py_to_bytes :: "int \<Rightarrow> nat \<Rightarrow> endianess \<Rightarrow> exn + bytes" where
  "py_to_bytes n len endianess =
     (if n < 0 \<or> 256 ^ len \<le> n then Inl OverflowError
      else Inr (case endianess of LittleEndian \<Rightarrow> le_bytes len n | BigEndian \<Rightarrow> rev (le_bytes len n)))"

section \<open>Encoding and decoding\<close>

text \<open>\<open>with open(...) as f: body\<close>\<close>

definition with_file :: "(file_system, nat) prog \<Rightarrow> (nat \<Rightarrow> (file_system, 'a) prog) \<Rightarrow> (file_system, 'a) prog" where
  "with_file opening body = io_bind opening (\<lambda>f. io_finally (body f) (fs_close f))"

definition read_file :: "pystr \<Rightarrow> (file_system, bytes) prog" where
  "read_file path = with_file (fs_open_rb path) (\<lambda>f. fs_read f (-1))"

text \<open>The numbers of a key, encoded; \<open>%\<close> raises \<open>ZeroDivisionError\<close> for a modulus 0.\<close>

definition encode_numbers :: "('k, 'x) key_library_scheme \<Rightarrow> 'k \<Rightarrow> exn + bytes" where
  "encode_numbers L key =
     (let r32 = 2 ^ 32; n = key_n L key;
          n0inv = r32 - modinv L (n mod r32) r32;
          rr = 2 ^ nat (ANDROID_PUBKEY_MODULUS_SIZE * 8)
      in if n = 0 then Inl ZeroDivisionError
         else
           e_bind (py_to_bytes n (nat ANDROID_PUBKEY_MODULUS_SIZE) LittleEndian) (\<lambda>modulus.
           e_bind (py_to_bytes (rr ^ 2 mod n) (nat ANDROID_PUBKEY_MODULUS_SIZE) LittleEndian) (\<lambda>rr_bytes.
             rsa_public_key_pack ANDROID_PUBKEY_MODULUS_SIZE_WORDS n0inv modulus rr_bytes (key_e L key))))"

definition encode_pubkey :: "('k, 'x) key_library_scheme \<Rightarrow> pystr \<Rightarrow> (file_system, bytes) prog" where
  "encode_pubkey L private_key_path =
     io_bind (with_file (fs_open_rb private_key_path) (\<lambda>key_file.
         io_bind (fs_read key_file (-1)) (\<lambda>pem. io_lift (load_pem_private_key L pem))))
       (\<lambda>key. io_lift (encode_numbers L key))"

text \<open>
  \<open>decode_pubkey\<close> only logs what it finds: the fields of this record, the two long ones with
  their most significant byte first.
\<close>

record pubkey_log =
  log_modulus_size_words :: int
  log_n0inv :: int
  log_modulus :: bytes
  log_rr :: bytes
  log_exponent :: int

definition decode_pubkey :: "bytes \<Rightarrow> exn + pubkey_log" where
  "decode_pubkey public_key =
     e_bind (b64decode public_key) (\<lambda>binary_key_data.
     e_bind (rsa_public_key_unpack binary_key_data) (\<lambda>(modulus_size_words, n0inv, modulus_bytes, rr_bytes, exponent).
       if modulus_size_words \<noteq> ANDROID_PUBKEY_MODULUS_SIZE_WORDS then Inl AssertionError
       else Inr \<lparr>log_modulus_size_words = modulus_size_words, log_n0inv = n0inv,
         log_modulus = rev modulus_bytes, log_rr = rev rr_bytes, log_exponent = exponent\<rparr>))"

definition decode_pubkey_file :: "pystr \<Rightarrow> (file_system, pubkey_log) prog" where
  "decode_pubkey_file public_key_path =
     with_file (fs_open_rb public_key_path) (\<lambda>fd.
       io_bind (fs_read fd (-1)) (\<lambda>public_key. io_lift (decode_pubkey public_key)))"

section \<open>Key files\<close>

definition get_user_info :: "exn + pystr \<Rightarrow> (file_system, pystr) prog" where
  "get_user_info login =
     io_bind (case login of
         Inl e \<Rightarrow> if os_error e then io_return (str_lit ''unknown'') else io_raise e
       | Inr name \<Rightarrow> io_return name) (\<lambda>name.
     let username = (if name = [] then str_lit ''unknown'' else name)
     in io_bind (io_bind (io_gets hostname) io_lift) (\<lambda>host.
       let hostname = (if host = [] then str_lit ''unknown'' else host)
       in io_return (str_lit '' '' @ username @ str_lit ''@'' @ hostname)))"

definition write_public_keyfile ::
  "('k, 'x) key_library_scheme \<Rightarrow> exn + pystr \<Rightarrow> pystr \<Rightarrow> pystr \<Rightarrow> (file_system, unit) prog" where
  "write_public_keyfile L login private_key_path public_key_path =
     io_bind (encode_pubkey L private_key_path) (\<lambda>public_key.
       if int (length public_key) \<noteq> rsa_public_key_size then io_raise AssertionError
       else with_file (fs_open_wb public_key_path) (\<lambda>public_key_file.
         io_then (fs_write public_key_file (b64encode public_key))
         (io_bind (get_user_info login) (\<lambda>user.
          io_bind (io_lift (utf8_encode user)) (fs_write public_key_file)))))"

text \<open>\<open>private_key\<close> is the key that the library generates, with exponent 65537 and 2048 bits.\<close>

definition keygen :: "('k, 'x) key_library_scheme \<Rightarrow> 'k \<Rightarrow> exn + pystr \<Rightarrow> pystr \<Rightarrow> (file_system, unit) prog" where
  "keygen L private_key login filepath =
     io_then (with_file (fs_open_wb filepath) (\<lambda>private_key_file.
         fs_write private_key_file (private_bytes L private_key)))
       (write_public_keyfile L login filepath (filepath @ str_lit ''.pub''))"

section \<open>What a key file holds\<close>

text \<open>
  What the code relies on: the library reads what it has written, and inverts what is prime to
  the modulus.
\<close>

definition key_library_ok :: "('k, 'x) key_library_scheme \<Rightarrow> bool" where
  "key_library_ok L \<longleftrightarrow>
     (\<forall>k. load_pem_private_key L (private_bytes L k) = Inr k) \<and>
     (\<forall>a m. 1 < m \<longrightarrow> 0 \<le> a \<longrightarrow> coprime a m \<longrightarrow>
        0 \<le> modinv L a m \<and> modinv L a m < m \<and> (a * modinv L a m) mod m = 1)"

text \<open>The public numbers of an RSA key of 2048 bits or less.\<close>

definition android_key :: "int \<Rightarrow> int \<Rightarrow> bool" where
  "android_key n e \<longleftrightarrow> 0 < n \<and> n < 2 ^ 2048 \<and> odd n \<and> 0 \<le> e \<and> e < 2 ^ 32"

text \<open>
  The binary form: the size of the modulus in words, \<open>-1 / n\<close> modulo \<open>2^32\<close>, the modulus,
  the square of \<open>2^2048\<close> modulo \<open>n\<close> and the exponent.
\<close>

definition montgomery_blob :: "int \<Rightarrow> int \<Rightarrow> bytes \<Rightarrow> bool" where
  "montgomery_blob n e b \<longleftrightarrow>
     (\<exists>n0inv. 0 \<le> n0inv \<and> n0inv < 2 ^ 32 \<and> (n0inv * n + 1) mod 2 ^ 32 = 0 \<and>
        b = le_bytes 4 64 @ le_bytes 4 n0inv @ le_bytes 256 n @ le_bytes 256 (2 ^ 4096 mod n) @ le_bytes 4 e)"

lemma length_montgomery_blob: "montgomery_blob n e b \<Longrightarrow> length b = 524"
  by (auto simp: montgomery_blob_def simp del: power_numeral le_bytes.simps)

lemma size_constants:
  "ANDROID_PUBKEY_MODULUS_SIZE = 256" "ANDROID_PUBKEY_MODULUS_SIZE_WORDS = 64" "rsa_public_key_size = 524"
  by (simp_all add: ANDROID_PUBKEY_MODULUS_SIZE_def ANDROID_PUBKEY_MODULUS_SIZE_WORDS_def rsa_public_key_size_def)

lemma odd_coprime_r32: "odd (n :: int) \<Longrightarrow> coprime (n mod 2 ^ 32) (2 ^ 32)"
  by (subst coprime_mod_left_iff, simp, subst coprime_power_right_iff) simp

lemma neg_inverse:
  fixes n x m :: int
  assumes "1 < m" and "((n mod m) * x) mod m = 1"
  shows "((m - x) * n + 1) mod m = 0"
proof -
  have "(n * x) mod m = 1" using assms(2) by (simp add: mod_simps)
  then have "m dvd n * x - 1" using assms(1) by (metis dvd_minus_mod)
  moreover have "(m - x) * n + 1 = m * n - (n * x - 1)" by (simp add: algebra_simps)
  ultimately show ?thesis by (metis dvd_diff dvd_triv_left dvd_imp_mod_0)
qed

lemma powers_256: "(2 :: int) ^ 2048 = 256 ^ 256" "(2 :: int) ^ 32 = 256 ^ 4"
  by simp_all

lemma pack_string_le [simp]: "pack_string n (le_bytes n v) = le_bytes n v"
  by (simp add: pack_string_def)

lemma py_to_bytes_little:
  "0 \<le> v \<Longrightarrow> v < 256 ^ len \<Longrightarrow> py_to_bytes v len LittleEndian = Inr (le_bytes len v)"
  by (simp add: py_to_bytes_def)

lemma encode_numbers_ok:
  assumes "key_library_ok L" and "android_key (key_n L k) (key_e L k)"
  obtains b where "encode_numbers L k = Inr b" and "montgomery_blob (key_n L k) (key_e L k) b"
proof -
  define n where "n = key_n L k"
  define i where "i = modinv L (n mod 2 ^ 32) (2 ^ 32)"
  have n: "0 < n" "n < 2 ^ 2048" "odd n" and e: "0 \<le> key_e L k" "key_e L k < 256 ^ 4"
    using assms(2) by (simp_all add: android_key_def n_def)
  have i: "0 \<le> i" "i < 2 ^ 32" "((n mod 2 ^ 32) * i) mod 2 ^ 32 = 1"
    using assms(1) odd_coprime_r32 [OF n(3)] by (simp_all add: key_library_ok_def i_def)
  then have "i \<noteq> 0" by auto
  with i have r: "0 \<le> 2 ^ 32 - i" "2 ^ 32 - i < 256 ^ 4" by simp_all
  have n256: "n < 256 ^ 256" using n(2) powers_256(1) by (rule order.strict_trans2 [OF _ eq_refl])
  have rr: "0 \<le> (2 ^ 2048) ^ 2 mod n" "(2 ^ 2048) ^ 2 mod n < 256 ^ 256"
    using n powers_256(1) by (simp_all only: pos_mod_sign) (metis order.strict_trans pos_mod_bound)
  have sq: "(2 ^ 2048) ^ 2 = (2 :: int) ^ 4096"
    by (simp only: power_mult [symmetric]) simp
  have packs: "pack_uint 4 (Some 64) = Inr (le_bytes 4 64)"
    "pack_uint 4 (Some (2 ^ 32 - i)) = Inr (le_bytes 4 (2 ^ 32 - i))"
    "pack_uint 4 (Some (key_e L k)) = Inr (le_bytes 4 (key_e L k))"
    using e r by (simp_all add: pack_uint_def)
  have size: "nat 256 = 256" "nat (256 * 8) = 2048" by simp_all
  have "encode_numbers L k = Inr (le_bytes 4 64 @ le_bytes 4 (2 ^ 32 - i) @ le_bytes 256 n @
      le_bytes 256 ((2 ^ 2048) ^ 2 mod n) @ le_bytes 4 (key_e L k))"
    unfolding encode_numbers_def Let_def n_def [symmetric] i_def [symmetric] size_constants size
      rsa_public_key_pack_def py_to_bytes_little [OF rr] py_to_bytes_little [OF less_imp_le [OF n(1)] n256]
    using n(1) packs by simp
  moreover have "montgomery_blob n (key_e L k) (le_bytes 4 64 @ le_bytes 4 (2 ^ 32 - i) @ le_bytes 256 n @
      le_bytes 256 ((2 ^ 2048) ^ 2 mod n) @ le_bytes 4 (key_e L k))"
    unfolding montgomery_blob_def sq
    using r \<open>i \<noteq> 0\<close> i neg_inverse [OF _ i(3)] by (intro exI [of _ "2 ^ 32 - i"]) simp
  ultimately show thesis using that n_def by simp
qed
text \<open>What decoding logs for a key.\<close>

definition log_of_key :: "int \<Rightarrow> int \<Rightarrow> pubkey_log \<Rightarrow> bool" where
  "log_of_key n e found \<longleftrightarrow>
     log_modulus_size_words found = 64 \<and> (log_n0inv found * n + 1) mod 2 ^ 32 = 0 \<and>
     le_int (rev (log_modulus found)) = n \<and> le_int (rev (log_rr found)) = 2 ^ 4096 mod n \<and>
     log_exponent found = e"

lemma le_int_le_bytes_small: "0 \<le> v \<Longrightarrow> v < 256 ^ n \<Longrightarrow> le_int (le_bytes n v) = v"
  by (simp add: le_int_le_bytes)

lemma rsa_public_key_unpack_fields:
  "rsa_public_key_unpack (le_bytes 4 a @ le_bytes 4 b @ le_bytes 256 c @ le_bytes 256 d @ le_bytes 4 e) =
     Inr (le_int (le_bytes 4 a), le_int (le_bytes 4 b), le_bytes 256 c, le_bytes 256 d, le_int (le_bytes 4 e))"
  by (simp add: rsa_public_key_unpack_def size_constants Let_def del: le_bytes.simps)

lemma decode_pubkey_blob:
  assumes "montgomery_blob n e b" and "android_key n e"
  obtains found where "decode_pubkey (b64encode b @ rest) = Inr found" and "log_of_key n e found"
proof -
  from assms(1) obtain i where i: "0 \<le> i" "i < 2 ^ 32" "(i * n + 1) mod 2 ^ 32 = 0"
    and b: "b = le_bytes 4 64 @ le_bytes 4 i @ le_bytes 256 n @ le_bytes 256 (2 ^ 4096 mod n) @ le_bytes 4 e"
    by (auto simp: montgomery_blob_def)
  have n: "0 \<le> n" "0 < n" "n < 256 ^ 256" and e: "0 \<le> e" "e < 256 ^ 4"
    using assms(2) powers_256 by (simp_all only: android_key_def less_imp_le)
  have rr: "0 \<le> 2 ^ 4096 mod n" "2 ^ 4096 mod n < 256 ^ 256"
    using n(2) order.strict_trans [OF pos_mod_bound [OF n(2)] n(3)] by (simp_all only: pos_mod_sign)
  have i4: "i < 256 ^ 4" using i(2) by simp
  have ints: "le_int (le_bytes 4 64) = 64" "le_int (le_bytes 4 i) = i" "le_int (le_bytes 4 e) = e"
    "le_int (le_bytes 256 n) = n" "le_int (le_bytes 256 (2 ^ 4096 mod n)) = 2 ^ 4096 mod n"
    by (rule le_int_le_bytes_small [OF _ _], simp, simp, rule le_int_le_bytes_small [OF i(1) i4],
      rule le_int_le_bytes_small [OF e], rule le_int_le_bytes_small [OF n(1,3)],
      rule le_int_le_bytes_small [OF rr])
  have "b64decode (b64encode b @ rest) = Inr b" 
    by (rule b64decode_encode_rest) (simp add: length_montgomery_blob [OF assms(1)])
  then have "decode_pubkey (b64encode b @ rest) = Inr \<lparr>log_modulus_size_words = 64, log_n0inv = i,
      log_modulus = rev (le_bytes 256 n), log_rr = rev (le_bytes 256 (2 ^ 4096 mod n)), log_exponent = e\<rparr>"
    by (simp add: decode_pubkey_def b rsa_public_key_unpack_fields ints size_constants del: le_bytes.simps power_numeral)
  with that show thesis by (simp add: log_of_key_def i(3) ints del: power_numeral)
qed

section \<open>Reading and writing files\<close>

definition disk :: "file_system \<Rightarrow> (exn + pystr) \<times> (pystr \<Rightarrow> bytes option) \<times> (pystr \<Rightarrow> pystr list option)" where
  "disk fs = (hostname fs, files fs, dirs fs)"

lemma with_file_read:
  assumes "dirs fs p = None" and "files fs p = Some d"
  obtains fs' where "with_file (fs_open_rb p) (\<lambda>f. io_bind (fs_read f (-1)) (\<lambda>d. io_lift (g d))) fs = Some (g d, fs')"
    and "disk fs' = disk fs"
  using assms
  by (simp add: with_file_def fs_open_rb_def fs_open_def fs_read_def fs_close_def io_defs Let_def disk_def)

lemma read_file_run:
  assumes "dirs fs p = None" and "files fs p = Some d"
  obtains fs' where "read_file p fs = Some (Inr d, fs')" and "disk fs' = disk fs"
  using with_file_read [OF assms, of Inr] by (auto simp: read_file_def)

lemma with_file_write:
  assumes "dirs fs p = None"
  obtains fs' where "with_file (fs_open_wb p) (\<lambda>f. fs_write f d) fs = Some (Inr (), fs')"
    and "disk fs' = (hostname fs, (files fs)(p \<mapsto> d), dirs fs)"
  using assms
  by (simp add: with_file_def fs_open_wb_def fs_open_def fs_write_def fs_close_def io_defs Let_def disk_def overwrite_def)

lemma with_file_write_two:
  assumes "dirs fs p = None" and "\<And>fs'. hostname fs' = hostname fs \<Longrightarrow> m fs' = Some (Inr u, fs')"
    and "utf8_encode u = Inr d'"
  obtains fs' where
    "with_file (fs_open_wb p) (\<lambda>f. io_then (fs_write f d) (io_bind m (\<lambda>u. io_bind (io_lift (utf8_encode u)) (fs_write f)))) fs
       = Some (Inr (), fs')"
    and "disk fs' = (hostname fs, (files fs)(p \<mapsto> d @ d'), dirs fs)"
  using assms
  by (simp add: with_file_def fs_open_wb_def fs_open_def fs_write_def fs_close_def io_defs Let_def disk_def overwrite_def)

section \<open>The user\<close>

definition user_suffix :: "exn + pystr \<Rightarrow> pystr \<Rightarrow> pystr" where
  "user_suffix login host =
     (let known = (\<lambda>s. if s = [] then str_lit ''unknown'' else s)
      in str_lit '' '' @ known (case login of Inl _ \<Rightarrow> [] | Inr name \<Rightarrow> name) @ str_lit ''@'' @ known host)"

lemma get_user_info_run:
  assumes "hostname fs = Inr h" and "\<And>e. login = Inl e \<Longrightarrow> os_error e"
  shows "get_user_info login fs = Some (Inr (user_suffix login h), fs)"
  using assms
  by (cases login) (auto simp: get_user_info_def user_suffix_def Let_def io_defs str_lit_def)

section \<open>Writing a public key\<close>

text \<open>Whose name and host the file can be given.\<close>

definition user_known :: "exn + pystr \<Rightarrow> file_system \<Rightarrow> bytes \<Rightarrow> bool" where
  "user_known login fs u \<longleftrightarrow>
     (\<forall>e. login = Inl e \<longrightarrow> os_error e) \<and>
     (\<exists>h. hostname fs = Inr h \<and> utf8_encode (user_suffix login h) = Inr u)"

definition key_file_content :: "('k, 'x) key_library_scheme \<Rightarrow> 'k \<Rightarrow> bytes \<Rightarrow> bytes \<Rightarrow> bool" where
  "key_file_content L k u content \<longleftrightarrow>
     (\<exists>b. montgomery_blob (key_n L k) (key_e L k) b \<and> content = b64encode b @ u)"

lemma encode_pubkey_run:
  assumes "dirs fs p = None" and "files fs p = Some pem" and "load_pem_private_key L pem = Inr k"
  obtains fs' where "encode_pubkey L p fs = Some (encode_numbers L k, fs')" and "disk fs' = disk fs"
proof -
  obtain fs' where "with_file (fs_open_rb p)
      (\<lambda>f. io_bind (fs_read f (-1)) (\<lambda>d. io_lift (load_pem_private_key L d))) fs = Some (Inr k, fs')"
    and "disk fs' = disk fs"
    using with_file_read [OF assms(1,2), of "load_pem_private_key L"] assms(3) by metis
  then show thesis
    by (intro that [of fs']) (simp_all add: encode_pubkey_def run_simps)
qed

lemma write_public_keyfile_run:
  assumes "key_library_ok L" and "android_key (key_n L k) (key_e L k)"
    and "dirs fs priv = None" and "files fs priv = Some pem" and "load_pem_private_key L pem = Inr k"
    and "dirs fs pub = None" and "user_known login fs u"
  obtains fs' content where "write_public_keyfile L login priv pub fs = Some (Inr (), fs')"
    and "key_file_content L k u content"
    and "disk fs' = (hostname fs, (files fs)(pub \<mapsto> content), dirs fs)"
proof -
  obtain b where b: "encode_numbers L k = Inr b" "montgomery_blob (key_n L k) (key_e L k) b"
    using encode_numbers_ok [OF assms(1,2)] by blast
  obtain fs1 where run: "encode_pubkey L priv fs = Some (Inr b, fs1)" and d1: "disk fs1 = disk fs"
    using encode_pubkey_run [OF assms(3,4,5)] b(1) by metis
  obtain h where h: "hostname fs = Inr h" "utf8_encode (user_suffix login h) = Inr u"
    and login: "\<And>e. login = Inl e \<Longrightarrow> os_error e"
    using assms(7) by (auto simp: user_known_def)
  have d: "hostname fs1 = hostname fs" "files fs1 = files fs" "dirs fs1 = dirs fs"
    using d1 by (simp_all add: disk_def)
  have pub: "dirs fs1 pub = None" using assms(6) d by simp
  have "get_user_info login fs' = Some (Inr (user_suffix login h), fs')" if "hostname fs' = hostname fs1" for fs'
    using get_user_info_run [of fs' h login] login h(1) d(1) that by simp
  from with_file_write_two [OF pub this h(2), where d = "b64encode b"]
  obtain fs2 where "with_file (fs_open_wb pub) (\<lambda>f. io_then (fs_write f (b64encode b))
      (io_bind (get_user_info login) (\<lambda>u. io_bind (io_lift (utf8_encode u)) (fs_write f)))) fs1 = Some (Inr (), fs2)"
    and d2: "disk fs2 = (hostname fs1, (files fs1)(pub \<mapsto> b64encode b @ u), dirs fs1)"
    by blast
  then have "write_public_keyfile L login priv pub fs = Some (Inr (), fs2)"
    using length_montgomery_blob [OF b(2)] run
    by (simp add: write_public_keyfile_def io_bind_def size_constants)
  with d2 d b(2) show thesis
    by (intro that [of fs2 "b64encode b @ u"]) (auto simp: key_file_content_def)
qed

text \<open>A key that the format cannot hold: the old public key file is left as it is.\<close>

lemma py_to_bytes_too_big: "256 ^ len \<le> n \<Longrightarrow> py_to_bytes n len endianess = Inl OverflowError"
  by (simp add: py_to_bytes_def)

lemma encode_numbers_too_long:
  assumes "2 ^ 2048 \<le> key_n L k"
  shows "encode_numbers L k = Inl OverflowError"
proof -
  have "0 < key_n L k"
    by (rule order.strict_trans2 [OF _ assms]) (rule zero_less_power, rule zero_less_numeral)
  then have "key_n L k \<noteq> 0" by simp
  moreover have "py_to_bytes (key_n L k) (nat 256) LittleEndian = Inl OverflowError"
    unfolding nat_numeral using assms unfolding powers_256(1) by (rule py_to_bytes_too_big)
  ultimately show ?thesis
    unfolding encode_numbers_def Let_def size_constants by (simp only: if_False e_bind_simps)
qed

lemma decode_key_file:
  assumes "key_file_content L k u content" and "android_key (key_n L k) (key_e L k)"
    and "dirs fs pub = None" and "files fs pub = Some content"
  obtains fs' found where "decode_pubkey_file pub fs = Some (Inr found, fs')"
    and "log_of_key (key_n L k) (key_e L k) found"
proof -
  from assms(1) obtain b where b: "montgomery_blob (key_n L k) (key_e L k) b" "content = b64encode b @ u"
    by (auto simp: key_file_content_def)
  obtain found where "decode_pubkey content = Inr found" "log_of_key (key_n L k) (key_e L k) found"
    using decode_pubkey_blob [OF b(1) assms(2)] b(2) by metis
  with with_file_read [OF assms(3,4), of decode_pubkey] that show thesis
    by (metis decode_pubkey_file_def)
qed

end
