(* ===== verification/Signers.thy ===== *)
theory Signers
  imports Keygen
begin

text \<open>
  The three signers of \<open>adb_shell_wifi/auth\<close> (\<open>sign_cryptography.py\<close>, \<open>sign_pycryptodome.py\<close> and
  \<open>sign_pythonrsa.py\<close>) and the certificates of \<open>x509.py\<close>. They call four packages, which are a
  record of operations on keys of type \<open>'k\<close>, ASN.1 values of type \<open>'a\<close> and certificates of type \<open>'c\<close>.
\<close>

section \<open>The libraries\<close>

datatype hash_alg = SHA1 | SHA256

text \<open>
  \<open>pkcs1_sign k h d\<close> is the PKCS 1 v1.5 signature of a message whose digest by \<open>h\<close> is \<open>d\<close>.
  \<open>read_text\<close> decodes a file opened in text mode. \<open>asn1_item x i\<close> is \<open>x[i]\<close>.
\<close>

record ('k, 'a) sign_library = "'k key_library" +
  import_key :: "bytes \<Rightarrow> exn + 'k"
  pem_to_der :: "pystr option \<Rightarrow> exn + bytes"
  der_decode :: "bytes \<Rightarrow> exn + 'a"
  asn1_item :: "'a \<Rightarrow> nat \<Rightarrow> exn + 'a"
  asn1_is_oid :: "'a \<Rightarrow> nat list \<Rightarrow> bool"
  asn1_octets :: "'a \<Rightarrow> exn + bytes"
  load_pkcs1 :: "bytes \<Rightarrow> exn + 'k"
  pkcs1_sign :: "'k \<Rightarrow> hash_alg \<Rightarrow> bytes \<Rightarrow> exn + bytes"
  sha256 :: "bytes \<Rightarrow> bytes"
  read_text :: "bytes \<Rightarrow> exn + pystr"

definition pub_path :: "pystr \<Rightarrow> pystr" where
  "pub_path rsa_key_path = rsa_key_path @ str_lit ''.pub''"

definition load_file :: "pystr \<Rightarrow> (bytes \<Rightarrow> exn + 'b) \<Rightarrow> (file_system, 'b) prog" where
  "load_file path load =
     with_file (fs_open_rb path) (\<lambda>f. io_bind (fs_read f (-1)) (\<lambda>data. io_lift (load data)))"

section \<open>The signer of the cryptography package\<close>

record 'k cryptography_signer =
  crypt_public_key :: bytes
  crypt_rsa_key :: 'k

definition CryptographySigner ::
  "('k, 'x) key_library_scheme \<Rightarrow> pystr \<Rightarrow> (file_system, 'k cryptography_signer) prog" where
  "CryptographySigner L rsa_key_path =
     io_bind (load_file (pub_path rsa_key_path) Inr) (\<lambda>public_key.
     io_bind (load_file rsa_key_path (load_pem_private_key L)) (\<lambda>rsa_key.
       io_return \<lparr>crypt_public_key = public_key, crypt_rsa_key = rsa_key\<rparr>))"

text \<open>The data is taken for a digest by SHA-1 (\<open>Prehashed\<close>).\<close>

definition cryptography_sign ::
  "('k, 'a, 'x) sign_library_scheme \<Rightarrow> 'k cryptography_signer \<Rightarrow> bytes \<Rightarrow> exn + bytes" where
  "cryptography_sign L self data = pkcs1_sign L (crypt_rsa_key self) SHA1 data"

definition cryptography_public_key :: "'k cryptography_signer \<Rightarrow> bytes" where
  "cryptography_public_key self = crypt_public_key self"

section \<open>The signer of the pycryptodome package\<close>

text \<open>Without a path the attributes are not set.\<close>

record 'k pycryptodome_signer =
  pyc_public_key :: "bytes option"
  pyc_rsa_key :: "'k option"

definition py_attribute :: "'v option \<Rightarrow> exn + 'v" where
  "py_attribute a = (case a of None \<Rightarrow> Inl AttributeError | Some v \<Rightarrow> Inr v)"

definition PycryptodomeAuthSigner ::
  "('k, 'a, 'x) sign_library_scheme \<Rightarrow> pystr option \<Rightarrow> (file_system, 'k pycryptodome_signer) prog" where
  "PycryptodomeAuthSigner L rsa_key_path =
     (case rsa_key_path of
        None \<Rightarrow> io_return \<lparr>pyc_public_key = None, pyc_rsa_key = None\<rparr>
      | Some path \<Rightarrow>
          if path = [] then io_return \<lparr>pyc_public_key = None, pyc_rsa_key = None\<rparr>
          else
            io_bind (load_file (pub_path path) Inr) (\<lambda>public_key.
            io_bind (load_file path (import_key L)) (\<lambda>rsa_key.
              io_return \<lparr>pyc_public_key = Some public_key, pyc_rsa_key = Some rsa_key\<rparr>)))"

definition pycryptodome_sign ::
  "('k, 'a, 'x) sign_library_scheme \<Rightarrow> 'k pycryptodome_signer \<Rightarrow> bytes \<Rightarrow> exn + bytes" where
  "pycryptodome_sign L self data =
     (let h = sha256 L data in e_bind (py_attribute (pyc_rsa_key self)) (\<lambda>rsa_key. pkcs1_sign L rsa_key SHA256 h))"

definition pycryptodome_public_key :: "'k pycryptodome_signer \<Rightarrow> exn + bytes" where
  "pycryptodome_public_key self = py_attribute (pyc_public_key self)"

section \<open>The signer of the rsa package\<close>

text \<open>The hash function that does not hash: its state is the data so far.\<close>

record accum = accum_buf :: bytes

definition Accum :: accum where "Accum = \<lparr>accum_buf = []\<rparr>"

definition accum_update :: "accum \<Rightarrow> bytes \<Rightarrow> accum" where
  "accum_update self msg = self\<lparr>accum_buf := accum_buf self @ msg\<rparr>"

definition accum_digest :: "accum \<Rightarrow> bytes" where
  "accum_digest self = accum_buf self"

definition RSA_ENCRYPTION_OID :: "nat list" where
  "RSA_ENCRYPTION_OID = [1, 2, 840, 113549, 1, 1, 1]"

text \<open>\<open>IndexError\<close> anywhere in the \<open>try\<close> block becomes \<open>ValueError\<close>.\<close>

definition load_rsa_private_key :: "('k, 'a, 'x) sign_library_scheme \<Rightarrow> pystr option \<Rightarrow> exn + 'k" where
  "load_rsa_private_key L pem =
     e_bind
       (case
          e_bind (pem_to_der L pem) (\<lambda>der.
          e_bind (der_decode L der) (\<lambda>keyinfo.
          e_bind (e_bind (asn1_item L keyinfo 1) (\<lambda>alg. asn1_item L alg 0)) (\<lambda>oid.
            if \<not> asn1_is_oid L oid RSA_ENCRYPTION_OID then Inl ValueError
            else e_bind (asn1_item L keyinfo 2) (asn1_octets L))))
        of Inl e \<Rightarrow> Inl (if e = IndexError then ValueError else e) | Inr der \<Rightarrow> Inr der)
       (load_pkcs1 L)"

record 'k python_rsa_signer =
  rsa_priv_key :: 'k
  rsa_pub_key :: "pystr option"

definition PythonRSASigner ::
  "('k, 'a, 'x) sign_library_scheme \<Rightarrow> pystr option \<Rightarrow> pystr option \<Rightarrow> exn + 'k python_rsa_signer" where
  "PythonRSASigner L pub priv =
     e_bind (load_rsa_private_key L priv) (\<lambda>key. Inr \<lparr>rsa_priv_key = key, rsa_pub_key = pub\<rparr>)"

definition FromRSAKeyPath ::
  "('k, 'a, 'x) sign_library_scheme \<Rightarrow> pystr \<Rightarrow> (file_system, 'k python_rsa_signer) prog" where
  "FromRSAKeyPath L rsa_key_path =
     io_bind (load_file (pub_path rsa_key_path) (read_text L)) (\<lambda>pub.
     io_bind (load_file rsa_key_path (read_text L)) (\<lambda>priv.
       io_lift (PythonRSASigner L (Some pub) (Some priv))))"

text \<open>
  \<open>rsa.sign\<close> hashes the data with the class registered for the method, here \<open>_Accum\<close>, and
  signs it with the ASN.1 code registered, here that of SHA-1.
\<close>

definition python_rsa_sign ::
  "('k, 'a, 'x) sign_library_scheme \<Rightarrow> 'k python_rsa_signer \<Rightarrow> bytes \<Rightarrow> exn + bytes" where
  "python_rsa_sign L self data =
     pkcs1_sign L (rsa_priv_key self) SHA1 (accum_digest (accum_update Accum data))"

definition python_rsa_public_key :: "'k python_rsa_signer \<Rightarrow> pystr option" where
  "python_rsa_public_key self = rsa_pub_key self"

section \<open>As signers of the I/O manager\<close>

definition cryptography_auth :: "('k, 'a, 'x) sign_library_scheme \<Rightarrow> 'k cryptography_signer \<Rightarrow> signer" where
  "cryptography_auth L s = \<lparr>Sign = cryptography_sign L s, GetPublicKey = KeyBytes (cryptography_public_key s)\<rparr>"

definition python_rsa_auth :: "('k, 'a, 'x) sign_library_scheme \<Rightarrow> 'k python_rsa_signer \<Rightarrow> signer" where
  "python_rsa_auth L s = \<lparr>Sign = python_rsa_sign L s,
     GetPublicKey = (case python_rsa_public_key s of None \<Rightarrow> KeyNone | Some p \<Rightarrow> KeyStr p)\<rparr>"

end
