(* ===== verification/X509.thy ===== *)
theory X509
  imports Signers
begin

text \<open>
  \<open>adb_shell_wifi/auth/x509.py\<close>: the self-signed certificate of the TLS connections, and the
  credentials that \<open>connect\<close> and \<open>pair\<close> make from a private key. Building a certificate is the
  list of settings the code gives to the library; times are in seconds.
\<close>

section \<open>Certificates\<close>

datatype name_oid = COUNTRY_NAME | ORGANIZATION_NAME | COMMON_NAME

record key_usage =
  digital_signature :: bool
  content_commitment :: bool
  key_encipherment :: bool
  data_encipherment :: bool
  key_agreement :: bool
  key_cert_sign :: bool
  crl_sign :: bool
  encipher_only :: bool
  decipher_only :: bool

text \<open>An extension and whether it is critical; the key identifier is that of a key.\<close>

datatype 'k x509_extension =
    BasicConstraints bool "int option"
  | KeyUsage key_usage
  | SubjectKeyIdentifier 'k

record 'k certificate =
  subject_name :: "(name_oid \<times> string) list"
  issuer_name :: "(name_oid \<times> string) list"
  cert_public_key :: 'k
  serial_number :: int
  not_valid_before :: rat
  not_valid_after :: rat
  extensions :: "('k x509_extension \<times> bool) list"
  signed_by :: 'k
  signature_hash :: hash_alg

definition CERT_LIFETIME :: rat where
  "CERT_LIFETIME = 10 * 365 * (24 * 60 * 60)"

definition CERT_NAME :: "(name_oid \<times> string) list" where
  "CERT_NAME = [(COUNTRY_NAME, ''US''), (ORGANIZATION_NAME, ''Android''), (COMMON_NAME, ''Adb'')]"

text \<open>A key that the library has loaded may be of another kind than RSA.\<close>

datatype 'k loaded_key = RSAPrivateKey 'k | OtherPrivateKey

definition generate_x509_certificate :: "rat \<Rightarrow> 'k loaded_key \<Rightarrow> exn + 'k certificate" where
  "generate_x509_certificate now private_key =
     (case private_key of
        OtherPrivateKey \<Rightarrow> Inl TypeError
      | RSAPrivateKey key \<Rightarrow> Inr
         \<lparr>subject_name = CERT_NAME, issuer_name = CERT_NAME, cert_public_key = key, serial_number = 1,
          not_valid_before = now, not_valid_after = now + CERT_LIFETIME,
          extensions =
            [(BasicConstraints True None, True),
             (KeyUsage \<lparr>digital_signature = True, content_commitment = False, key_encipherment = False,
                data_encipherment = False, key_agreement = False, key_cert_sign = True,
                crl_sign = True, encipher_only = False, decipher_only = False\<rparr>, True),
             (SubjectKeyIdentifier key, False)],
          signed_by = key, signature_hash = SHA256\<rparr>)"

section \<open>Serialising\<close>

text \<open>\<open>x509_load\<close> is \<open>load_pem_private_key\<close>, which here may give a key of any kind.\<close>

record 'k x509_library =
  x509_load :: "bytes \<Rightarrow> exn + 'k loaded_key"
  x509_private_bytes :: "'k loaded_key \<Rightarrow> bytes"
  x509_cert_bytes :: "'k certificate \<Rightarrow> bytes"

definition certificate_to_pem :: "'k x509_library \<Rightarrow> 'k certificate \<Rightarrow> bytes" where
  "certificate_to_pem X cert = x509_cert_bytes X cert"

definition load_rsa_private_key_pem :: "'k x509_library \<Rightarrow> bytes \<Rightarrow> exn + 'k loaded_key" where
  "load_rsa_private_key_pem X pem_bytes =
     e_bind (x509_load X pem_bytes) (\<lambda>key.
       case key of OtherPrivateKey \<Rightarrow> Inl ValueError | RSAPrivateKey k \<Rightarrow> Inr key)"

definition private_key_to_pem :: "'k x509_library \<Rightarrow> 'k loaded_key \<Rightarrow> bytes" where
  "private_key_to_pem X private_key = x509_private_bytes X private_key"

text \<open>What \<open>_do_stls_upgrade\<close> makes of the PEM text it is given.\<close>

definition tls_credentials :: "'k x509_library \<Rightarrow> rat \<Rightarrow> bytes \<Rightarrow> exn + bytes \<times> bytes" where
  "tls_credentials X now tls_priv_pem =
     e_bind (load_rsa_private_key_pem X tls_priv_pem) (\<lambda>rsa_key.
     e_bind (generate_x509_certificate now rsa_key) (\<lambda>cert.
       Inr (certificate_to_pem X cert, private_key_to_pem X rsa_key)))"

section \<open>The credentials belong to the key\<close>

definition self_signed :: "'k \<Rightarrow> 'k certificate \<Rightarrow> bool" where
  "self_signed k c \<longleftrightarrow> cert_public_key c = k \<and> signed_by c = k \<and> subject_name c = issuer_name c \<and>
     (SubjectKeyIdentifier k, False) \<in> set (extensions c)"

definition valid_at :: "'k certificate \<Rightarrow> rat \<Rightarrow> bool" where
  "valid_at c t \<longleftrightarrow> not_valid_before c \<le> t \<and> t \<le> not_valid_after c"

lemma generated_certificate:
  "generate_x509_certificate now key = Inr c \<longleftrightarrow>
     (\<exists>k. key = RSAPrivateKey k \<and> generate_x509_certificate now (RSAPrivateKey k) = Inr c \<and>
        self_signed k c \<and> (\<forall>t. valid_at c t \<longleftrightarrow> now \<le> t \<and> t \<le> now + 315360000))"
  by (cases key) (auto simp: generate_x509_certificate_def self_signed_def valid_at_def CERT_LIFETIME_def)

lemma tls_credentials_Inr:
  "tls_credentials X now pem = Inr (cert_pem, key_pem) \<longleftrightarrow>
     (\<exists>k c. x509_load X pem = Inr (RSAPrivateKey k) \<and> generate_x509_certificate now (RSAPrivateKey k) = Inr c \<and>
        cert_pem = x509_cert_bytes X c \<and> key_pem = x509_private_bytes X (RSAPrivateKey k))"
proof (cases "x509_load X pem")
  case (Inr key)
  then show ?thesis
    by (cases key) (auto simp: tls_credentials_def e_bind_eq_Inr load_rsa_private_key_pem_def
        certificate_to_pem_def private_key_to_pem_def)
qed (simp add: tls_credentials_def load_rsa_private_key_pem_def)

end
