(* ===== verification/Auth_Properties.thy ===== *)
theory Auth_Properties
  imports X509 Samples
begin

text \<open>
  The properties of the key files and of the signers: what \<open>keygen\<close> writes can be read by the
  device and by the signers, and which signatures the device accepts.
\<close>

section \<open>A library to run on\<close>

text \<open>
  The inverse that the \<open>cryptography\<close> package computes (Euclid's algorithm), and a library whose
  keys are pairs of numbers, serialised in unary.
\<close>

function euclid :: "int \<Rightarrow> int \<Rightarrow> int \<Rightarrow> int \<Rightarrow> int" where
  "euclid a b x1 x2 = (if 0 < b then euclid b (a mod b) x2 (x1 - a div b * x2) else x1)"
  by pat_completeness auto
termination by (relation "measure (\<lambda>(_, b, _, _). nat b)") auto

declare euclid.simps [simp del]

lemma euclid_inverse:
  assumes "0 \<le> a" "0 \<le> b" "gcd a b = 1" "m dvd e * x1 - a" "m dvd e * x2 - b"
  shows "m dvd e * euclid a b x1 x2 - 1"
  using assms
proof (induction a b x1 x2 rule: euclid.induct)
  case (1 a b x1 x2)
  show ?case
  proof (cases "0 < b")
    case True
    have "e * (x1 - a div b * x2) - a mod b = (e * x1 - a) - a div b * (e * x2 - b)"
      by (simp add: algebra_simps)
    then have "m dvd e * (x1 - a div b * x2) - a mod b"
      using 1(5,6) by (metis dvd_diff dvd_mult)
    moreover have "gcd b (a mod b) = 1" using 1(4) by (metis gcd.commute gcd_red_int)
    ultimately have "m dvd e * euclid b (a mod b) x2 (x1 - a div b * x2) - 1"
      using 1(1) [OF True] 1(3,6) True by simp
    with True show ?thesis by (subst euclid.simps) simp
  next
    case False
    with 1 show ?thesis by (subst euclid.simps) simp
  qed
qed

definition sample_key_library :: "(nat \<times> nat) key_library" where
  "sample_key_library =
     \<lparr>load_pem_private_key = (\<lambda>b. let n = length (takeWhile (\<lambda>x. x = 1) b) in Inr (n, length b - n - 1)),
      private_bytes = (\<lambda>(n, e). replicate n 1 @ 0 # replicate e 1),
      key_n = int \<circ> fst, key_e = int \<circ> snd,
      modinv = (\<lambda>a m. euclid a m 1 0 mod m)\<rparr>"

lemma sample_key_library_ok: "key_library_ok sample_key_library"
proof -
  have "(a * (euclid a m 1 0 mod m)) mod m = 1" if "1 < m" "0 \<le> a" "coprime a m" for a m
  proof -
    have "m dvd a * euclid a m 1 0 - 1"
      by (rule euclid_inverse) (use that in \<open>simp_all add: coprime_iff_gcd_eq_1\<close>)
    then have "(a * euclid a m 1 0) mod m = 1 mod m" by (simp add: mod_eq_dvd_iff)
    with that(1) show ?thesis by (simp add: mod_simps)
  qed
  moreover have "takeWhile (\<lambda>x. x = 1) (replicate n 1 @ 0 # r) = replicate n (1 :: byte)" for n r
    by (induction n) simp_all
  ultimately show ?thesis
    by (auto simp: key_library_ok_def sample_key_library_def Let_def)
qed


definition sample_path :: pystr where "sample_path = str_lit ''k''"

text \<open>A file system with a private key and an old public key.\<close>

definition sample_key_fs :: "nat \<times> nat \<Rightarrow> file_system" where
  "sample_key_fs k = sample_fs\<lparr>files := [sample_path \<mapsto> private_bytes sample_key_library k, pub_path sample_path \<mapsto> [97]]\<rparr>"

lemma sample_key_fs_sel:
  "dirs (sample_key_fs k) p = None" "files (sample_key_fs k) sample_path = Some (private_bytes sample_key_library k)"
  "files (sample_key_fs k) (pub_path sample_path) = Some [97]"
  by (simp_all add: sample_key_fs_def sample_fs_def pub_path_def str_lit_def)

lemma sample_loads: "load_pem_private_key sample_key_library (private_bytes sample_key_library k) = Inr k"
  using sample_key_library_ok by (cases k) (simp add: key_library_ok_def)

lemma sample_android_key:
  "android_key (key_n sample_key_library (15, 3)) (key_e sample_key_library (15, 3))"
  by (simp add: android_key_def sample_key_library_def)

lemma sample_user_known: "user_known (Inr (str_lit ''me'')) (sample_key_fs k) (bytes_lit '' me@pc'')"
proof -
  have "utf8_encode (user_suffix (Inr (str_lit ''me'')) (str_lit ''pc'')) = Inr (bytes_lit '' me@pc'')"
    by code_simp
  then show ?thesis by (simp add: user_known_def sample_key_fs_def sample_fs_def)
qed

lemmas sample_key_facts = sample_key_library_ok sample_android_key sample_key_fs_sel(1,2)
  sample_loads sample_key_fs_sel(1) sample_user_known

section \<open>Key files\<close>

text \<open>C24. Writing the public key of a private key file succeeds for an RSA key of up to 2048 bits and
  changes only the public key file, which then has the key in Android's format, in base 64, and
  the name of the user. Decoding that file finds the modulus and the exponent of the key, the
  square of \<open>2^2048\<close> modulo \<open>n\<close>, and \<open>-1 / n\<close> modulo \<open>2^32\<close>, whatever the name of the user is.\<close>

theorem public_key_file_round_trip:
  assumes "key_library_ok L" and "android_key (key_n L k) (key_e L k)"
    and "dirs fs priv = None" and "files fs priv = Some pem" and "load_pem_private_key L pem = Inr k"
    and "dirs fs pub = None" and "user_known login fs u"
  shows "\<exists>fs' content. write_public_keyfile L login priv pub fs = Some (Inr (), fs') \<and>
    key_file_content L k u content \<and> disk fs' = (hostname fs, (files fs)(pub \<mapsto> content), dirs fs) \<and>
    (\<exists>found fs''. decode_pubkey_file pub fs' = Some (Inr found, fs'') \<and> log_of_key (key_n L k) (key_e L k) found)"
proof -
  obtain fs' content where w: "write_public_keyfile L login priv pub fs = Some (Inr (), fs')"
    and c: "key_file_content L k u content"
    and d: "disk fs' = (hostname fs, (files fs)(pub \<mapsto> content), dirs fs)"
    by (rule write_public_keyfile_run [OF assms])
  have "dirs fs' pub = None" "files fs' pub = Some content"
    using d assms(6) by (simp_all add: disk_def)
  from decode_key_file [OF c assms(2) this] w c d show ?thesis by metis
qed


theorem public_key_file_round_trip_witness:
  "\<exists>fs' content. write_public_keyfile sample_key_library (Inr (str_lit ''me'')) sample_path (pub_path sample_path)
      (sample_key_fs (15, 3)) = Some (Inr (), fs') \<and>
    key_file_content sample_key_library (15, 3) (bytes_lit '' me@pc'') content \<and>
    disk fs' = (hostname (sample_key_fs (15, 3)), (files (sample_key_fs (15, 3)))(pub_path sample_path \<mapsto> content),
      dirs (sample_key_fs (15, 3))) \<and>
    (\<exists>found fs''. decode_pubkey_file (pub_path sample_path) fs' = Some (Inr found, fs'') \<and>
      log_of_key (key_n sample_key_library (15, 3)) (key_e sample_key_library (15, 3)) found)"
  by (rule public_key_file_round_trip [OF sample_key_facts])

text \<open>C25. \<open>keygen\<close> changes two files only: the private key, and the public key in Android's format. The
  signer that is then made from the path signs with that key and offers that public key.\<close>

theorem keygen_then_signer:
  assumes "key_library_ok L" and "android_key (key_n L k) (key_e L k)"
    and "dirs fs path = None" and "dirs fs (pub_path path) = None" and "user_known login fs u"
  shows "\<exists>fs' content fs''. keygen L k login path fs = Some (Inr (), fs') \<and> key_file_content L k u content \<and>
    disk fs' = (hostname fs, (files fs)(path \<mapsto> private_bytes L k, pub_path path \<mapsto> content), dirs fs) \<and>
    CryptographySigner L path fs' = Some (Inr \<lparr>crypt_public_key = content, crypt_rsa_key = k\<rparr>, fs'') \<and>
    disk fs'' = disk fs'"
proof -
  have ne: "path \<noteq> pub_path path" by (simp add: pub_path_def str_lit_def)
  obtain fs1 where w: "with_file (fs_open_wb path) (\<lambda>f. fs_write f (private_bytes L k)) fs = Some (Inr (), fs1)"
    and d1: "disk fs1 = (hostname fs, (files fs)(path \<mapsto> private_bytes L k), dirs fs)"
    by (rule with_file_write [OF assms(3)])
  have pem: "load_pem_private_key L (private_bytes L k) = Inr k"
    using assms(1) by (simp add: key_library_ok_def)
  have s1: "dirs fs1 path = None" "files fs1 path = Some (private_bytes L k)"
    "dirs fs1 (pub_path path) = None" "user_known login fs1 u"
    using d1 assms(3-5) by (simp_all add: disk_def user_known_def)
  obtain fs' content where w2: "write_public_keyfile L login path (pub_path path) fs1 = Some (Inr (), fs')"
    and c: "key_file_content L k u content"
    and d2: "disk fs' = (hostname fs1, (files fs1)(pub_path path \<mapsto> content), dirs fs1)"
    by (rule write_public_keyfile_run [OF assms(1,2) s1(1,2) pem s1(3,4)])
  have run: "keygen L k login path fs = Some (Inr (), fs')"
    using w w2 by (simp add: keygen_def io_bind_def pub_path_def)
  have s2: "dirs fs' (pub_path path) = None" "files fs' (pub_path path) = Some content"
    using d1 d2 assms(4) by (simp_all add: disk_def)
  obtain fs2 where r1: "load_file (pub_path path) Inr fs' = Some (Inr content, fs2)" and d3: "disk fs2 = disk fs'"
    unfolding load_file_def by (rule with_file_read [OF s2])
  have s3: "dirs fs2 path = None" "files fs2 path = Some (private_bytes L k)"
    using d1 d2 d3 assms(3) ne by (simp_all add: disk_def)
  obtain fs3 where r2: "load_file path (load_pem_private_key L) fs2 = Some (load_pem_private_key L (private_bytes L k), fs3)"
    and d4: "disk fs3 = disk fs2"
    unfolding load_file_def by (rule with_file_read [OF s3])
  have "CryptographySigner L path fs' = Some (Inr \<lparr>crypt_public_key = content, crypt_rsa_key = k\<rparr>, fs3)"
    using r1 r2 pem by (simp add: CryptographySigner_def io_bind_def io_return_def)
  moreover have "disk fs' = (hostname fs, (files fs)(path \<mapsto> private_bytes L k, pub_path path \<mapsto> content), dirs fs)"
    using d1 d2 by (simp add: disk_def)
  ultimately show ?thesis using run c d3 d4 by metis
qed

theorem keygen_then_signer_witness:
  "\<exists>fs' content fs''. keygen sample_key_library (15, 3) (Inr (str_lit ''me'')) sample_path (sample_key_fs (15, 3)) = Some (Inr (), fs') \<and>
    key_file_content sample_key_library (15, 3) (bytes_lit '' me@pc'') content \<and>
    disk fs' = (hostname (sample_key_fs (15, 3)), (files (sample_key_fs (15, 3)))
      (sample_path \<mapsto> private_bytes sample_key_library (15, 3), pub_path sample_path \<mapsto> content), dirs (sample_key_fs (15, 3))) \<and>
    CryptographySigner sample_key_library sample_path fs' =
      Some (Inr \<lparr>crypt_public_key = content, crypt_rsa_key = (15, 3)\<rparr>, fs'') \<and>
    disk fs'' = disk fs'"
  by (rule keygen_then_signer [OF sample_key_library_ok sample_android_key sample_key_fs_sel(1,1) sample_user_known])

text \<open>A modulus of more than 2048 bits is refused with \<open>OverflowError\<close> before the public key file is
  opened, so that no file changes.\<close>

theorem long_key_refused:
  assumes "dirs fs priv = None" and "files fs priv = Some pem" and "load_pem_private_key L pem = Inr k"
    and "2 ^ 2048 \<le> key_n L k"
  shows "\<exists>fs'. write_public_keyfile L login priv pub fs = Some (Inl OverflowError, fs') \<and> disk fs' = disk fs"
proof -
  obtain fs' where "encode_pubkey L priv fs = Some (Inl OverflowError, fs')" "disk fs' = disk fs"
    using encode_pubkey_run [OF assms(1-3)] encode_numbers_too_long [OF assms(4)] by metis
  then show ?thesis by (simp add: write_public_keyfile_def io_bind_def)
qed

theorem long_key_refused_witness:
  "\<exists>fs'. write_public_keyfile sample_key_library (Inr []) sample_path (pub_path sample_path)
      (sample_key_fs (2 ^ 2048, 3)) = Some (Inl OverflowError, fs') \<and> disk fs' = disk (sample_key_fs (2 ^ 2048, 3))"
  by (rule long_key_refused [OF sample_key_fs_sel(1,2) sample_loads])
    (simp only: sample_key_library_def key_library.simps comp_def fst_conv of_nat_power of_nat_numeral order.refl)

section \<open>Signatures\<close>






end
