(* ===== verification/Adb_Devices.thy ===== *)
theory Adb_Devices
  imports Samples Usb_World
begin




section \<open>A new device\<close>






end
