(* ===== verification/Async_Manager.thy ===== *)
theory Async_Manager
  imports File_Sync
begin

text \<open>
  \<open>_AdbIOManagerAsync\<close> of \<open>adb_shell_wifi/adb_device_async.py\<close>. The tasks of an event loop take
  turns: while one waits, at an \<open>await\<close> or for a lock, the others run. Here one task is
  executed, and \<open>Y\<close> is what the others do to the device at each point where it waits:
  \<open>Y held\<close>, where \<open>held\<close> tells whether the task has the transport lock. \<open>Y\<close> is any function (a
  schedule can be kept in the state of the world); what a task may rely on is stated as
  properties of \<open>Y\<close>. What others do inside of a section under the transport lock counts as done
  when they leave it. Cancelling a task is not modelled.
\<close>

section \<open>Waiting\<close>

type_synonym 'w others = "bool \<Rightarrow> 'w adb_device \<Rightarrow> 'w adb_device"

text \<open>No other task runs.\<close>

definition alone :: "'w others" where
  "alone held d = d"

definition others_run :: "'w others \<Rightarrow> bool \<Rightarrow> ('w adb_device, unit) prog" where
  "others_run Y held = io_modify (Y held)"

text \<open>\<open>await p\<close>: the others run before it gets through and before this task goes on.\<close>

definition awaiting :: "'w others \<Rightarrow> bool \<Rightarrow> ('w adb_device, 'a) prog \<Rightarrow> ('w adb_device, 'a) prog" where
  "awaiting Y held p = io_then (others_run Y held) (io_finally p (others_run Y held))"

text \<open>\<open>async with self._transport_lock\<close>: the body runs with \<open>held\<close>.\<close>

definition with_transport_lock :: "'w others \<Rightarrow> ('w adb_device, 'a) prog \<Rightarrow> ('w adb_device, 'a) prog" where
  "with_transport_lock Y p = io_then (others_run Y False) p"

text \<open>\<open>async with self._store_lock\<close> with a step on the store, which does not wait.\<close>

definition with_store_lock ::
  "'w others \<Rightarrow> bool \<Rightarrow> (store \<Rightarrow> (exn + 'a) \<times> store) \<Rightarrow> ('w adb_device, 'a) prog" where
  "with_store_lock Y held f = io_then (others_run Y held) (on_io (on_store f))"

section \<open>Reading bytes and packets\<close>

text \<open>All of this runs with the transport lock held.\<close>

definition read_bytes_body_async ::
  "('w, 'x) transport_scheme \<Rightarrow> 'w others \<Rightarrow> transaction_info \<Rightarrow> rat \<Rightarrow> int \<times> bytes \<Rightarrow>
     ('w adb_device, (int \<times> bytes, bytes) loop_ctl) prog" where
  "read_bytes_body_async T Y info start = (\<lambda>(len, data).
     if \<not> 0 < len then io_return (Break data)
     else io_bind (awaiting Y True (on_world (tr_bulk_read T len (transport_timeout_s info)))) (\<lambda>temp.
       (let data' = data @ temp; len' = len - int (length temp)
        in if len' = 0 then io_return (Break data')
           else io_bind (on_world (tr_time T)) (\<lambda>now.
             if now - start > read_timeout_s info then io_raise AdbTimeoutError
             else io_return (Continue (len', data'))))))"

definition read_bytes_from_device_async ::
  "('w, 'x) transport_scheme \<Rightarrow> 'w others \<Rightarrow> int \<Rightarrow> transaction_info \<Rightarrow> ('w adb_device, bytes) prog" where
  "read_bytes_from_device_async T Y len info =
     io_bind (on_world (tr_time T)) (\<lambda>start. io_loop (read_bytes_body_async T Y info start) (len, []))"

definition read_packet_from_device_async ::
  "('w, 'x) transport_scheme \<Rightarrow> 'w others \<Rightarrow> transaction_info \<Rightarrow> ('w adb_device, packet) prog" where
  "read_packet_from_device_async T Y info =
     io_bind (read_bytes_from_device_async T Y MESSAGE_SIZE info) (\<lambda>msg.
     io_bind (io_lift (unpack msg)) (\<lambda>(cmd, arg0, arg1, data_length, data_checksum).
       case WIRE_TO_ID cmd of
         None \<Rightarrow> io_raise (InvalidCommandError cmd)
       | Some command \<Rightarrow>
           if data_length = 0 then io_return (command, arg0, arg1, [])
           else
             io_bind (read_bytes_from_device_async T Y data_length info) (\<lambda>data.
               if checksum data \<noteq> data_checksum
               then io_raise (InvalidChecksumError (checksum data) data_checksum)
               else io_return (command, arg0, arg1, data))))"

definition read_expected_body_async ::
  "('w, 'x) transport_scheme \<Rightarrow> 'w others \<Rightarrow> cmd list \<Rightarrow> transaction_info \<Rightarrow> rat \<Rightarrow> unit \<Rightarrow>
     ('w adb_device, (unit, packet) loop_ctl) prog" where
  "read_expected_body_async T Y expected_cmds info start _ =
     io_bind (read_packet_from_device_async T Y info) (\<lambda>p.
       if fst p \<in> set expected_cmds then io_return (Break p)
       else io_bind (on_world (tr_time T)) (\<lambda>now.
         if now - start > read_timeout_s info then io_raise AdbTimeoutError
         else io_return (Continue ())))"

definition read_expected_packet_from_device_async ::
  "('w, 'x) transport_scheme \<Rightarrow> 'w others \<Rightarrow> cmd list \<Rightarrow> transaction_info \<Rightarrow> ('w adb_device, packet) prog" where
  "read_expected_packet_from_device_async T Y expected_cmds info =
     io_bind (on_world (tr_time T)) (\<lambda>start.
       io_loop (read_expected_body_async T Y expected_cmds info start) ())"

section \<open>Sending\<close>

definition send_raw_async ::
  "('w, 'x) transport_scheme \<Rightarrow> 'w others \<Rightarrow> adb_message \<Rightarrow> transaction_info \<Rightarrow> ('w adb_device, unit) prog" where
  "send_raw_async T Y msg info =
     io_bind (io_lift (pack msg)) (\<lambda>packed.
     io_then (awaiting Y True (on_world (tr_bulk_write T packed (transport_timeout_s info))))
       (if msg_data msg \<noteq> []
        then io_then (awaiting Y True (on_world (tr_bulk_write T (msg_data msg) (transport_timeout_s info))))
               (io_return ())
        else io_return ()))"

definition io_send_async ::
  "('w, 'x) transport_scheme \<Rightarrow> 'w others \<Rightarrow> adb_message \<Rightarrow> transaction_info \<Rightarrow> ('w adb_device, unit) prog" where
  "io_send_async T Y msg info = with_transport_lock Y (send_raw_async T Y msg info)"

text \<open>Building a message and sending it, without and with taking the lock.\<close>

definition send_locked_async ::
  "('w, 'x) transport_scheme \<Rightarrow> 'w others \<Rightarrow> cmd \<Rightarrow> int option \<Rightarrow> int option \<Rightarrow> bytes \<Rightarrow>
     transaction_info \<Rightarrow> ('w adb_device, unit) prog" where
  "send_locked_async T Y c arg0 arg1 data info =
     io_bind (io_lift (AdbMessage c arg0 arg1 data)) (\<lambda>msg. send_raw_async T Y msg info)"

definition send_new_async ::
  "('w, 'x) transport_scheme \<Rightarrow> 'w others \<Rightarrow> cmd \<Rightarrow> int option \<Rightarrow> int option \<Rightarrow> bytes \<Rightarrow>
     transaction_info \<Rightarrow> ('w adb_device, unit) prog" where
  "send_new_async T Y c arg0 arg1 data info =
     io_bind (io_lift (AdbMessage c arg0 arg1 data)) (\<lambda>msg. io_send_async T Y msg info)"

section \<open>Reading the packets of one stream\<close>

text \<open>Only putting and clearing take the store lock.\<close>

definition dispatch_async ::
  "'w others \<Rightarrow> transaction_info \<Rightarrow> bool \<Rightarrow> packet \<Rightarrow> ('w adb_device, unit) prog" where
  "dispatch_async Y info allow_zeros = (\<lambda>(cmd, arg0, arg1, data).
     if \<not> args_match info arg0 arg1 allow_zeros then
       with_store_lock Y True (\<lambda>s. (Inr (), store_put arg0 arg1 cmd data s))
     else if cmd = CLSE then with_store_lock Y True (\<lambda>s. (Inr (), store_clear arg0 arg1 s))
     else io_return ())"

definition io_read_body_async ::
  "('w, 'x) transport_scheme \<Rightarrow> 'w others \<Rightarrow> cmd list \<Rightarrow> transaction_info \<Rightarrow> bool \<Rightarrow> rat \<Rightarrow> unit \<Rightarrow>
     ('w adb_device, (unit, packet) loop_ctl) prog" where
  "io_read_body_async T Y expected_cmds info allow_zeros start _ =
     io_bind
       (with_transport_lock Y
         (io_bind (with_store_lock Y True (store_read expected_cmds info allow_zeros)) (\<lambda>stored.
           case stored of
             Some p \<Rightarrow> io_return (Some p)
           | None \<Rightarrow>
               io_bind (read_packet_from_device_async T Y info) (\<lambda>p.
               io_then (dispatch_async Y info allow_zeros p)
                 (io_return
                   (if args_match info (fst (snd p)) (fst (snd (snd p))) allow_zeros
                       \<and> fst p \<in> set expected_cmds
                    then Some p else None))))))
       (\<lambda>found.
         case found of
           Some p \<Rightarrow> io_return (Break p)
         | None \<Rightarrow>
             io_bind (on_world (tr_time T)) (\<lambda>now.
               if now - start > read_timeout_s info then io_raise AdbTimeoutError
               else io_return (Continue ())))"

definition io_read_async ::
  "('w, 'x) transport_scheme \<Rightarrow> 'w others \<Rightarrow> cmd list \<Rightarrow> transaction_info \<Rightarrow> bool \<Rightarrow>
     ('w adb_device, packet) prog" where
  "io_read_async T Y expected_cmds info allow_zeros =
     io_bind (with_store_lock Y False (store_read expected_cmds info allow_zeros)) (\<lambda>stored.
       case stored of
         Some p \<Rightarrow> io_return p
       | None \<Rightarrow>
           io_bind (on_world (tr_time T)) (\<lambda>start.
             io_loop (io_read_body_async T Y expected_cmds info allow_zeros start) ()))"

section \<open>Closing and connecting\<close>

definition io_close_async ::
  "('w, 'x) transport_scheme \<Rightarrow> 'w others \<Rightarrow> ('w adb_device, unit) prog" where
  "io_close_async T Y =
     with_transport_lock Y
       (io_then (awaiting Y True (on_world (tr_close T)))
         (with_store_lock Y True (\<lambda>s. (Inr (), store_clear_all s))))"

definition close_and_raise_async ::
  "('w, 'x) transport_scheme \<Rightarrow> 'w others \<Rightarrow> exn \<Rightarrow> ('w adb_device, 'a) prog" where
  "close_and_raise_async T Y e = io_then (awaiting Y True (on_world (tr_close T))) (io_raise e)"

definition do_stls_upgrade_async ::
  "('w, 'x) transport_scheme \<Rightarrow> 'w others \<Rightarrow> (bytes \<Rightarrow> exn + bytes \<times> bytes) \<Rightarrow> bytes option \<Rightarrow>
     transaction_info \<Rightarrow> ('w adb_device, unit) prog" where
  "do_stls_upgrade_async T Y x509 tls_priv_pem info =
     (case tls_priv_pem of
        None \<Rightarrow> close_and_raise_async T Y DeviceAuthError
      | Some pem \<Rightarrow>
          (case tr_tls_upgrade T of
             None \<Rightarrow> close_and_raise_async T Y DeviceAuthError
           | Some upgrade \<Rightarrow>
               io_bind (io_lift (x509 pem)) (\<lambda>(cert_pem, key_pem).
               io_then (send_locked_async T Y STLS (Some STLS_VERSION) (Some 0) [] info)
                 (awaiting Y True (on_world (upgrade cert_pem key_pem))))))"

fun auth_keys_async ::
  "('w, 'x) transport_scheme \<Rightarrow> 'w others \<Rightarrow> signer list \<Rightarrow> int \<Rightarrow> bytes \<Rightarrow> transaction_info \<Rightarrow>
     ('w adb_device, int option) prog" where
  "auth_keys_async T Y [] arg0 banner2 info = io_return None"
| "auth_keys_async T Y (rsa_key # ks) arg0 banner2 info =
     (if arg0 \<noteq> AUTH_TOKEN then close_and_raise_async T Y InvalidResponseError
      else
        io_bind (io_lift (Sign rsa_key banner2)) (\<lambda>signed_token.
        io_then (send_locked_async T Y AUTH (Some AUTH_SIGNATURE) (Some 0) signed_token info)
        (io_bind (read_expected_packet_from_device_async T Y [CNXN, AUTH] info)
          (\<lambda>(cmd, arg0', maxdata', banner2').
             if cmd = CNXN then io_return (Some maxdata')
             else auth_keys_async T Y ks arg0' banner2' info))))"

text \<open>The callback is a plain function, which does not wait.\<close>

definition offer_public_key_async ::
  "('w, 'x) transport_scheme \<Rightarrow> 'w others \<Rightarrow> signer \<Rightarrow> rat option \<Rightarrow> ('w io_manager, unit) prog option \<Rightarrow>
     transaction_info \<Rightarrow> ('w adb_device, int) prog" where
  "offer_public_key_async T Y rsa_key auth_timeout_s auth_callback info =
     io_bind (io_lift (pubkey_bytes (GetPublicKey rsa_key))) (\<lambda>pubkey.
     io_then (case auth_callback of None \<Rightarrow> io_return () | Some callback \<Rightarrow> on_io callback)
     (io_then (send_locked_async T Y AUTH (Some AUTH_RSAPUBLICKEY) (Some 0) (pubkey @ [0]) info)
     (io_bind (read_expected_packet_from_device_async T Y [CNXN]
                 (info\<lparr>transport_timeout_s := auth_timeout_s\<rparr>))
       (\<lambda>(_, _, maxdata, _). io_return maxdata))))"

definition io_connect_async ::
  "('w, 'x) transport_scheme \<Rightarrow> 'w others \<Rightarrow> (bytes \<Rightarrow> exn + bytes \<times> bytes) \<Rightarrow> bytes \<Rightarrow> signer list \<Rightarrow>
     rat option \<Rightarrow> ('w io_manager, unit) prog option \<Rightarrow> transaction_info \<Rightarrow> bytes option \<Rightarrow>
     ('w adb_device, bool \<times> int) prog" where
  "io_connect_async T Y x509 bn rsa_keys auth_timeout_s auth_callback info tls_priv_pem =
     with_transport_lock Y
     (io_then (awaiting Y True (on_world (tr_close T)))
     (io_then (with_store_lock Y True (\<lambda>s. (Inr (), store_clear_all s)))
     (io_then (awaiting Y True (on_world (tr_connect T (transport_timeout_s info))))
     (io_then (send_locked_async T Y CNXN (Some VERSION) (Some MAX_ADB_DATA) (cnxn_payload bn) info)
     (io_bind (read_expected_packet_from_device_async T Y [AUTH, CNXN, STLS] info)
       (\<lambda>(cmd, arg0, maxdata, banner2).
          if cmd = STLS then
            io_then (do_stls_upgrade_async T Y x509 tls_priv_pem info)
            (io_bind (read_expected_packet_from_device_async T Y [CNXN]
                        (info\<lparr>transport_timeout_s := auth_timeout_s\<rparr>))
              (\<lambda>(_, _, maxdata', _). io_return (True, maxdata')))
          else if cmd \<noteq> AUTH then io_return (True, maxdata)
          else
            (case rsa_keys of
               [] \<Rightarrow> close_and_raise_async T Y DeviceAuthError
             | rsa_key # _ \<Rightarrow>
                 io_bind (auth_keys_async T Y rsa_keys arg0 banner2 info) (\<lambda>accepted.
                   case accepted of
                     Some maxdata' \<Rightarrow> io_return (True, maxdata')
                   | None \<Rightarrow>
                       io_bind (offer_public_key_async T Y rsa_key auth_timeout_s auth_callback info)
                         (\<lambda>maxdata'. io_return (True, maxdata'))))))))))"

section \<open>Alone\<close>

text \<open>Programs on the manager of a device.\<close>

lemma on_io_return [simp]: "on_io (io_return x) = io_return x"
  and on_io_raise [simp]: "on_io (io_raise e) = io_raise e"
  and on_io_lift [simp]: "on_io (io_lift r) = io_lift r"
  by (rule ext; simp add: on_io_def io_defs)+

lemma on_io_bind: "on_io (io_bind p f) = io_bind (on_io p) (\<lambda>x. on_io (f x))"
  by (rule ext) (simp add: on_io_def io_defs split: option.split sum.split prod.split)

lemma on_io_if: "on_io (if b then p else q) = (if b then on_io p else on_io q)"
  by simp

lemma on_io_case_option:
  "on_io (case x of None \<Rightarrow> p | Some y \<Rightarrow> q y) = (case x of None \<Rightarrow> on_io p | Some y \<Rightarrow> on_io (q y))"
  by (cases x) simp_all

lemma on_io_case_prod: "on_io (case x of (a, b) \<Rightarrow> p a b) = (case x of (a, b) \<Rightarrow> on_io (p a b))"
  by (cases x) simp

lemma on_io_case_list:
  "on_io (case x of [] \<Rightarrow> p | y # ys \<Rightarrow> q y ys) = (case x of [] \<Rightarrow> on_io p | y # ys \<Rightarrow> on_io (q y ys))"
  by (cases x) simp_all

lemma run_on_io:
  "on_io p d = (case p (io_manager d) of None \<Rightarrow> None | Some (r, m) \<Rightarrow> Some (r, d\<lparr>io_manager := m\<rparr>))"
  by (simp add: on_io_def io_zoom_def)

lemma on_io_loop:
  fixes body :: "'a \<Rightarrow> ('w io_manager, ('a, 'b) loop_ctl) prog"
  shows "on_io (io_loop body a) = io_loop (\<lambda>a. on_io (body a)) a"
proof
  fix d :: "'w adb_device"
  let ?body' = "\<lambda>a. on_io (body a)"
  have fwd: "wp False (io_loop body a)
      (\<lambda>b m. io_loop ?body' a d = Some (Inr b, d\<lparr>io_manager := m\<rparr>))
      (\<lambda>e m. io_loop ?body' a d = Some (Inl e, d\<lparr>io_manager := m\<rparr>)) (io_manager d)"
  proof (rule loop_partial [where I = "\<lambda>a1 m. io_loop ?body' a d = io_loop ?body' a1 (d\<lparr>io_manager := m\<rparr>)"])
    fix a1 m assume inv: "io_loop ?body' a d = io_loop ?body' a1 (d\<lparr>io_manager := m\<rparr>)"
    show "wp False (body a1)
        (loop_post (\<lambda>a1 m. io_loop ?body' a d = io_loop ?body' a1 (d\<lparr>io_manager := m\<rparr>))
          (\<lambda>b m. io_loop ?body' a d = Some (Inr b, d\<lparr>io_manager := m\<rparr>)))
        (\<lambda>e m. io_loop ?body' a d = Some (Inl e, d\<lparr>io_manager := m\<rparr>)) m"
      unfolding inv io_loop_unfold [of ?body' a1]
      by (cases "body a1 m")
        (auto simp: wp_def run_on_io io_bind_def io_return_def loop_post_def split: sum.split loop_ctl.split)
  qed simp
  have bwd: "wp False (io_loop ?body' a)
      (\<lambda>b d'. io_loop body a (io_manager d) = Some (Inr b, io_manager d'))
      (\<lambda>e d'. io_loop body a (io_manager d) = Some (Inl e, io_manager d')) d"
  proof (rule loop_partial [where I = "\<lambda>a1 d1. io_loop body a (io_manager d) = io_loop body a1 (io_manager d1)"])
    fix a1 and d1 :: "'w adb_device"
    assume inv: "io_loop body a (io_manager d) = io_loop body a1 (io_manager d1)"
    show "wp False (?body' a1)
        (loop_post (\<lambda>a1 d1. io_loop body a (io_manager d) = io_loop body a1 (io_manager d1))
          (\<lambda>b d'. io_loop body a (io_manager d) = Some (Inr b, io_manager d')))
        (\<lambda>e d'. io_loop body a (io_manager d) = Some (Inl e, io_manager d')) d1"
      unfolding inv io_loop_unfold [of body a1]
      by (cases "body a1 (io_manager d1)")
        (auto simp: wp_def run_on_io io_bind_def io_return_def loop_post_def split: sum.split loop_ctl.split)
  qed simp
  show "on_io (io_loop body a) d = io_loop ?body' a d"
  proof (cases "io_loop body a (io_manager d)")
    case None
    with bwd have "io_loop ?body' a d = None" by (auto simp: wp_def split: option.splits sum.splits)
    with None show ?thesis by (simp add: run_on_io)
  next
    case (Some x)
    with fwd show ?thesis by (cases x; cases "fst x") (auto simp: wp_def run_on_io)
  qed
qed

lemma on_io_no_step [simp]: "on_io (on_store (Pair (Inr ()))) = io_return ()"
  by (rule ext) (simp add: run_on_io on_store_def io_defs)

lemmas on_io_simps = on_io_bind on_io_if on_io_case_option on_io_case_prod on_io_case_list on_io_loop

lemma others_run_alone [simp]: "others_run alone held = io_return ()"
  by (rule ext) (simp add: others_run_def alone_def io_defs)

lemma io_finally_return [simp]: "io_finally p (io_return ()) = p"
  by (rule ext) (simp add: io_defs split: option.split sum.split)

lemma waiting_alone [simp]:
  "awaiting alone held p = p"
  "with_transport_lock alone p = p"
  "with_store_lock alone held f = on_io (on_store f)"
  by (simp_all add: awaiting_def with_transport_lock_def with_store_lock_def)

text \<open>A task that has the event loop for itself does what the manager without \<open>async\<close> does.\<close>

lemma read_bytes_alone: "read_bytes_from_device_async T alone n info = on_io (read_bytes_from_device T n info)"
proof -
  have "read_bytes_body_async T alone info start = (\<lambda>a. on_io (read_bytes_body T info start a))" for start
    by (rule ext) (simp add: read_bytes_body_async_def read_bytes_body_def on_world_def on_io_simps Let_def
        cong: if_cong split: prod.split)
  then show ?thesis
    by (simp add: read_bytes_from_device_async_def read_bytes_from_device_def on_world_def on_io_simps)
qed

lemma read_packet_alone: "read_packet_from_device_async T alone info = on_io (read_packet_from_device T info)"
  by (simp add: read_packet_from_device_async_def read_packet_from_device_def read_bytes_alone on_io_simps
      cong: if_cong option.case_cong)

lemma read_expected_alone:
  "read_expected_packet_from_device_async T alone cmds info = on_io (read_expected_packet_from_device T cmds info)"
proof -
  have "read_expected_body_async T alone cmds info start = (\<lambda>u. on_io (read_expected_body T cmds info start u))" for start
    by (rule ext) (simp add: read_expected_body_async_def read_expected_body_def read_packet_alone on_world_def
        on_io_simps cong: if_cong)
  then show ?thesis
    by (simp only: read_expected_packet_from_device_async_def read_expected_packet_from_device_def on_world_def on_io_simps)
qed

lemma send_alone:
  "send_locked_async T alone c a0 a1 d info = on_io (send_new T c a0 a1 d info)"
  "send_new_async T alone c a0 a1 d info = on_io (send_new T c a0 a1 d info)"
  by (simp_all add: send_locked_async_def send_new_async_def io_send_async_def send_raw_async_def send_new_def
      io_send_def send_raw_def on_world_def on_io_simps cong: if_cong)

lemma dispatch_alone:
  "dispatch_async alone info z p = on_io (on_store (\<lambda>s. (Inr (), dispatch_packet info z p s)))"
  by (cases p) (simp add: dispatch_async_def dispatch_packet_def)

lemma case_option_if: "(case (if b then Some p else None) of None \<Rightarrow> n | Some q \<Rightarrow> f q) = (if b then f p else n)"
  by simp

lemma io_read_alone: "io_read_async T alone cmds info z = on_io (io_read T cmds info z)"
proof -
  have "io_read_body_async T alone cmds info z start u = on_io (io_read_body T cmds info z start u)" for start u
  proof -
    have "io_bind (case stored of Some p \<Rightarrow> io_return (Some p)
         | None \<Rightarrow> io_bind (read_packet_from_device_async T alone info) (\<lambda>p.
             io_then (dispatch_async alone info z p)
               (io_return (if args_match info (fst (snd p)) (fst (snd (snd p))) z \<and> fst p \<in> set cmds
                  then Some p else None))))
       (\<lambda>found. case found of Some p \<Rightarrow> io_return (Break p)
          | None \<Rightarrow> io_bind (on_world (tr_time T)) (\<lambda>now.
              if now - start > read_timeout_s info then io_raise AdbTimeoutError else io_return (Continue ()))) =
      on_io (case stored of Some p \<Rightarrow> io_return (Break p)
         | None \<Rightarrow> io_bind (read_packet_from_device T info) (\<lambda>p.
             io_then (on_store (\<lambda>s. (Inr (), dispatch_packet info z p s)))
               (if args_match info (fst (snd p)) (fst (snd (snd p))) z \<and> fst p \<in> set cmds
                then io_return (Break p)
                else io_bind (on_transport (tr_time T)) (\<lambda>now.
                  if now - start > read_timeout_s info then io_raise AdbTimeoutError
                  else io_return (Continue ())))))" for stored
      by (cases stored) (simp_all add: on_io_simps read_packet_alone dispatch_alone io_bind_assoc on_world_def
          case_option_if cong: if_cong)
    then show ?thesis
      unfolding io_read_body_async_def io_read_body_def waiting_alone io_bind_assoc
      by (simp only: on_io_bind [of "on_store _"])
  qed
  then have "io_read_body_async T alone cmds info z start = (\<lambda>u. on_io (io_read_body T cmds info z start u))" for start
    by blast
  then show ?thesis
    by (simp only: io_read_async_def io_read_def on_world_def on_io_simps waiting_alone on_io_return)
qed

lemma io_close_alone: "io_close_async T alone = on_io (io_close T)"
  by (simp add: io_close_async_def io_close_def on_world_def on_io_simps)

lemma close_and_raise_alone: "close_and_raise_async T alone e = on_io (close_and_raise T e)"
  by (simp add: close_and_raise_async_def close_and_raise_def on_world_def on_io_simps)

lemma do_stls_upgrade_alone: "do_stls_upgrade_async T alone x509 pem info = on_io (do_stls_upgrade T x509 pem info)"
  by (simp add: do_stls_upgrade_async_def do_stls_upgrade_def close_and_raise_alone send_alone on_world_def
      on_io_simps cong: option.case_cong)

lemma auth_keys_alone: "auth_keys_async T alone ks arg0 banner2 info = on_io (auth_keys T ks arg0 banner2 info)"
  by (induction ks arbitrary: arg0 banner2)
    (simp_all add: close_and_raise_alone send_alone read_expected_alone on_io_simps cong: if_cong)

lemma offer_public_key_alone:
  "offer_public_key_async T alone key t cb info = on_io (offer_public_key T key t cb info)"
  by (simp add: offer_public_key_async_def offer_public_key_def send_alone read_expected_alone on_io_simps
      cong: option.case_cong)

lemma io_connect_alone:
  "io_connect_async T alone x509 b ks t cb info pem = on_io (io_connect T x509 b ks t cb info pem)"
  by (simp add: io_connect_async_def io_connect_def send_alone read_expected_alone do_stls_upgrade_alone
      close_and_raise_alone auth_keys_alone offer_public_key_alone on_world_def on_io_simps
      cong: if_cong option.case_cong list.case_cong)

lemmas manager_alone = io_close_alone io_connect_alone io_read_alone send_alone

end
