(* ===== verification/Async_Device.thy ===== *)
theory Async_Device
  imports Async_Manager
begin

text \<open>
  \<open>AdbDeviceAsync\<close> of \<open>adb_shell_wifi/adb_device_async.py\<close>: connecting and closing, streams and
  services, over the attributes of \<open>AdbDevice\<close>. An asynchronous generator is modelled together
  with the loop that consumes it. \<open>_get_transport_timeout_s\<close>, the availability check and the
  wrap-around of the local id are those of \<open>Adb_Device\<close>.
\<close>

section \<open>Close and connect\<close>

definition dev_close_async :: "('w, 'x) host_scheme \<Rightarrow> 'w others \<Rightarrow> ('w adb_device, unit) prog" where
  "dev_close_async H Y = io_then (io_modify (\<lambda>d. d\<lparr>available := False\<rparr>)) (io_close_async H Y)"

definition ensure_banner_async :: "('w, 'x) host_scheme \<Rightarrow> 'w others \<Rightarrow> ('w adb_device, bytes) prog" where
  "ensure_banner_async H Y =
     io_bind (io_gets banner) (\<lambda>b.
       case b of
         Some (x # xs) \<Rightarrow> io_return (x # xs)
       | _ \<Rightarrow>
           io_bind (awaiting Y False (on_world (get_banner H))) (\<lambda>bn.
           io_then (io_modify (\<lambda>d. d\<lparr>banner := Some bn\<rparr>)) (io_return bn)))"

definition dev_connect_async ::
  "('w, 'x) host_scheme \<Rightarrow> 'w others \<Rightarrow> (bytes \<Rightarrow> exn + bytes \<times> bytes) \<Rightarrow> signer list \<Rightarrow> rat option \<Rightarrow>
     rat option \<Rightarrow> rat \<Rightarrow> ('w io_manager, unit) prog option \<Rightarrow> bytes option \<Rightarrow>
     ('w adb_device, bool) prog" where
  "dev_connect_async H Y x509 rsa_keys transport_timeout auth_timeout read_timeout auth_callback tls_priv_pem =
     io_bind (ensure_banner_async H Y) (\<lambda>bn.
     io_bind (io_gets (get_transport_timeout_s transport_timeout)) (\<lambda>tt.
     io_then (io_modify (\<lambda>d. d\<lparr>available := False\<rparr>))
     (io_bind (io_connect_async H Y x509 bn rsa_keys auth_timeout auth_callback
                 (AdbTransactionInfo None None tt read_timeout None) tls_priv_pem)
       (\<lambda>(av, md).
          io_then (io_modify (\<lambda>d. d\<lparr>available := av, maxdata := md\<rparr>)) (io_return av)))))"

section \<open>Streams\<close>

text \<open>Waiting for the lock of the local id; what is done under it does not wait.\<close>

definition dev_open_async ::
  "('w, 'x) host_scheme \<Rightarrow> 'w others \<Rightarrow> bytes \<Rightarrow> rat option \<Rightarrow> rat \<Rightarrow> rat option \<Rightarrow>
     ('w adb_device, transaction_info) prog" where
  "dev_open_async H Y destination transport_timeout read_timeout timeout =
     io_then (others_run Y False)
     (io_then (io_modify (\<lambda>d. d\<lparr>dev_local_id := next_local_id (dev_local_id d)\<rparr>))
     (io_bind (io_gets (\<lambda>d. AdbTransactionInfo (Some (dev_local_id d)) None
                 (get_transport_timeout_s transport_timeout d) read_timeout timeout)) (\<lambda>info.
     io_then (send_new_async H Y OPEN (local_id info) (Some 0) (destination @ [0]) info)
     (io_bind (io_read_async H Y [OKAY] info False) (\<lambda>(_, remote, _, _).
       io_return (info\<lparr>remote_id := Some remote\<rparr>))))))"

definition dev_okay_async :: "('w, 'x) host_scheme \<Rightarrow> 'w others \<Rightarrow> transaction_info \<Rightarrow> ('w adb_device, unit) prog" where
  "dev_okay_async H Y info = send_new_async H Y OKAY (local_id info) (remote_id info) [] info"

definition read_until_async ::
  "('w, 'x) host_scheme \<Rightarrow> 'w others \<Rightarrow> cmd list \<Rightarrow> transaction_info \<Rightarrow> ('w adb_device, cmd \<times> bytes) prog" where
  "read_until_async H Y expected_cmds info =
     io_bind (io_read_async H Y expected_cmds info True) (\<lambda>(cmd, _, _, data).
       if cmd = WRTE then io_then (dev_okay_async H Y info) (io_return (cmd, data))
       else io_return (cmd, data))"

definition dev_clse_async :: "('w, 'x) host_scheme \<Rightarrow> 'w others \<Rightarrow> transaction_info \<Rightarrow> ('w adb_device, unit) prog" where
  "dev_clse_async H Y info =
     io_then (send_new_async H Y CLSE (local_id info) (remote_id info) [] info)
       (io_then (read_until_async H Y [CLSE] info) (io_return ()))"

definition read_until_close_body_async ::
  "('w, 'x) host_scheme \<Rightarrow> 'w others \<Rightarrow> transaction_info \<Rightarrow> rat \<Rightarrow> (bytes \<Rightarrow> 'a \<Rightarrow> ('w adb_device, 'a) prog) \<Rightarrow>
     'a \<Rightarrow> ('w adb_device, ('a, 'a) loop_ctl) prog" where
  "read_until_close_body_async H Y info start body acc =
     io_bind (read_until_async H Y [CLSE, WRTE] info) (\<lambda>(cmd, data).
       if cmd = CLSE then
         io_then (send_new_async H Y CLSE (local_id info) (remote_id info) [] info)
           (io_return (Break acc))
       else
         io_bind (body data acc) (\<lambda>acc'.
           case timeout_s info of
             None \<Rightarrow> io_return (Continue acc')
           | Some t \<Rightarrow>
               io_bind (on_world (tr_time H)) (\<lambda>now.
                 if now - start > t then io_raise AdbTimeoutError
                 else io_return (Continue acc'))))"

definition read_until_close_async ::
  "('w, 'x) host_scheme \<Rightarrow> 'w others \<Rightarrow> transaction_info \<Rightarrow> (bytes \<Rightarrow> 'a \<Rightarrow> ('w adb_device, 'a) prog) \<Rightarrow> 'a \<Rightarrow>
     ('w adb_device, 'a) prog" where
  "read_until_close_async H Y info body acc =
     io_bind (on_world (tr_time H)) (\<lambda>start. io_loop (read_until_close_body_async H Y info start body) acc)"

definition streaming_command_async ::
  "('w, 'x) host_scheme \<Rightarrow> 'w others \<Rightarrow> bytes \<Rightarrow> bytes \<Rightarrow> rat option \<Rightarrow> rat \<Rightarrow> rat option \<Rightarrow>
     (bytes \<Rightarrow> 'a \<Rightarrow> ('w adb_device, 'a) prog) \<Rightarrow> 'a \<Rightarrow> ('w adb_device, 'a) prog" where
  "streaming_command_async H Y service command transport_timeout read_timeout timeout body acc =
     io_bind (dev_open_async H Y (service @ bytes_lit '':'' @ command) transport_timeout read_timeout timeout)
       (\<lambda>info. read_until_close_async H Y info body acc)"

section \<open>Services\<close>

definition dev_service_async ::
  "('w, 'x) host_scheme \<Rightarrow> 'w others \<Rightarrow> bytes \<Rightarrow> bytes \<Rightarrow> rat option \<Rightarrow> rat \<Rightarrow> rat option \<Rightarrow> bool \<Rightarrow>
     ('w adb_device, service_output) prog" where
  "dev_service_async H Y service command transport_timeout read_timeout timeout decode =
     io_bind (streaming_command_async H Y service command transport_timeout read_timeout timeout
                (\<lambda>data acc. io_return (acc @ data)) [])
       (\<lambda>b. io_return (decode_output decode b))"

definition streaming_service_async ::
  "('w, 'x) host_scheme \<Rightarrow> 'w others \<Rightarrow> bytes \<Rightarrow> bytes \<Rightarrow> rat option \<Rightarrow> rat \<Rightarrow> bool \<Rightarrow>
     (service_output \<Rightarrow> 'a \<Rightarrow> ('w adb_device, 'a) prog) \<Rightarrow> 'a \<Rightarrow> ('w adb_device, 'a) prog" where
  "streaming_service_async H Y service command transport_timeout read_timeout decode body acc =
     streaming_command_async H Y service command transport_timeout read_timeout None
       (\<lambda>line acc. body (decode_output decode line) acc) acc"

definition exec_out_async ::
  "('w, 'x) host_scheme \<Rightarrow> 'w others \<Rightarrow> pystr \<Rightarrow> rat option \<Rightarrow> rat \<Rightarrow> rat option \<Rightarrow> bool \<Rightarrow>
     ('w adb_device, service_output) prog" where
  "exec_out_async H Y command transport_timeout read_timeout timeout decode =
     require_available
       (io_bind (io_lift (utf8_encode command)) (\<lambda>c.
          dev_service_async H Y (bytes_lit ''exec'') c transport_timeout read_timeout timeout decode))"

definition reboot_async ::
  "('w, 'x) host_scheme \<Rightarrow> 'w others \<Rightarrow> bool \<Rightarrow> rat option \<Rightarrow> rat \<Rightarrow> rat option \<Rightarrow> ('w adb_device, unit) prog" where
  "reboot_async H Y fastboot transport_timeout read_timeout timeout =
     require_available
       (io_then (dev_open_async H Y (if fastboot then bytes_lit ''reboot:bootloader'' else bytes_lit ''reboot:'')
                   transport_timeout read_timeout timeout)
          (io_return ()))"

definition root_async ::
  "('w, 'x) host_scheme \<Rightarrow> 'w others \<Rightarrow> rat option \<Rightarrow> rat \<Rightarrow> rat option \<Rightarrow> ('w adb_device, unit) prog" where
  "root_async H Y transport_timeout read_timeout timeout =
     require_available
       (io_then (dev_service_async H Y (bytes_lit ''root'') [] transport_timeout read_timeout timeout False)
          (io_return ()))"

definition shell_async ::
  "('w, 'x) host_scheme \<Rightarrow> 'w others \<Rightarrow> pystr \<Rightarrow> rat option \<Rightarrow> rat \<Rightarrow> rat option \<Rightarrow> bool \<Rightarrow>
     ('w adb_device, service_output) prog" where
  "shell_async H Y command transport_timeout read_timeout timeout decode =
     require_available
       (io_bind (io_lift (utf8_encode command)) (\<lambda>c.
          dev_service_async H Y (bytes_lit ''shell'') c transport_timeout read_timeout timeout decode))"

definition streaming_shell_async ::
  "('w, 'x) host_scheme \<Rightarrow> 'w others \<Rightarrow> pystr \<Rightarrow> rat option \<Rightarrow> rat \<Rightarrow> bool \<Rightarrow>
     (service_output \<Rightarrow> 'a \<Rightarrow> ('w adb_device, 'a) prog) \<Rightarrow> 'a \<Rightarrow> ('w adb_device, 'a) prog" where
  "streaming_shell_async H Y command transport_timeout read_timeout decode body acc =
     require_available
       (io_bind (io_lift (utf8_encode command)) (\<lambda>c.
          streaming_service_async H Y (bytes_lit ''shell'') c transport_timeout read_timeout decode body acc))"

end
