(* ===== verification/Async_File_Sync.thy ===== *)
theory Async_File_Sync
  imports Async_Device
begin

text \<open>
  The FileSync half of \<open>AdbDeviceAsync\<close> (\<open>adb_shell_wifi/adb_device_async.py\<close>). Files are opened,
  read and written by \<open>aiofiles\<close>, which waits for a thread; a \<open>BytesIO\<close> is wrapped.
\<close>

section \<open>Buffered packets\<close>

definition filesync_flush_async ::
  "('w, 'x) host_scheme \<Rightarrow> 'w others \<Rightarrow> transaction_info \<Rightarrow> filesync_info \<Rightarrow> ('w adb_device, filesync_info) prog" where
  "filesync_flush_async H Y info fsi =
     io_then (send_new_async H Y WRTE (local_id info) (remote_id info)
                (take (send_idx fsi) (send_buffer fsi)) info)
     (io_then (read_until_async H Y [OKAY] info)
       (io_return (fsi\<lparr>send_idx := 0\<rparr>)))"

definition filesync_send_async ::
  "('w, 'x) host_scheme \<Rightarrow> 'w others \<Rightarrow> cmd \<Rightarrow> transaction_info \<Rightarrow> filesync_info \<Rightarrow> py_data \<Rightarrow> int option \<Rightarrow>
     ('w adb_device, filesync_info) prog" where
  "filesync_send_async H Y command_id info fsi data osize =
     io_bind (io_lift (data_bytes data)) (\<lambda>bs.
       (let sz = (case osize of None \<Rightarrow> int (length bs) | Some n \<Rightarrow> n)
        in io_bind (if \<not> can_add_to_send_buffer fsi (length bs)
                    then filesync_flush_async H Y info fsi else io_return fsi) (\<lambda>fsi'.
           io_bind (io_lift (py_lookup FILESYNC_ID_TO_WIRE command_id)) (\<lambda>w.
           io_bind (io_lift (struct_pack [Some w, Some sz])) (\<lambda>hdr.
             io_return (buffer_packet (hdr @ bs) fsi'))))))"

definition read_buffered_body_async ::
  "('w, 'x) host_scheme \<Rightarrow> 'w others \<Rightarrow> int \<Rightarrow> transaction_info \<Rightarrow> filesync_info \<Rightarrow>
     ('w adb_device, (filesync_info, filesync_info) loop_ctl) prog" where
  "read_buffered_body_async H Y n info fsi =
     (if int (length (recv_buffer fsi)) < n then
        io_bind (read_until_async H Y [WRTE] info) (\<lambda>(_, data).
          io_return (Continue (fsi\<lparr>recv_buffer := recv_buffer fsi @ data\<rparr>)))
      else io_return (Break fsi))"

definition filesync_read_buffered_async ::
  "('w, 'x) host_scheme \<Rightarrow> 'w others \<Rightarrow> int \<Rightarrow> transaction_info \<Rightarrow> filesync_info \<Rightarrow>
     ('w adb_device, bytes \<times> filesync_info) prog" where
  "filesync_read_buffered_async H Y n info fsi =
     io_bind (io_loop (read_buffered_body_async H Y n info) fsi) (\<lambda>fsi'.
       io_return (take (nat n) (recv_buffer fsi'),
                  fsi'\<lparr>recv_buffer := drop (nat n) (recv_buffer fsi')\<rparr>))"

definition filesync_read_async ::
  "('w, 'x) host_scheme \<Rightarrow> 'w others \<Rightarrow> cmd list \<Rightarrow> transaction_info \<Rightarrow> filesync_info \<Rightarrow>
     ('w adb_device, fs_packet \<times> filesync_info) prog" where
  "filesync_read_async H Y expected_ids info fsi =
     io_bind (if send_idx fsi \<noteq> 0 then filesync_flush_async H Y info fsi else io_return fsi) (\<lambda>fsi1.
     io_bind (filesync_read_buffered_async H Y (int (recv_message_size fsi1)) info fsi1) (\<lambda>(header_data, fsi2).
     io_bind (io_lift (struct_unpack (recv_message_format fsi2) header_data)) (\<lambda>header.
     io_bind (io_lift (py_lookup FILESYNC_WIRE_TO_ID (hd header))) (\<lambda>command_id.
     io_bind (if command_id \<noteq> STAT then filesync_read_buffered_async H Y (last header) info fsi2
              else io_return ([], fsi2)) (\<lambda>(data, fsi3).
       if command_id \<notin> set expected_ids then
         (if command_id = FAIL then io_raise (AdbCommandFailureException (utf8_decode data))
          else io_raise InvalidResponseError)
       else if command_id = STAT then io_return ((command_id, tl header, None), fsi3)
       else io_return ((command_id, butlast (tl header), Some data), fsi3))))))"

definition filesync_for_body_async ::
  "('w, 'x) host_scheme \<Rightarrow> 'w others \<Rightarrow> cmd list \<Rightarrow> cmd list \<Rightarrow> transaction_info \<Rightarrow>
     (fs_packet \<Rightarrow> 'a \<Rightarrow> ('w adb_device, ('a, 'a) loop_ctl) prog) \<Rightarrow> filesync_info \<times> 'a \<Rightarrow>
     ('w adb_device, (filesync_info \<times> 'a, 'a \<times> filesync_info) loop_ctl) prog" where
  "filesync_for_body_async H Y expected_ids finish_ids info body = (\<lambda>(fsi, acc).
     io_bind (filesync_read_async H Y (expected_ids @ finish_ids) info fsi) (\<lambda>(p, fsi').
       io_bind (body p acc) (\<lambda>ctl.
         case ctl of
           Break a \<Rightarrow> io_return (Break (a, fsi'))
         | Continue a \<Rightarrow>
             if fst p \<in> set finish_ids then io_return (Break (a, fsi'))
             else io_return (Continue (fsi', a)))))"

definition filesync_for_async ::
  "('w, 'x) host_scheme \<Rightarrow> 'w others \<Rightarrow> cmd list \<Rightarrow> cmd list \<Rightarrow> transaction_info \<Rightarrow>
     (fs_packet \<Rightarrow> 'a \<Rightarrow> ('w adb_device, ('a, 'a) loop_ctl) prog) \<Rightarrow> filesync_info \<Rightarrow> 'a \<Rightarrow>
     ('w adb_device, 'a \<times> filesync_info) prog" where
  "filesync_for_async H Y expected_ids finish_ids info body fsi acc =
     io_loop (filesync_for_body_async H Y expected_ids finish_ids info body) (fsi, acc)"

section \<open>Listing and stat\<close>

definition dev_list_async ::
  "('w, 'x) host_scheme \<Rightarrow> 'w others \<Rightarrow> pystr \<Rightarrow> rat option \<Rightarrow> rat \<Rightarrow> ('w adb_device, DeviceFile list) prog" where
  "dev_list_async H Y device_path transport_timeout read_timeout =
     (if device_path = [] then io_raise DevicePathInvalidError
      else require_available
        (io_bind (dev_open_async H Y (bytes_lit ''sync:'') transport_timeout read_timeout None) (\<lambda>info.
         io_bind (new_filesync FILESYNC_LIST_FORMAT) (\<lambda>fsi.
         io_bind (filesync_send_async H Y LIST info fsi (PyStr device_path) None) (\<lambda>fsi1.
         io_bind (filesync_for_async H Y [DENT] [DONE] info list_body fsi1 []) (\<lambda>(files, _).
         io_then (dev_clse_async H Y info) (io_return files)))))))"

definition dev_stat_async ::
  "('w, 'x) host_scheme \<Rightarrow> 'w others \<Rightarrow> pystr \<Rightarrow> rat option \<Rightarrow> rat \<Rightarrow> ('w adb_device, int \<times> int \<times> int) prog" where
  "dev_stat_async H Y device_path transport_timeout read_timeout =
     (if device_path = [] then io_raise DevicePathInvalidError
      else require_available
        (io_bind (dev_open_async H Y (bytes_lit ''sync:'') transport_timeout read_timeout None) (\<lambda>info.
         io_bind (new_filesync FILESYNC_STAT_FORMAT) (\<lambda>fsi.
         io_bind (filesync_send_async H Y STAT info fsi (PyStr device_path) None) (\<lambda>fsi1.
         io_bind (filesync_read_async H Y [STAT] info fsi1) (\<lambda>((_, header, _), _).
         io_bind (io_lift (unpack3 header)) (\<lambda>r.
         io_then (dev_clse_async H Y info) (io_return r))))))))"

section \<open>Pulling\<close>

text \<open>The callback is awaited; whatever it raises is swallowed.\<close>

definition call_progress_async ::
  "'w others \<Rightarrow> 'w progress option \<Rightarrow> pystr \<Rightarrow> int \<Rightarrow> int \<Rightarrow> ('w adb_device, unit) prog" where
  "call_progress_async Y progress device_path n total_bytes =
     (case progress of
        None \<Rightarrow> io_return ()
      | Some callback \<Rightarrow> io_catch (awaiting Y False (callback device_path n total_bytes)) (\<lambda>_. io_return ()))"

definition pull_body_async ::
  "'w others \<Rightarrow> 'w stream \<Rightarrow> 'w progress option \<Rightarrow> pystr \<Rightarrow> int \<Rightarrow> fs_packet \<Rightarrow> unit \<Rightarrow>
     ('w adb_device, (unit, unit) loop_ctl) prog" where
  "pull_body_async Y stream progress device_path total_bytes p u =
     (case p of (cmd_id, _, data) \<Rightarrow>
        if cmd_id = DONE then io_return (Break ())
        else io_then (awaiting Y False (on_world (st_write stream (opt_bytes data))))
          (io_then (call_progress_async Y progress device_path (int (length (opt_bytes data))) total_bytes)
            (io_return (Continue ()))))"

definition pull_data_async ::
  "('w, 'x) host_scheme \<Rightarrow> 'w others \<Rightarrow> pystr \<Rightarrow> 'w stream \<Rightarrow> 'w progress option \<Rightarrow> transaction_info \<Rightarrow>
     filesync_info \<Rightarrow> ('w adb_device, unit) prog" where
  "pull_data_async H Y device_path stream progress info fsi =
     io_bind (case progress of
                None \<Rightarrow> io_return 0
              | Some _ \<Rightarrow> io_bind (dev_stat_async H Y device_path None DEFAULT_READ_TIMEOUT_S)
                            (\<lambda>(_, size, _). io_return size)) (\<lambda>total_bytes.
     io_bind (filesync_send_async H Y RECV info fsi (PyStr device_path) None) (\<lambda>fsi1.
     io_then (filesync_for_async H Y [DATA] [DONE] info (pull_body_async Y stream progress device_path total_bytes) fsi1 ())
       (io_return ())))"

text \<open>\<open>_AsyncBytesIO\<close> has \<open>read\<close> and \<open>write\<close> only: looking up \<open>fileno\<close> raises \<open>AttributeError\<close>.\<close>

definition AsyncBytesIO :: "'w stream \<Rightarrow> 'w stream" where
  "AsyncBytesIO s = s\<lparr>st_fstat_size := io_raise AttributeError\<rparr>"

definition with_stream_async ::
  "'w others \<Rightarrow> (pystr \<Rightarrow> ('w, 'w stream) prog) \<Rightarrow> 'w stream local_path \<Rightarrow> ('w stream \<Rightarrow> ('w adb_device, 'a) prog) \<Rightarrow>
     ('w adb_device, 'a) prog" where
  "with_stream_async Y opener path body =
     (case path of
        LBytesIO s \<Rightarrow> body (AsyncBytesIO s)
      | LPath p \<Rightarrow>
          io_bind (awaiting Y False (on_world (opener p))) (\<lambda>s.
            io_finally (body s) (awaiting Y False (on_world (st_close s)))))"

definition dev_pull_async ::
  "('w, 'x) host_scheme \<Rightarrow> 'w others \<Rightarrow> pystr \<Rightarrow> 'w stream local_path \<Rightarrow> 'w progress option \<Rightarrow> rat option \<Rightarrow> rat \<Rightarrow>
     ('w adb_device, unit) prog" where
  "dev_pull_async H Y device_path local_path progress transport_timeout read_timeout =
     (if device_path = [] then io_raise DevicePathInvalidError
      else require_available
        (with_stream_async Y (open_wb H) local_path (\<lambda>stream.
           io_bind (dev_open_async H Y (bytes_lit ''sync:'') transport_timeout read_timeout None) (\<lambda>info.
           io_bind (new_filesync FILESYNC_PULL_FORMAT) (\<lambda>fsi.
             io_finally (pull_data_async H Y device_path stream progress info fsi) (dev_clse_async H Y info))))))"

section \<open>Pushing\<close>

definition push_chunks_body_async ::
  "('w, 'x) host_scheme \<Rightarrow> 'w others \<Rightarrow> 'w stream \<Rightarrow> pystr \<Rightarrow> 'w progress option \<Rightarrow> int \<Rightarrow> transaction_info \<Rightarrow>
     filesync_info \<Rightarrow> ('w adb_device, (filesync_info, filesync_info) loop_ctl) prog" where
  "push_chunks_body_async H Y stream device_path progress total_bytes info fsi =
     io_bind (io_gets max_chunk_size) (\<lambda>n.
     io_bind (awaiting Y False (on_world (st_read stream n))) (\<lambda>data.
       if data \<noteq> [] then
         io_bind (filesync_send_async H Y DATA info fsi (PyBytes data) None) (\<lambda>fsi'.
         io_then (call_progress_async Y progress device_path (int (length data)) total_bytes)
           (io_return (Continue fsi')))
       else io_return (Break fsi)))"

definition push_chunks_async ::
  "('w, 'x) host_scheme \<Rightarrow> 'w others \<Rightarrow> 'w stream \<Rightarrow> pystr \<Rightarrow> 'w progress option \<Rightarrow> int \<Rightarrow> transaction_info \<Rightarrow>
     filesync_info \<Rightarrow> ('w adb_device, filesync_info) prog" where
  "push_chunks_async H Y stream device_path progress total_bytes info fsi =
     io_loop (push_chunks_body_async H Y stream device_path progress total_bytes info) fsi"

definition push_stream_async ::
  "('w, 'x) host_scheme \<Rightarrow> 'w others \<Rightarrow> 'w stream \<Rightarrow> pystr \<Rightarrow> int \<Rightarrow> int \<Rightarrow> 'w progress option \<Rightarrow>
     transaction_info \<Rightarrow> filesync_info \<Rightarrow> ('w adb_device, unit) prog" where
  "push_stream_async H Y stream device_path st_mode mtime progress info fsi =
     io_bind (io_lift (push_fileinfo device_path st_mode)) (\<lambda>fileinfo.
     io_bind (filesync_send_async H Y SEND info fsi (PyBytes fileinfo) None) (\<lambda>fsi1.
     io_bind (case progress of None \<Rightarrow> io_return 0 | Some _ \<Rightarrow> awaiting Y False (on_world (st_fstat_size stream))) (\<lambda>total_bytes.
     io_bind (push_chunks_async H Y stream device_path progress total_bytes info fsi1) (\<lambda>fsi2.
     io_bind (push_mtime H mtime) (\<lambda>mt.
     io_bind (filesync_send_async H Y DONE info fsi2 (PyBytes []) (Some mt)) (\<lambda>fsi3.
     io_then (filesync_for_async H Y [] [OKAY, FAIL] info push_reply fsi3 ())
       (io_return ())))))))"

fun push_files_async ::
  "('w, 'x) host_scheme \<Rightarrow> 'w others \<Rightarrow> ('w stream local_path \<times> pystr) list \<Rightarrow> int \<Rightarrow> int \<Rightarrow> 'w progress option \<Rightarrow>
     rat option \<Rightarrow> rat \<Rightarrow> ('w adb_device, unit) prog" where
  "push_files_async H Y [] st_mode mtime progress transport_timeout read_timeout = io_return ()"
| "push_files_async H Y ((lpath, dpath) # ps) st_mode mtime progress transport_timeout read_timeout =
     io_bind (with_stream_async Y (open_rb H) lpath (\<lambda>stream.
       io_bind (dev_open_async H Y (bytes_lit ''sync:'') transport_timeout read_timeout None) (\<lambda>info.
       io_bind (new_filesync FILESYNC_PUSH_FORMAT) (\<lambda>fsi.
       io_then (push_stream_async H Y stream dpath st_mode mtime progress info fsi)
         (io_return info))))) (\<lambda>info.
     io_then (dev_clse_async H Y info)
       (push_files_async H Y ps st_mode mtime progress transport_timeout read_timeout))"

definition dev_push_async ::
  "('w, 'x) host_scheme \<Rightarrow> 'w others \<Rightarrow> 'w stream local_path \<Rightarrow> pystr \<Rightarrow> int \<Rightarrow> int \<Rightarrow> 'w progress option \<Rightarrow>
     rat option \<Rightarrow> rat \<Rightarrow> ('w adb_device, unit) prog" where
  "dev_push_async H Y local_path device_path st_mode mtime progress transport_timeout read_timeout =
     (if device_path = [] then io_raise DevicePathInvalidError
      else require_available
        (io_bind (awaiting Y False (on_world (get_files_to_push H local_path device_path)))
          (\<lambda>(is_dir, local_paths, device_paths).
             io_then
               (if is_dir
                then io_then (shell_async H Y (str_lit ''mkdir '' @ device_path) transport_timeout
                                read_timeout None True) (io_return ())
                else io_return ())
               (push_files_async H Y (zip local_paths device_paths) st_mode mtime progress
                  transport_timeout read_timeout))))"

end
