(* ===== verification/Async_Alone.thy ===== *)
theory Async_Alone
  imports Async_File_Sync
begin

text \<open>
  An \<open>AdbDeviceAsync\<close> that only one task uses does what an \<open>AdbDevice\<close> on the same host does, so
  all that is proved of the one holds of the other.
\<close>

section \<open>Connections, streams and services\<close>

lemma dev_close_alone: "dev_close_async H alone = dev_close H"
  by (unfold dev_close_async_def dev_close_def manager_alone, rule refl)

lemma ensure_banner_alone: "ensure_banner_async H alone = ensure_banner H"
  by (unfold ensure_banner_async_def ensure_banner_def waiting_alone, rule refl)

lemma dev_connect_alone: "dev_connect_async H alone = dev_connect H"
  by (intro ext) (unfold dev_connect_async_def dev_connect_def ensure_banner_alone manager_alone, rule refl)

lemma dev_open_alone: "dev_open_async H alone = dev_open H"
  by (intro ext) (unfold dev_open_async_def dev_open_def manager_alone others_run_alone io_bind_return, rule refl)

lemma dev_okay_alone: "dev_okay_async H alone = dev_okay H"
  by (intro ext) (unfold dev_okay_async_def dev_okay_def manager_alone, rule refl)

lemma read_until_alone: "read_until_async H alone = read_until H"
  by (intro ext) (unfold read_until_async_def read_until_def manager_alone dev_okay_alone, rule refl)

lemma dev_clse_alone: "dev_clse_async H alone = dev_clse H"
  by (intro ext) (unfold dev_clse_async_def dev_clse_def manager_alone read_until_alone, rule refl)

lemma read_until_close_body_alone: "read_until_close_body_async H alone = read_until_close_body H"
  by (intro ext) (unfold read_until_close_body_async_def read_until_close_body_def read_until_alone manager_alone, rule refl)

lemma read_until_close_alone: "read_until_close_async H alone = read_until_close H"
  by (intro ext) (unfold read_until_close_async_def read_until_close_def read_until_close_body_alone, rule refl)

lemma streaming_command_alone: "streaming_command_async H alone = streaming_command H"
  by (intro ext) (unfold streaming_command_async_def streaming_command_def dev_open_alone read_until_close_alone, rule refl)

lemma services_alone:
  "dev_service_async H alone = dev_service H"
  "streaming_service_async H alone = streaming_service H"
  by (unfold dev_service_async_def dev_service_def streaming_service_async_def
      streaming_service_def streaming_command_alone) (rule refl)+

lemma commands_alone:
  "exec_out_async H alone = exec_out H"
  "reboot_async H alone = reboot H"
  "root_async H alone = root H"
  "shell_async H alone = shell H"
  "streaming_shell_async H alone = streaming_shell H"
  by (unfold exec_out_async_def exec_out_def reboot_async_def reboot_def root_async_def root_def
      shell_async_def shell_def streaming_shell_async_def streaming_shell_def services_alone dev_open_alone) (rule refl)+

section \<open>File transfer\<close>

lemma filesync_flush_alone: "filesync_flush_async H alone = filesync_flush H"
  by (intro ext) (unfold filesync_flush_async_def filesync_flush_def manager_alone read_until_alone, rule refl)

lemma filesync_send_alone: "filesync_send_async H alone = filesync_send H"
  by (intro ext) (unfold filesync_send_async_def filesync_send_def filesync_flush_alone, rule refl)

lemma filesync_read_buffered_alone: "filesync_read_buffered_async H alone = filesync_read_buffered H"
proof -
  have body: "read_buffered_body_async H alone = read_buffered_body H" for H :: "('w, 'x) host_scheme"
    by (intro ext) (unfold read_buffered_body_async_def read_buffered_body_def read_until_alone, rule refl)
  show ?thesis by (intro ext) (unfold filesync_read_buffered_async_def filesync_read_buffered_def body, rule refl)
qed

lemma filesync_read_alone: "filesync_read_async H alone = filesync_read H"
  by (intro ext) (unfold filesync_read_async_def filesync_read_def filesync_flush_alone filesync_read_buffered_alone, rule refl)

lemma filesync_for_body_alone: "filesync_for_body_async H alone = filesync_for_body H"
  by (intro ext) (unfold filesync_for_body_async_def filesync_for_body_def filesync_read_alone, rule refl)

lemma filesync_for_alone: "filesync_for_async H alone = filesync_for H"
  by (intro ext) (unfold filesync_for_async_def filesync_for_def filesync_for_body_alone, rule refl)

lemma list_stat_alone:
  "dev_list_async H alone = dev_list H"
  "dev_stat_async H alone = dev_stat H"
  by (unfold dev_list_async_def dev_list_def dev_stat_async_def dev_stat_def dev_open_alone
      filesync_send_alone filesync_for_alone filesync_read_alone dev_clse_alone) (rule refl)+

lemma call_progress_alone: "call_progress_async alone = call_progress"
  by (intro ext) (unfold call_progress_async_def call_progress_def waiting_alone, rule refl)

lemma AsyncBytesIO_sel [simp]:
  "st_read (AsyncBytesIO s) = st_read s" "st_write (AsyncBytesIO s) = st_write s" "st_close (AsyncBytesIO s) = st_close s"
  "st_fstat_size (AsyncBytesIO s) = io_raise AttributeError"
  by (simp_all add: AsyncBytesIO_def)

lemma pull_data_alone:
  assumes "st_write s' = st_write s"
  shows "pull_data_async H alone path s' progress info fsi = pull_data H path s progress info fsi"
proof -
  have body: "pull_body_async alone s' progress path n = pull_body s progress path n" for n
    by (intro ext) (unfold pull_body_async_def pull_body_def call_progress_alone assms waiting_alone, rule refl)
  show ?thesis
    by (unfold pull_data_async_def pull_data_def body list_stat_alone filesync_send_alone filesync_for_alone) (rule refl)
qed

lemma dev_pull_alone: "dev_pull_async H alone = dev_pull H"
proof (intro ext)
  fix path and lp :: "'a stream local_path" and progress tt rt d
  note parts = dev_pull_async_def dev_pull_def with_stream_async_def with_stream_def local_path.case
    waiting_alone dev_open_alone dev_clse_alone
  show "dev_pull_async H alone path lp progress tt rt d = dev_pull H path lp progress tt rt d"
  proof (cases lp)
    case (LPath p)
    show ?thesis unfolding LPath parts pull_data_alone [OF refl] ..
  next
    case (LBytesIO s)
    show ?thesis unfolding LBytesIO parts pull_data_alone [OF AsyncBytesIO_sel(2)] ..
  qed
qed

lemma push_stream_alone:
  assumes "st_read s' = st_read s" and "progress \<noteq> None \<Longrightarrow> st_fstat_size s' = st_fstat_size s"
  shows "push_stream_async H alone s' path st_mode mtime progress info fsi =
    push_stream H s path st_mode mtime progress info fsi"
proof -
  have "push_chunks_body_async H alone s' path progress n info = push_chunks_body H s path progress n info" for n
    by (intro ext) (unfold push_chunks_body_async_def push_chunks_body_def call_progress_alone
        filesync_send_alone assms(1) waiting_alone, rule refl)
  then show ?thesis
    using assms(2) by (cases progress)
      (simp_all add: push_stream_async_def push_stream_def push_chunks_async_def push_chunks_def
        filesync_send_alone filesync_for_alone)
qed

text \<open>A \<open>BytesIO\<close> is pushed in the same way as long as no progress is to be reported.\<close>

definition pushed_alike :: "'w stream local_path \<Rightarrow> 'w progress option \<Rightarrow> bool" where
  "pushed_alike path progress \<longleftrightarrow> progress = None \<or> (\<exists>p. path = LPath p)"

lemma push_files_alone:
  "\<forall>(l, _) \<in> set ps. pushed_alike l progress \<Longrightarrow>
     push_files_async H alone ps st_mode mtime progress tt rt = push_files H ps st_mode mtime progress tt rt"
proof (induction ps)
  case (Cons q ps)
  obtain l p where q: "q = (l, p)" by (cases q)
  have alike: "pushed_alike l progress" using Cons.prems q by simp
  have "with_stream_async alone (open_rb H) l (\<lambda>s. io_bind (dev_open H x tt rt None) (\<lambda>info.
        io_bind (new_filesync f) (\<lambda>fsi. io_then (push_stream_async H alone s p st_mode mtime progress info fsi) (io_return info)))) =
      with_stream (open_rb H) l (\<lambda>s. io_bind (dev_open H x tt rt None) (\<lambda>info.
        io_bind (new_filesync f) (\<lambda>fsi. io_then (push_stream H s p st_mode mtime progress info fsi) (io_return info))))" for x f
  proof (cases l)
    case (LBytesIO s)
    with alike have "progress = None" by (simp add: pushed_alike_def)
    then have "push_stream_async H alone (AsyncBytesIO s) p st_mode mtime progress = push_stream H s p st_mode mtime progress"
      by (intro ext push_stream_alone) simp_all
    with LBytesIO show ?thesis by (simp add: with_stream_async_def with_stream_def)
  next
    case (LPath lp)
    have "push_stream_async H alone s p st_mode mtime progress = push_stream H s p st_mode mtime progress" for s
      by (intro ext push_stream_alone) simp_all
    with LPath show ?thesis by (simp add: with_stream_async_def with_stream_def)
  qed
  with Cons q show ?case by (simp add: dev_open_alone dev_clse_alone)
qed simp

lemma dev_push_alone:
  assumes "pushed_alike path progress"
  shows "dev_push_async H alone path device_path st_mode mtime progress tt rt =
    dev_push H path device_path st_mode mtime progress tt rt"
proof -
  have files: "\<forall>(l, _) \<in> set (zip ls ds). pushed_alike l progress"
    if "get_files_to_push H path device_path w = Some (Inr (b, ls, ds), w')" for b ls ds w w'
    using that assms
    by (auto simp: get_files_to_push_def io_bind_eq_Inr run_simps pushed_alike_def dest!: set_zip_leftD
        split: local_path.splits if_splits)
  have "io_bind (on_world (get_files_to_push H path device_path)) (\<lambda>(b, ls, ds). io_then (m b)
      (push_files_async H alone (zip ls ds) st_mode mtime progress tt rt)) d =
    io_bind (on_world (get_files_to_push H path device_path)) (\<lambda>(b, ls, ds). io_then (m b)
      (push_files H (zip ls ds) st_mode mtime progress tt rt)) d" for m :: "bool \<Rightarrow> (_, unit) prog" and d
  proof (cases "get_files_to_push H path device_path (transport_state (io_manager d))")
    case (Some x)
    obtain r w' where x: "x = (r, w')" by (cases x)
    show ?thesis
    proof (cases r)
      case (Inr y)
      obtain b ls ds where y: "y = (b, ls, ds)" by (cases y)
      from push_files_alone [OF files] Some x Inr y
      have "push_files_async H alone (zip ls ds) st_mode mtime progress tt rt =
        push_files H (zip ls ds) st_mode mtime progress tt rt" by blast
      with Some x Inr y show ?thesis
        by (simp add: io_bind_def on_world_def run_on_io on_transport_def io_zoom_def)
    qed (use Some x in \<open>simp add: io_bind_def on_world_def run_on_io on_transport_def io_zoom_def\<close>)
  qed (simp add: io_bind_def on_world_def run_on_io on_transport_def io_zoom_def)
  then have "io_bind (on_world (get_files_to_push H path device_path)) (\<lambda>(b, ls, ds). io_then (m b)
      (push_files_async H alone (zip ls ds) st_mode mtime progress tt rt)) =
    io_bind (on_world (get_files_to_push H path device_path)) (\<lambda>(b, ls, ds). io_then (m b)
      (push_files H (zip ls ds) st_mode mtime progress tt rt))" for m :: "bool \<Rightarrow> (_, unit) prog"
    by blast
  then show ?thesis
    unfolding dev_push_async_def dev_push_def commands_alone by simp
qed

text \<open>C10. Used by one task, \<open>AdbDeviceAsync\<close> does what \<open>AdbDevice\<close> does on the same host: connecting
  and closing, all services, listing, stat and pulling are the same programs, with the same
  results, exceptions and effects. So is pushing from paths, and pushing from a \<open>BytesIO\<close> without
  a progress callback.\<close>

theorem async_device_equivalence:
  fixes H :: "('w, 'x) host_scheme"
  shows "dev_connect_async H alone = dev_connect H \<and> dev_close_async H alone = dev_close H \<and>
    exec_out_async H alone = exec_out H \<and> reboot_async H alone = reboot H \<and> root_async H alone = root H \<and>
    shell_async H alone = shell H \<and> streaming_shell_async H alone = streaming_shell H \<and>
    dev_list_async H alone = dev_list H \<and> dev_stat_async H alone = dev_stat H \<and>
    dev_pull_async H alone = dev_pull H \<and>
    dev_push_async H alone (LPath p) device_path st_mode mtime progress tt rt =
      dev_push H (LPath p) device_path st_mode mtime progress tt rt \<and>
    dev_push_async H alone path device_path st_mode mtime None tt rt =
      dev_push H path device_path st_mode mtime None tt rt"
  by (simp add: dev_connect_alone dev_close_alone commands_alone list_stat_alone dev_pull_alone
      dev_push_alone pushed_alike_def)

end
