(* ===== verification/Async_Streams.thy ===== *)
theory Async_Streams
  imports Tcp_Transport
begin

text \<open>
  What the asynchronous transports use of \<open>asyncio\<close>: a \<open>StreamReader\<close> and a \<open>StreamWriter\<close> over a
  connection of the scripted network. What has arrived is in the buffer of the reader. What has
  been written and the socket has not taken is in the buffer of the writer, and goes out as room
  appears: the buffer is brought up to date whenever it is looked at. Both streams fail once the
  connection is lost. Timeouts are those of \<open>async_timeout\<close>: a timeout that is not positive
  lets only that through which needs no waiting.
\<close>

section \<open>State\<close>

text \<open>
  \<open>writing_paused\<close>: the writer's buffer has been above its high-water mark and not been below its
  low-water mark since.
\<close>

record stream_endpoint = endpoint +
  write_buffer :: bytes
  writing_paused :: bool

text \<open>
  The high-water and the low-water mark of the buffer, and whether the streams have been detached
  from the connection: it has been closed, and will not tell them.
\<close>

record stream_mode =
  high_water :: int
  low_water :: int
  gone :: bool

definition deadline :: "rat option \<Rightarrow> rat option" where
  "deadline timeout = map_option (max 0) timeout"

fun earlier :: "rat option \<Rightarrow> rat option \<Rightarrow> rat option" where
  "earlier None b = b"
| "earlier a None = a"
| "earlier (Some x) (Some y) = Some (min x y)"

section \<open>The reader\<close>

definition arrived :: "rat \<Rightarrow> conn \<Rightarrow> (rat \<times> rx_event) list" where
  "arrived now c = takeWhile (\<lambda>(a, _). a \<le> now) (rx c)"

definition lost :: "rat \<Rightarrow> conn \<Rightarrow> bool" where
  "lost now c \<longleftrightarrow> RxFail \<in> snd ` set (arrived now c)"

text \<open>The bytes up to the end of the stream, and what remains when some of them are taken.\<close>

fun leading_bytes :: "(rat \<times> rx_event) list \<Rightarrow> bytes" where
  "leading_bytes ((a, Data d) # es) = d @ leading_bytes es"
| "leading_bytes _ = []"

fun drop_leading :: "nat \<Rightarrow> (rat \<times> rx_event) list \<Rightarrow> (rat \<times> rx_event) list" where
  "drop_leading n ((a, Data d) # es) =
     (if length d \<le> n then drop_leading (n - length d) es else (a, Data (drop n d)) # es)"
| "drop_leading n es = es"

text \<open>\<open>read(n)\<close> when it need not wait: at most \<open>n\<close> bytes, all of them if \<open>n\<close> is negative.\<close>

definition reader_take :: "int \<Rightarrow> rat \<Rightarrow> conn \<Rightarrow> (exn + bytes) \<times> conn" where
  "reader_take n now c =
     (if lost now c then (Inl OSError, c)
      else (let all = leading_bytes (arrived now c); d = (if n < 0 then all else take (nat n) all)
            in (Inr d, c\<lparr>rx := drop_leading (length d) (rx c)\<rparr>)))"

definition is_data :: "rx_event \<Rightarrow> bool" where
  "is_data e = (case e of Data _ \<Rightarrow> True | _ \<Rightarrow> False)"

definition first_at :: "(rx_event \<Rightarrow> bool) \<Rightarrow> conn \<Rightarrow> rat option" where
  "first_at P c = map_option fst (find (\<lambda>(_, e). P e) (rx c))"

section \<open>The writer\<close>

text \<open>What the socket takes of a buffer until \<open>now\<close>, and what is left of the buffer and of the room.\<close>

fun flush_tx :: "rat \<Rightarrow> (rat \<times> tx_event) list \<Rightarrow> bytes \<Rightarrow> bytes \<times> bytes \<times> (rat \<times> tx_event) list" where
  "flush_tx now [] b = (b, [], [])"
| "flush_tx now ((a, ev) # es) b =
     (if b = [] \<or> now < a then ([], b, (a, ev) # es)
      else case ev of
        TxFail \<Rightarrow> ([], b, (a, ev) # es)
      | Room k \<Rightarrow>
          if length b < k then (b, [], (a, Room (k - length b)) # es)
          else (case flush_tx now es (drop k b) of (s, r, es') \<Rightarrow> (take k b @ s, r, es')))"

text \<open>When a buffer of \<open>n\<close> bytes is down to \<open>low\<close>, or sending it fails.\<close>

fun drained_at :: "int \<Rightarrow> (rat \<times> tx_event) list \<Rightarrow> nat \<Rightarrow> rat" where
  "drained_at low [] n = 0"
| "drained_at low ((a, ev) # es) n =
     (if int n \<le> low then 0
      else case ev of TxFail \<Rightarrow> a | Room k \<Rightarrow> max a (drained_at low es (n - k)))"

fun send_fails_at :: "(rat \<times> tx_event) list \<Rightarrow> nat \<Rightarrow> rat option" where
  "send_fails_at [] n = None"
| "send_fails_at ((a, ev) # es) n =
     (if n = 0 then None
      else case ev of TxFail \<Rightarrow> Some a | Room k \<Rightarrow> map_option (max a) (send_fails_at es (n - k)))"

text \<open>Sending stops when the connection is lost, and an error of sending loses it.\<close>

definition flush_conn :: "rat \<Rightarrow> bytes \<Rightarrow> conn \<Rightarrow> bytes \<times> bytes \<times> conn" where
  "flush_conn now b c =
     (case flush_tx (case first_at (\<lambda>e. e = RxFail) c of None \<Rightarrow> now | Some a \<Rightarrow> min a now) (tx c) b of
        (s, r, es) \<Rightarrow>
          (s, r, c\<lparr>tx := es,
             rx := (if r \<noteq> [] \<and> es \<noteq> [] \<and> snd (hd es) = TxFail \<and> fst (hd es) \<le> now \<and> \<not> lost now c
                    then (fst (hd es), RxFail) # rx c else rx c)\<rparr>))"

definition writer_flushed :: "stream_mode \<Rightarrow> 'x stream_endpoint_scheme \<Rightarrow> 'x stream_endpoint_scheme" where
  "writer_flushed m w =
     (case connection w of
       None \<Rightarrow> w
     | Some c \<Rightarrow>
         if gone m then w
         else (case flush_conn (clock w) (write_buffer w) c of
           (s, r, c') \<Rightarrow> w\<lparr>connection := Some c', sent := sent w @ s, write_buffer := r,
             writing_paused := writing_paused w \<and> low_water m < int (length r)\<rparr>))"

abbreviation flush_writer :: "stream_mode \<Rightarrow> ('x stream_endpoint_scheme, unit) prog" where
  "flush_writer m \<equiv> io_modify (writer_flushed m)"

text \<open>\<open>write\<close>: the socket takes what it can at once; a lost connection drops the data.\<close>

definition writer_write :: "stream_mode \<Rightarrow> bytes \<Rightarrow> ('x stream_endpoint_scheme, unit) prog" where
  "writer_write m data =
     io_then (flush_writer m)
     (io_then (io_modify (\<lambda>w. case connection w of
         None \<Rightarrow> w
       | Some c \<Rightarrow> if lost (clock w) c then w else w\<lparr>write_buffer := write_buffer w @ data\<rparr>))
     (io_then (flush_writer m)
       (io_modify (\<lambda>w. w\<lparr>writing_paused :=
         writing_paused w \<or> \<not> gone m \<and> high_water m < int (length (write_buffer w))\<rparr>))))"

section \<open>Waiting\<close>

text \<open>A wait under \<open>async_timeout.timeout\<close>, with the writer brought up to date after it.\<close>

definition stream_wait ::
  "stream_mode \<Rightarrow> rat option \<Rightarrow> rat option \<Rightarrow> ('x stream_endpoint_scheme, unit) prog" where
  "stream_wait m timeout ready =
     io_bind (wait_until (deadline timeout) ready) (\<lambda>ok.
     io_then (flush_writer m)
       (if ok then io_return () else io_raise TcpTimeoutException))"

definition lost_at :: "bytes \<Rightarrow> conn \<Rightarrow> rat option" where
  "lost_at b c = earlier (first_at (\<lambda>e. e = RxFail) c) (send_fails_at (tx c) (length b))"

text \<open>
  \<open>await reader.read(n)\<close>. A negative \<open>n\<close> reads to the end of the stream; what has arrived before
  a timeout is then lost.
\<close>

definition reader_ready :: "int \<Rightarrow> bytes \<Rightarrow> conn \<Rightarrow> rat option" where
  "reader_ready n b c =
     (if n = 0 then Some 0
      else earlier (if n < 0 then first_at (\<lambda>e. \<not> is_data e) c else rx_ready c) (lost_at b c))"

definition on_connection :: "(rat \<Rightarrow> conn \<Rightarrow> (exn + 'a) \<times> conn) \<Rightarrow> ('x stream_endpoint_scheme, 'a) prog" where
  "on_connection f = io_state (\<lambda>w.
     case connection w of
       None \<Rightarrow> (Inl AttributeError, w)
     | Some c \<Rightarrow> (fst (f (clock w) c), w\<lparr>connection := Some (snd (f (clock w) c))\<rparr>))"

definition stream_read :: "stream_mode \<Rightarrow> int \<Rightarrow> rat option \<Rightarrow> ('x stream_endpoint_scheme, bytes) prog" where
  "stream_read m n timeout =
     io_bind (io_gets (\<lambda>w. (connection w, write_buffer w))) (\<lambda>(conn, b).
       case conn of
         None \<Rightarrow> io_raise AttributeError
       | Some c \<Rightarrow>
           io_then (io_catch (stream_wait m timeout (reader_ready n (if gone m then [] else b) c)) (\<lambda>e.
               io_then (if n < 0 then io_then (on_connection (reader_take n)) (io_return ()) else io_return ())
                 (io_raise e)))
             (on_connection (reader_take n)))"

text \<open>\<open>writer.write(data)\<close> and \<open>await writer.drain()\<close>.\<close>

definition stream_drain :: "stream_mode \<Rightarrow> rat option \<Rightarrow> ('x stream_endpoint_scheme, unit) prog" where
  "stream_drain m timeout =
     io_bind (io_gets (\<lambda>w. (connection w, write_buffer w, writing_paused w))) (\<lambda>(conn, b, paused).
       case conn of
         None \<Rightarrow> io_raise AttributeError
       | Some c \<Rightarrow>
           io_then (if paused
               then stream_wait m timeout
                      (if gone m then None
                       else earlier (Some (drained_at (low_water m) (tx c) (length b))) (first_at (\<lambda>e. e = RxFail) c))
               else io_return ())
             (on_connection (\<lambda>now c'. (if lost now c' then Inl OSError else Inr (), c'))))"

definition stream_write :: "stream_mode \<Rightarrow> bytes \<Rightarrow> rat option \<Rightarrow> ('x stream_endpoint_scheme, int) prog" where
  "stream_write m data timeout =
     io_bind (io_gets connection) (\<lambda>conn.
       case conn of
         None \<Rightarrow> io_raise AttributeError
       | Some _ \<Rightarrow>
           io_then (writer_write m data)
           (io_then (stream_drain m timeout)
             (io_return (int (length data)))))"

text \<open>
  \<open>writer.close()\<close> stops reading, and \<open>await writer.wait_closed()\<close> ends when the buffer has been
  sent or the connection is lost. Nothing ends it if the streams are detached.
\<close>

definition stream_close :: "stream_mode \<Rightarrow> ('x stream_endpoint_scheme, unit) prog" where
  "stream_close m =
     io_then (on_connection (\<lambda>now c. (Inr (), c\<lparr>rx := arrived now c\<rparr>)))
     (io_bind (io_gets (\<lambda>w. case connection w of
         None \<Rightarrow> Some 0
       | Some c \<Rightarrow>
           if lost (clock w) c then Some 0
           else if gone m then None else Some (drained_at 0 (tx c) (length (write_buffer w))))) (\<lambda>ready.
      io_then (stream_wait m None ready)
        (on_connection (\<lambda>now c. (if lost now c then Inl OSError else Inr (), c)))))"

text \<open>\<open>asyncio.open_connection\<close>, which always waits. The streams of a new connection are empty.\<close>

definition stream_open :: "address \<Rightarrow> rat option \<Rightarrow> ('x stream_endpoint_scheme, unit) prog" where
  "stream_open address timeout =
     io_bind (io_gets dials) (\<lambda>ds.
     io_then (io_modify (\<lambda>w. w\<lparr>dials := ds(address := tl (ds address))\<rparr>))
       (if (case timeout of None \<Rightarrow> False | Some t \<Rightarrow> t \<le> 0) then io_raise TcpTimeoutException
        else case ds address of
          [] \<Rightarrow> io_raise OSError
        | (a, outcome) # _ \<Rightarrow>
            io_bind (wait_until timeout (Some a)) (\<lambda>ok.
              if \<not> ok \<or> outcome = Inl SocketTimeout then io_raise TcpTimeoutException
              else io_bind (io_lift outcome) (\<lambda>c.
                io_modify (\<lambda>w. w\<lparr>connection := Some (c\<lparr>sock_timeout := Some 0\<rparr>), write_buffer := [],
                  writing_paused := False\<rparr>)))))"

definition streams_reset :: "('x stream_endpoint_scheme, unit) prog" where
  "streams_reset = io_modify (\<lambda>w. w\<lparr>connection := None, write_buffer := [], writing_paused := False\<rparr>)"

section \<open>No byte is lost\<close>

text \<open>What the writer has accepted: it has been sent or is in the buffer.\<close>

definition stream_output :: "'x stream_endpoint_scheme \<Rightarrow> bytes" where
  "stream_output w = sent w @ write_buffer w"

lemma flush_tx_bytes: "flush_tx now es b = (s, r, es') \<Longrightarrow> s @ r = b"
proof (induction now es b arbitrary: s r rule: flush_tx.induct)
  case (2 now a ev es b)
  then show ?case by (auto split: if_splits tx_event.splits prod.splits)
qed simp

lemma flush_conn_bytes: "flush_conn now b c = (s, r, c') \<Longrightarrow> s @ r = b \<and> conn_input c' = conn_input c"
  by (auto simp: flush_conn_def conn_input_def split: prod.splits option.splits if_splits dest!: flush_tx_bytes)

lemma leading_bytes_drop:
  "k \<le> length (leading_bytes (takeWhile P es)) \<Longrightarrow>
     concat (map (\<lambda>(_, ev). event_bytes ev) es) =
       take k (leading_bytes (takeWhile P es)) @ concat (map (\<lambda>(_, ev). event_bytes ev) (drop_leading k es))"
proof (induction k es rule: drop_leading.induct)
  case (1 k a d es)
  then show ?case by (cases "P (a, Data d)") auto
qed auto

lemma reader_take_input:
  assumes "reader_take n now c = (r, c')"
  shows "case r of Inr d \<Rightarrow> conn_input c = d @ conn_input c' \<and> (0 \<le> n \<longrightarrow> int (length d) \<le> n)
    | Inl e \<Rightarrow> c' = c \<and> e = OSError"
proof (cases "lost now c")
  case False
  define all where "all = leading_bytes (arrived now c)"
  define d where "d = (if n < 0 then all else take (nat n) all)"
  have r: "r = Inr d" "c' = c\<lparr>rx := drop_leading (length d) (rx c)\<rparr>"
    using assms False by (auto simp: reader_take_def Let_def d_def all_def)
  have "length d \<le> length all" and "take (length d) all = d" by (auto simp: d_def min_def)
  then have "conn_input c = d @ conn_input c'"
    using leading_bytes_drop [of "length d" "\<lambda>(a, _). a \<le> now" "rx c"]
    unfolding conn_input_def r all_def arrived_def by simp
  then show ?thesis by (auto simp: r d_def)
qed (use assms in \<open>auto simp: reader_take_def\<close>)

lemma writer_flushed_same [simp]:
  "endpoint_input (writer_flushed m w) = endpoint_input w" "stream_output (writer_flushed m w) = stream_output w"
  "clock (writer_flushed m w) = clock w"
  "connection (writer_flushed m w) = None \<longleftrightarrow> connection w = None"
  by (auto simp: writer_flushed_def endpoint_input_def stream_output_def split: option.split prod.split dest!: flush_conn_bytes)

text \<open>What a call on the streams may change: time passes, and bytes move from the buffer to the socket.\<close>

definition streams_same :: "'x stream_endpoint_scheme \<Rightarrow> 'x stream_endpoint_scheme \<Rightarrow> bool" where
  "streams_same w w' \<longleftrightarrow> endpoint_input w' = endpoint_input w \<and> stream_output w' = stream_output w \<and>
     clock w \<le> clock w' \<and> (connection w' = None \<longleftrightarrow> connection w = None)"

lemma streams_same_refl [simp]: "streams_same w w"
  by (simp add: streams_same_def)

lemma streams_same_trans: "streams_same w w1 \<Longrightarrow> streams_same w1 w2 \<Longrightarrow> streams_same w w2"
  by (auto simp: streams_same_def)

lemma streams_same_flushed: "streams_same w w' \<Longrightarrow> streams_same w (writer_flushed m w')"
  by (simp add: streams_same_def)

lemma clock_same [simp]:
  "stream_output (w\<lparr>clock := x\<rparr>) = stream_output w" "stream_output (w\<lparr>connection := c\<rparr>) = stream_output w"
  by (simp_all add: stream_output_def)

lemma deadline_Some: "deadline (Some t) = Some (max 0 t)"
  by (simp add: deadline_def)

lemma stream_wait_same:
  "wp False (stream_wait m timeout ready) (\<lambda>_ w'. streams_same w w')
     (\<lambda>e w'. e = TcpTimeoutException \<and> streams_same w w') (w :: 'x stream_endpoint_scheme)"
proof -
  have "wp False (wait_until (deadline timeout) ready)
      (\<lambda>_ w'. streams_same w w') (\<lambda>_ _. False) w"
    by (auto simp: wp_def wait_until_def deadline_def streams_same_def max_def split: option.split)
  then show ?thesis
    unfolding stream_wait_def wp_bind
    by (rule wp_mono) (auto simp: wp_simps streams_same_flushed)
qed

lemma stream_wait_ends:
  "wp True (stream_wait m (Some t) ready) (\<lambda>_ w'. clock w \<le> clock w') (\<lambda>_ w'. clock w \<le> clock w')
     (w :: 'x stream_endpoint_scheme)"
  unfolding stream_wait_def wp_bind deadline_Some
  by (rule wp_mono [OF wait_ends]) (auto simp: wp_simps)

lemma wp_on_connection [wp_simps]:
  "wp t (on_connection f) Q E w =
     (case connection w of
        None \<Rightarrow> E AttributeError w
      | Some c \<Rightarrow> (case f (clock w) c of
           (Inl e, c') \<Rightarrow> E e (w\<lparr>connection := Some c'\<rparr>)
         | (Inr x, c') \<Rightarrow> Q x (w\<lparr>connection := Some c'\<rparr>)))"
  by (auto simp: on_connection_def wp_simps split: option.split prod.split sum.split)

lemma stream_read_law:
  assumes "0 < n"
  shows "wp False (stream_read m n t)
     (\<lambda>d w'. int (length d) \<le> n \<and> endpoint_input w = d @ endpoint_input w' \<and> stream_output w' = stream_output w)
     (\<lambda>e w'. endpoint_input w' = endpoint_input w \<and> stream_output w' = stream_output w \<and> \<not> malformed e)
     (w :: 'x stream_endpoint_scheme)"
proof (cases "connection w")
  case None
  then show ?thesis by (simp add: stream_read_def wp_simps malformed_def)
next
  case (Some c)
  have take: "case reader_take n now c1 of
      (Inl e, c2) \<Rightarrow> conn_input c2 = conn_input c1 \<and> \<not> malformed e
    | (Inr d, c2) \<Rightarrow> conn_input c1 = d @ conn_input c2 \<and> int (length d) \<le> n" for now c1
    using reader_take_input [of n now c1] assms by (auto simp: malformed_def split: prod.split sum.splits)
  show ?thesis
    unfolding stream_read_def wp_bind wp_gets prod.case Some option.case wp_catch
  proof (rule wp_mono [OF stream_wait_same])
    fix w1 :: "'x stream_endpoint_scheme" assume same: "streams_same w w1"
    then obtain c1 where c1: "connection w1 = Some c1" using Some by (auto simp: streams_same_def)
    from same take [of c1 "clock w1"] c1
    show "wp False (on_connection (reader_take n))
        (\<lambda>d w'. int (length d) \<le> n \<and> endpoint_input w = d @ endpoint_input w' \<and> stream_output w' = stream_output w)
        (\<lambda>e w'. endpoint_input w' = endpoint_input w \<and> stream_output w' = stream_output w \<and> \<not> malformed e) w1"
      by (auto simp: wp_on_connection streams_same_def endpoint_input_def split: prod.splits sum.splits)
  qed (use assms in \<open>auto simp: wp_simps streams_same_def malformed_def\<close>)
qed

text \<open>A loss of the connection is final.\<close>

definition streams_lost :: "'x stream_endpoint_scheme \<Rightarrow> bool" where
  "streams_lost w \<longleftrightarrow> (\<exists>c. connection w = Some c \<and> lost (clock w) c)"

lemma lost_later: "lost now c \<Longrightarrow> now \<le> later \<Longrightarrow> lost later c"
proof -
  assume "lost now c" "now \<le> later"
  moreover have "set (takeWhile (\<lambda>(a, _). a \<le> now) es) \<subseteq> set (takeWhile (\<lambda>(a, _). a \<le> later) es)"
    if "now \<le> later" for es :: "(rat \<times> rx_event) list"
    using that by (induction es) auto
  ultimately show ?thesis unfolding lost_def arrived_def by blast
qed

lemma lost_flush: "lost now c \<Longrightarrow> lost now (snd (snd (flush_conn now b c)))"
  by (auto simp: flush_conn_def lost_def arrived_def split: prod.split)

lemma streams_lost_flushed: "streams_lost w \<Longrightarrow> streams_lost (writer_flushed m w)"
proof -
  assume "streams_lost w"
  then obtain c where c: "connection w = Some c" "lost (clock w) c" by (auto simp: streams_lost_def)
  obtain s r c' where f: "flush_conn (clock w) (write_buffer w) c = (s, r, c')"
    by (cases "flush_conn (clock w) (write_buffer w) c") auto
  from lost_flush [OF c(2), of "write_buffer w"] f c show ?thesis
    by (simp add: streams_lost_def writer_flushed_def)
qed

lemma streams_lost_wait:
  assumes "streams_lost w"
  shows "wp False (stream_wait m timeout ready) (\<lambda>_ w'. streams_lost w') (\<lambda>_ _. True) (w :: 'x stream_endpoint_scheme)"
proof -
  have "wp False (wait_until (deadline timeout) ready) (\<lambda>_ w'. clock w \<le> clock w' \<and> connection w' = connection w)
      (\<lambda>_ _. True) w"
    by (rule wp_mono [OF wait_keeps]) auto
  then have "wp False (wait_until (deadline timeout) ready) (\<lambda>_ w'. streams_lost w') (\<lambda>_ _. True) w"
    by (rule wp_mono) (use assms in \<open>auto simp: streams_lost_def dest: lost_later\<close>)
  then show ?thesis
    unfolding stream_wait_def wp_bind
    by (rule wp_mono) (simp_all add: wp_simps streams_lost_flushed)
qed

text \<open>Writing adds all of the data to what the writer has accepted, unless the connection is lost.\<close>

lemma stream_update_same [simp]:
  "endpoint_input (w\<lparr>write_buffer := b\<rparr>) = endpoint_input w" "endpoint_input (w\<lparr>writing_paused := p\<rparr>) = endpoint_input w"
  "stream_output (w\<lparr>writing_paused := p\<rparr>) = stream_output w" "stream_output (w\<lparr>write_buffer := b\<rparr>) = sent w @ b"
  "streams_lost (w\<lparr>writing_paused := p\<rparr>) = streams_lost w"
  by (simp_all add: endpoint_input_def stream_output_def streams_lost_def)

lemma writer_write_wp:
  assumes "connection w \<noteq> None"
  shows "wp True (writer_write m data) (\<lambda>_ w'. endpoint_input w' = endpoint_input w \<and> clock w' = clock w \<and>
     connection w' \<noteq> None \<and>
     (stream_output w' = stream_output w @ data \<or> stream_output w' = stream_output w \<and> streams_lost w'))
   (\<lambda>_ _. False) (w :: 'x stream_endpoint_scheme)"
proof -
  define w1 where "w1 = writer_flushed m w"
  have w1: "endpoint_input w1 = endpoint_input w" "stream_output w1 = stream_output w" "clock w1 = clock w"
    by (simp_all add: w1_def)
  obtain c where c: "connection w1 = Some c" using assms by (fastforce simp: w1_def)
  define w2 where "w2 = (if lost (clock w1) c then w1 else w1\<lparr>write_buffer := write_buffer w1 @ data\<rparr>)"
  have w2: "endpoint_input w2 = endpoint_input w \<and> clock w2 = clock w \<and> connection w2 \<noteq> None \<and>
     (stream_output w2 = stream_output w @ data \<or> stream_output w2 = stream_output w \<and> streams_lost w2)"
    using w1 c by (simp add: w2_def streams_lost_def) (simp add: stream_output_def)
  have step: "(case connection w1 of None \<Rightarrow> w1
      | Some c \<Rightarrow> if lost (clock w1) c then w1 else w1\<lparr>write_buffer := write_buffer w1 @ data\<rparr>) = w2"
    using c by (simp add: w2_def)
  show ?thesis
    unfolding writer_write_def wp_bind wp_modify w1_def [symmetric] step
    using w2 by (auto simp: streams_lost_flushed)
qed

text \<open>\<open>drain\<close> returns only if the connection is not lost.\<close>

lemma stream_drain_law:
  "wp False (stream_drain m t) (\<lambda>_ w'. streams_same w w' \<and> \<not> streams_lost w) (\<lambda>_ w'. streams_same w w')
     (w :: 'x stream_endpoint_scheme)"
proof (cases "connection w")
  case None
  then show ?thesis by (simp add: stream_drain_def wp_simps)
next
  case (Some c)
  have wait: "wp False (stream_wait m t ready)
      (\<lambda>_ w'. streams_same w w' \<and> (streams_lost w \<longrightarrow> streams_lost w')) (\<lambda>_ w'. streams_same w w') w" for ready
    by (cases "streams_lost w")
      (auto intro: wp_mono [OF wp_conj [OF stream_wait_same streams_lost_wait]] wp_mono [OF stream_wait_same])
  have check: "wp False (on_connection (\<lambda>now c'. (if lost now c' then Inl OSError else Inr (), c')))
      (\<lambda>_ w'. streams_same w w' \<and> \<not> streams_lost w) (\<lambda>_ w'. streams_same w w') w1"
    if "streams_same w w1 \<and> (streams_lost w \<longrightarrow> streams_lost w1)" for w1 :: "'x stream_endpoint_scheme"
    using that by (cases "connection w1")
      (auto simp: wp_on_connection streams_same_def streams_lost_def endpoint_input_def stream_output_def)
  show ?thesis
    unfolding stream_drain_def wp_bind wp_gets prod.case Some option.case wp_if
    by (auto simp: wp_return intro!: wp_mono [OF wait] check)
qed

lemma stream_write_law:
  "wp False (stream_write m d t)
     (\<lambda>k w'. k = int (length d) \<and> stream_output w' = stream_output w @ d \<and> endpoint_input w' = endpoint_input w)
     (\<lambda>e w'. (\<exists>k. stream_output w' = stream_output w @ take k d) \<and> endpoint_input w' = endpoint_input w)
     (w :: 'x stream_endpoint_scheme)"
proof (cases "connection w")
  case None
  then show ?thesis by (auto simp: stream_write_def wp_simps intro: exI [of _ 0])
next
  case (Some c)
  have put: "wp False (writer_write m d) (\<lambda>_ w'. endpoint_input w' = endpoint_input w \<and>
     (stream_output w' = stream_output w @ d \<or> stream_output w' = stream_output w \<and> streams_lost w')) (\<lambda>_ _. False) w"
    using writer_write_wp [of w m d] Some by (auto simp: wp_total_iff intro: wp_mono)
  show ?thesis
    unfolding stream_write_def wp_bind wp_gets Some option.case
    by (rule wp_mono [OF put]) (auto simp: wp_return streams_same_def intro!: wp_mono [OF stream_drain_law]
        intro: exI [of _ 0] exI [of _ "length d"])
qed

text \<open>With a timeout every call returns, and so does closing a connection that tells the streams.\<close>

lemma stream_ends:
  fixes w :: "'x stream_endpoint_scheme"
  defines "later \<equiv> \<lambda>w'. clock w \<le> clock (w' :: 'x stream_endpoint_scheme)"
  shows "wp True (stream_read m n (Some t)) (\<lambda>_. later) (\<lambda>_. later) w"
    and "wp True (stream_write m d (Some t)) (\<lambda>_. later) (\<lambda>_. later) w"
    and "wp True (stream_open a (Some t)) (\<lambda>_. later) (\<lambda>_. later) w"
    and "\<not> gone m \<Longrightarrow> wp True (stream_close m) (\<lambda>_. later) (\<lambda>_. later) w"
proof -
  have now: "later w" by (simp add: later_def)
  have wait: "wp True (stream_wait m (Some t) r) (\<lambda>_. later) (\<lambda>_. later) w1" if "later w1" for r and w1
    by (rule wp_mono [OF stream_wait_ends]) (use that in \<open>auto simp: later_def\<close>)
  have conn: "wp True (on_connection f) (\<lambda>_. later) (\<lambda>_. later) w1" if "later w1" for w1 and f :: "rat \<Rightarrow> conn \<Rightarrow> (exn + 'b) \<times> conn"
    using that by (auto simp: wp_on_connection later_def split: option.split prod.split sum.split)
  show "wp True (stream_read m n (Some t)) (\<lambda>_. later) (\<lambda>_. later) w"
    unfolding stream_read_def wp_bind wp_gets prod.case
    by (auto simp: wp_raise wp_catch wp_bind wp_if wp_return now split: option.split
        intro!: wp_mono [OF wait] wp_mono [OF conn] conn)
  have drain: "wp True (stream_drain m (Some t)) (\<lambda>_. later) (\<lambda>_. later) w1" if "later w1" for w1
    unfolding stream_drain_def wp_bind wp_gets prod.case using that
    by (auto simp: wp_raise wp_bind wp_if wp_return split: option.split intro!: wp_mono [OF wait] conn)
  show "wp True (stream_write m d (Some t)) (\<lambda>_. later) (\<lambda>_. later) w"
  proof (cases "connection w")
    case (Some c)
    with drain show ?thesis
      unfolding stream_write_def wp_bind wp_gets Some option.case
      by (auto simp: wp_return later_def Some intro!: wp_mono [OF writer_write_wp] wp_mono [OF drain])
  qed (simp add: stream_write_def wp_simps later_def)
  have wait_net: "wp True (wait_until (Some t) r) (\<lambda>_. later) (\<lambda>_. later) w1" if "clock w1 = clock w" for r w1
    by (rule wp_mono [OF wait_ends]) (use that in \<open>auto simp: later_def\<close>)
  show "wp True (stream_open a (Some t)) (\<lambda>_. later) (\<lambda>_. later) w"
    unfolding stream_open_def wp_bind wp_gets wp_modify wp_if
    by (auto simp: wp_simps later_def split: list.split sum.split
        intro!: wp_mono [OF wait_net [unfolded later_def]])
  have flush: "wp True (stream_wait m None (Some r)) (\<lambda>_. later) (\<lambda>_. later) w1" if "later w1" for r w1
  proof -
    have "wp True (wait_until (deadline None) (Some r)) (\<lambda>_ w'. clock w1 \<le> clock w') (\<lambda>_ _. False) w1"
      by (simp add: wp_def wait_until_def deadline_def)
    then show ?thesis
      unfolding stream_wait_def wp_bind
      by (rule wp_mono) (use that in \<open>auto simp: later_def wp_simps\<close>)
  qed
  show "wp True (stream_close m) (\<lambda>_. later) (\<lambda>_. later) w" if "\<not> gone m"
    unfolding stream_close_def wp_bind
  proof (rule wp_mono [OF conn [OF now]])
    fix w1 :: "'x stream_endpoint_scheme" assume l: "later w1"
    show "wp True (io_gets (\<lambda>w. case connection w of None \<Rightarrow> Some 0
          | Some c \<Rightarrow> if lost (clock w) c then Some 0
              else if gone m then None else Some (drained_at 0 (tx c) (length (write_buffer w)))))
        (\<lambda>ready. wp True (stream_wait m None ready)
          (\<lambda>_. wp True (on_connection (\<lambda>now c. (if lost now c then Inl OSError else Inr (), c))) (\<lambda>_. later) (\<lambda>_. later))
          (\<lambda>_. later)) (\<lambda>_. later) w1"
      unfolding wp_gets using that
      by (auto split: option.split intro!: wp_mono [OF flush [OF l]] conn)
  qed
qed

end
