(* ===== verification/Async_Reads.thy ===== *)
theory Async_Reads
  imports Async_Manager IO_Manager_Live Adb_Device_Spec
begin

text \<open>
  Tasks that share one \<open>AdbDeviceAsync\<close>. What \<open>_AdbIOManagerAsync.read\<close> does while other tasks
  run at each point where it waits is stated in the style of rely and guarantee: the others may
  take packets off the wire between two reads, but they file those of this task, and they leave
  the wire alone while this task holds the transport lock. A read keeps to the same towards the
  others.
\<close>

section \<open>Accounting for the packets of a stream\<close>

text \<open>What the packets \<open>ps\<close> bring for the stream \<open>k\<close>, and what the returned packet takes from it.\<close>

definition entries :: "packet list \<Rightarrow> int \<times> int \<Rightarrow> entry list" where
  "entries ps k = map (\<lambda>(c, a, b, x). (c, x)) (filter (\<lambda>(c, a, b, x). (a, b) = k) ps)"

definition entry_of :: "packet option \<Rightarrow> int \<times> int \<Rightarrow> entry list" where
  "entry_of r k = (case r of None \<Rightarrow> [] | Some p \<Rightarrow> entries [p] k)"

text \<open>The device sends nothing more on a stream that it has closed.\<close>

definition closed_last :: "entry list \<Rightarrow> bool" where
  "closed_last es \<longleftrightarrow> CLSE \<notin> fst ` set (butlast es)"

text \<open>
  \<open>before\<close> is what a stream has had in the store and what has arrived for it, \<open>got\<close> is what its
  transaction has got of it and \<open>after\<close> what is in the store now. Packets with an unexpected command
  have been skipped, and at most the packet that closes the stream has been lost.
\<close>

definition stream_account :: "cmd list \<Rightarrow> entry list \<Rightarrow> entry list \<Rightarrow> entry list \<Rightarrow> bool" where
  "stream_account cmds before got after \<longleftrightarrow>
     (\<exists>skipped lost. (\<forall>e \<in> set skipped. fst e \<notin> set cmds) \<and> (lost = [] \<or> (\<exists>x. lost = [(CLSE, x)])) \<and>
        before = skipped @ got @ after @ lost)"

text \<open>
  A transaction that claims the streams \<open>C\<close> and looks for the commands \<open>cmds\<close> has got \<open>r\<close>, while
  the packets \<open>ps\<close> arrived, and the other streams in \<open>U\<close> have got theirs.
\<close>

definition accounted ::
  "cmd list \<Rightarrow> (int \<times> int \<Rightarrow> bool) \<Rightarrow> (int \<times> int \<Rightarrow> bool) \<Rightarrow> packet option \<Rightarrow> packet list \<Rightarrow> store \<Rightarrow> store \<Rightarrow> bool" where
  "accounted cmds C U r ps s s' \<longleftrightarrow> store_ok s' \<and>
     (\<forall>k. C k \<and> closed_last (queue_of s k @ entries ps k) \<longrightarrow>
        stream_account cmds (queue_of s k @ entries ps k) (entry_of r k) (queue_of s' k)) \<and>
     (\<forall>k. U k \<and> \<not> C k \<longrightarrow> store_abs s' k = stream_puts ps k (store_abs s k))"

lemma entries_simps [simp]:
  "entries [] k = []" "entries (ps @ qs) k = entries ps k @ entries qs k"
  "entry_of None k = []" "entries [(c, a, b, x)] k = (if (a, b) = k then [(c, x)] else [])"
  by (simp_all add: entries_def entry_of_def)

lemma closed_last_append: "closed_last (xs @ ys) \<Longrightarrow> closed_last xs \<and> closed_last ys"
  by (cases "ys = []") (auto simp: closed_last_def butlast_append dest: in_set_butlastD)

lemma accountedI:
  assumes "store_ok s'"
    and "\<And>k. C k \<Longrightarrow> closed_last (queue_of s k @ entries ps k) \<Longrightarrow>
      stream_account cmds (queue_of s k @ entries ps k) (entry_of r k) (queue_of s' k)"
    and "\<And>k. U k \<Longrightarrow> \<not> C k \<Longrightarrow> store_abs s' k = stream_puts ps k (store_abs s k)"
  shows "accounted cmds C U r ps s s'"
  using assms unfolding accounted_def by blast

lemma accountedD:
  assumes "accounted cmds C U r ps s s'"
  shows "store_ok s'"
    and "C k \<Longrightarrow> closed_last (queue_of s k @ entries ps k) \<Longrightarrow>
      stream_account cmds (queue_of s k @ entries ps k) (entry_of r k) (queue_of s' k)"
    and "U k \<Longrightarrow> \<not> C k \<Longrightarrow> store_abs s' k = stream_puts ps k (store_abs s k)"
  using assms unfolding accounted_def by blast+

lemma closed_last_lost:
  assumes "closed_last (xs @ [(CLSE, x)] @ ys)"
  shows "ys = [] \<and> CLSE \<notin> fst ` set xs"
  using assms by (cases ys rule: rev_cases) (auto simp: closed_last_def butlast_append)

lemma stream_account_simps [simp]:
  "stream_account cmds es [] es" "stream_account cmds (got @ es) got es"
  unfolding stream_account_def by (rule exI [of _ "[]"]; simp)+

lemma stream_account_skip: "fst e \<notin> set cmds \<Longrightarrow> stream_account cmds (e # es) [] es"
  unfolding stream_account_def by (rule exI [of _ "[e]"]) auto

lemma stream_account_trans:
  assumes "stream_account cmds es [] q" and "closed_last (q @ fs) \<Longrightarrow> stream_account cmds (q @ fs) got q'"
    and last: "closed_last (es @ fs)"
  shows "stream_account cmds (es @ fs) got q'"
proof -
  obtain sk lost where sk: "\<forall>e \<in> set sk. fst e \<notin> set cmds" "lost = [] \<or> (\<exists>x. lost = [(CLSE, x)])"
    "es = sk @ q @ lost"
    using assms(1) by (auto simp: stream_account_def)
  have "lost = [] \<or> (\<exists>x. lost = [(CLSE, x)]) \<and> fs = [] \<and> CLSE \<notin> fst ` set q"
    using sk(2,3) last closed_last_lost [of "sk @ q" _ fs] by auto
  moreover have "closed_last (q @ fs)" if "lost = [] \<or> fs = [] \<and> CLSE \<notin> fst ` set q"
    using that
  proof
    assume "lost = []"
    with last sk(3) show ?thesis using closed_last_append [of sk "q @ fs"] by simp
  qed (auto simp: closed_last_def dest: in_set_butlastD)
  ultimately obtain tk lost' where tk: "\<forall>e \<in> set tk. fst e \<notin> set cmds" "lost' = [] \<or> (\<exists>x. lost' = [(CLSE, x)])"
    "q @ fs = tk @ got @ q' @ lost'"
    using assms(2) unfolding stream_account_def by blast
  show ?thesis
  proof (cases "lost = []")
    case True
    with sk tk show ?thesis
      unfolding stream_account_def by (intro exI [of _ "sk @ tk"] exI [of _ lost']) auto
  next
    case False
    with sk(2,3) last closed_last_lost [of "sk @ q" _ fs] have fs: "fs = []" and no: "CLSE \<notin> fst ` set q" by auto
    with tk(2,3) have "lost' = []" by auto
    with sk tk fs show ?thesis
      unfolding stream_account_def by (intro exI [of _ "sk @ tk"] exI [of _ lost]) auto
  qed
qed

lemma accounted_refl: "store_ok s \<Longrightarrow> accounted cmds C U None [] s s"
  by (simp add: accounted_def)

lemma accounted_trans:
  assumes "accounted cmds C U None ps s s1" and "accounted cmds C U r qs s1 s2"
  shows "accounted cmds C U r (ps @ qs) s s2"
proof (rule accountedI)
  fix k assume C: "C k" and last: "closed_last (queue_of s k @ entries (ps @ qs) k)"
  then have "closed_last (queue_of s k @ entries ps k)"
    using closed_last_append [of "queue_of s k @ entries ps k" "entries qs k"] by simp
  from accountedD(2) [OF assms(1) C this] accountedD(2) [OF assms(2) C] last
  show "stream_account cmds (queue_of s k @ entries (ps @ qs) k) (entry_of r k) (queue_of s2 k)"
    using stream_account_trans [of cmds "queue_of s k @ entries ps k" "queue_of s1 k" "entries qs k"] by simp
qed (use accountedD [OF assms(1)] accountedD [OF assms(2)] in \<open>simp_all add: stream_puts_append\<close>)

section \<open>The store\<close>

lemma store_get_accounted:
  assumes ok: "store_ok s" and found: "store_lookup info z s = Some (a, b)"
    and get: "store_get (Some a) (Some b) s = (Inr (c, a, b, x), s')"
  shows "accounted cmds (claims info z) U (Some (c, a, b, x)) [] s s'"
    and "c \<notin> set cmds \<Longrightarrow> accounted cmds (claims info z) U None [] s s'" and "store_ok s'"
proof -
  have cl: "claims info z (a, b)" and "pending s a b"
    using store_lookup_sound [OF ok found] by simp_all
  then obtain c1 x1 q where q: "store_abs s (a, b) = Some ((c1, x1) # q)"
    by (auto simp: pending_def)
  have r: "c1 = c" "x1 = x" using ps.fst_get [OF q] get by simp_all
  have abs: "store_abs s' = (if c = CLSE then (store_abs s)((a, b) := None) else (store_abs s)((a, b) \<mapsto> q))"
    using ps.abs_get [OF q] get r by simp
  show ok': "store_ok s'" using ps.ok_get [OF ok] q get by (metis snd_conv)
  have queue: "queue_of s k = entry_of (Some (c, a, b, x)) k @ queue_of s' k"
    if "closed_last (queue_of s k)" for k
    using that q by (auto simp: queue_of_def abs r closed_last_def entry_of_def split: if_splits)
  have other: "store_abs s' k = store_abs s k" if "\<not> claims info z k" for k
    using that cl by (auto simp: abs)
  show "accounted cmds (claims info z) U (Some (c, a, b, x)) [] s s'"
  proof (rule accountedI [OF ok'])
    fix k assume "closed_last (queue_of s k @ entries [] k)"
    then show "stream_account cmds (queue_of s k @ entries [] k) (entry_of (Some (c, a, b, x)) k) (queue_of s' k)"
      using queue [of k] by simp
  qed (use other in auto)
  show "accounted cmds (claims info z) U None [] s s'" if "c \<notin> set cmds"
  proof (rule accountedI [OF ok'])
    fix k assume "closed_last (queue_of s k @ entries [] k)"
    with queue [of k] that show "stream_account cmds (queue_of s k @ entries [] k) (entry_of None k) (queue_of s' k)"
      by (auto simp: entry_of_def intro: stream_account_skip)
  qed (use other in auto)
qed

lemma store_read_accounted:
  assumes "store_ok s"
  shows "\<exists>r s'. store_read cmds info z s = (Inr r, s') \<and> accounted cmds (claims info z) U r [] s s' \<and>
     (case r of None \<Rightarrow> nothing_pending info z s'
      | Some p \<Rightarrow> fst p \<in> set cmds \<and> claims info z (fst (snd p), fst (snd (snd p))))"
  using assms
proof (induction cmds info z s rule: store_read.induct)
  case (1 cmds info z s)
  show ?case
  proof (cases "store_lookup info z s")
    case None
    then have "nothing_pending info z s"
      using 1(2) store_lookup_complete by (fastforce simp: nothing_pending_def pending_queue)
    with None show ?thesis
      using 1(2) by (auto simp: store_read.simps [of cmds info z s] accounted_refl)
  next
    case (Some k)
    obtain a b where k: "k = (a, b)" by (cases k)
    note look = Some [unfolded k]
    obtain c x s1 where get: "store_get (Some a) (Some b) s = (Inr (c, a, b, x), s1)" and cl: "claims info z (a, b)"
      using store_get_reduced [OF 1(2) look] by metis
    note acc = store_get_accounted [OF 1(2) look get]
    show ?thesis
    proof (cases "c \<in> set cmds")
      case True
      with look get acc(1) cl show ?thesis
        by (auto simp: store_read.simps [of cmds info z s])
    next
      case False
      have rd: "store_read cmds info z s = store_read cmds info z s1"
        using look get False by (simp add: store_read.simps [of cmds info z s])
      have "fst (c, a, b, x) \<notin> set cmds" using False by simp
      from 1(1) [OF Some k [symmetric] get [symmetric] refl this acc(3)]
      obtain r s' where "store_read cmds info z s1 = (Inr r, s')" "accounted cmds (claims info z) U r [] s1 s'"
        "case r of None \<Rightarrow> nothing_pending info z s'
         | Some p \<Rightarrow> fst p \<in> set cmds \<and> claims info z (fst (snd p), fst (snd (snd p)))"
        by blast
      then show ?thesis
        using rd accounted_trans [OF acc(2) [OF False]] by fastforce
    qed
  qed
qed

lemma dispatch_accounted:
  assumes "store_ok s" and "nothing_pending info z s" and "local_id info \<noteq> None"
  shows "accounted cmds (claims info z) U (if wanted cmds info z p then Some p else None) [p] s (dispatch_packet info z p s)"
    and "nothing_pending info z (dispatch_packet info z p s)"
proof -
  obtain c a b x where p: "p = (c, a, b, x)" by (cases p)
  show np: "nothing_pending info z (dispatch_packet info z p s)"
    by (rule nothing_pending_dispatch [OF assms(2,3)])
  show "accounted cmds (claims info z) U (if wanted cmds info z p then Some p else None) [p] s (dispatch_packet info z p s)"
  proof (rule accountedI)
    show "store_ok (dispatch_packet info z p s)" by (rule dispatch_ok [OF assms(1)])
  next
    fix k assume k: "claims info z k"
    then have "queue_of s k = []" "queue_of (dispatch_packet info z p s) k = []"
      using assms(2) np unfolding nothing_pending_def by blast+
    then show "stream_account cmds (queue_of s k @ entries [p] k)
        (entry_of (if wanted cmds info z p then Some p else None) k) (queue_of (dispatch_packet info z p s) k)"
      using k claims_args_match [OF assms(3), of z a b] stream_account_simps(2) [of cmds "entries [p] k" "[]"]
      by (auto simp: p wanted_def entry_of_def intro: stream_account_skip)
  next
    fix k assume "\<not> claims info z k"
    then show "store_abs (dispatch_packet info z p s) k = stream_puts [p] k (store_abs s k)"
      using stream_puts_simps(2) [of "[]" c a b x k] by (simp add: p dispatch_other)
  qed
qed

section \<open>What the others may do\<close>

text \<open>
  In a step of the others whole packets \<open>ps\<close> are taken off the wire, and the streams \<open>U\<close> that the
  others do not use get theirs in the store.
\<close>

definition filed :: "(int \<times> int \<Rightarrow> bool) \<Rightarrow> packet list \<Rightarrow> store \<Rightarrow> store \<Rightarrow> bool" where
  "filed U ps s s' \<longleftrightarrow> store_ok s' \<and> (\<forall>k. U k \<longrightarrow> store_abs s' k = stream_puts ps k (store_abs s k))"

definition others_step ::
  "('w \<Rightarrow> bytes) \<Rightarrow> (int \<times> int \<Rightarrow> bool) \<Rightarrow> packet list \<Rightarrow> 'w adb_device \<Rightarrow> 'w adb_device \<Rightarrow> bool" where
  "others_step inp U ps d d' \<longleftrightarrow>
     (\<exists>fs. are_frames ps fs \<and>
        inp (transport_state (io_manager d)) = fs @ inp (transport_state (io_manager d'))) \<and>
     filed U ps (packet_store (io_manager d)) (packet_store (io_manager d'))"

text \<open>With the transport lock held nothing is taken off the wire.\<close>

definition well_behaved :: "('w \<Rightarrow> bytes) \<Rightarrow> (int \<times> int \<Rightarrow> bool) \<Rightarrow> 'w others \<Rightarrow> bool" where
  "well_behaved inp U Y \<longleftrightarrow>
     (\<forall>d. store_ok (packet_store (io_manager d)) \<longrightarrow>
        (\<exists>ps. others_step inp U ps d (Y False d)) \<and> others_step inp U [] d (Y True d))"

text \<open>What a read of this task does: it is accounted for, and \<open>rest\<close> is the packet it broke off in.\<close>

definition read_account ::
  "('w \<Rightarrow> bytes) \<Rightarrow> (int \<times> int \<Rightarrow> bool) \<Rightarrow> cmd list \<Rightarrow> transaction_info \<Rightarrow> bool \<Rightarrow> packet option \<Rightarrow> bytes \<Rightarrow>
     'w adb_device \<Rightarrow> 'w adb_device \<Rightarrow> bool" where
  "read_account inp U cmds info z r rest d d' \<longleftrightarrow>
     (\<exists>ps fs. are_frames ps fs \<and>
        inp (transport_state (io_manager d)) = fs @ rest @ inp (transport_state (io_manager d')) \<and>
        accounted cmds (claims info z) U r ps (packet_store (io_manager d)) (packet_store (io_manager d')))"

lemma filed_refl [simp]: "filed U [] s s \<longleftrightarrow> store_ok s"
  by (simp add: filed_def)

lemma filed_trans: "filed U ps s s1 \<Longrightarrow> filed U qs s1 s2 \<Longrightarrow> filed U (ps @ qs) s s2"
  by (simp add: filed_def stream_puts_append)

text \<open>Only a closing packet for a stream without an entry is not filed.\<close>

definition queue :: "entry list option \<Rightarrow> entry list" where
  "queue q = (case q of None \<Rightarrow> [] | Some es \<Rightarrow> es)"

lemma stream_puts_lost:
  "closed_last (queue q @ entries ps k) \<Longrightarrow>
     \<exists>lost. (lost = [] \<or> (\<exists>x. lost = [(CLSE, x)])) \<and> queue q @ entries ps k = queue (stream_puts ps k q) @ lost"
proof (induction ps rule: rev_induct)
  case (snoc p ps)
  obtain c a b x where p: "p = (c, a, b, x)" by (cases p)
  show ?case
  proof (cases "(a, b) = k")
    case True
    with snoc.prems p have last: "closed_last (queue q @ entries ps k)" and no: "CLSE \<notin> fst ` set (queue q @ entries ps k)"
      using closed_last_append [of "queue q @ entries ps k" "[(c, x)]"] by (auto simp: closed_last_def butlast_append)
    from snoc.IH [OF last] obtain lost where lost: "lost = [] \<or> (\<exists>x. lost = [(CLSE, x)])"
      "queue q @ entries ps k = queue (stream_puts ps k q) @ lost" by blast
    have "lost = []" using lost(1) no unfolding lost(2) by auto
    with lost(2) have "queue q @ entries ps k = queue (stream_puts ps k q)" by simp
    with True show ?thesis
      by (cases "stream_puts ps k q") (auto simp: p queue_def stream_put_def)
  qed (use snoc p in auto)
qed simp

text \<open>The streams of this task are not used by the others.\<close>

definition covers :: "(int \<times> int \<Rightarrow> bool) \<Rightarrow> transaction_info \<Rightarrow> bool \<Rightarrow> bool" where
  "covers U info z \<longleftrightarrow> (\<forall>k. claims info z k \<longrightarrow> U k)"

lemma filed_accounted:
  assumes "filed U ps s s'" and "covers U info z"
  shows "accounted cmds (claims info z) U None ps s s'"
proof (rule accountedI)
  fix k assume "claims info z k" and last: "closed_last (queue_of s k @ entries ps k)"
  with assms have "store_abs s' k = stream_puts ps k (store_abs s k)"
    unfolding filed_def covers_def by blast
  then have q': "queue_of s' k = queue (stream_puts ps k (store_abs s k))"
    by (simp add: queue_of_def queue_def)
  have q: "queue_of s k = queue (store_abs s k)" by (simp add: queue_of_def queue_def)
  obtain lost where "lost = [] \<or> (\<exists>x. lost = [(CLSE, x)])" "queue_of s k @ entries ps k = queue_of s' k @ lost"
    using stream_puts_lost [OF last [unfolded q]] unfolding q q' by blast
  then show "stream_account cmds (queue_of s k @ entries ps k) (entry_of None k) (queue_of s' k)"
    unfolding stream_account_def by (intro exI [of _ "[]"] exI [of _ lost]) simp
qed (use assms(1) in \<open>unfold filed_def, blast+\<close>)

lemma read_account_trans:
  assumes "read_account inp U cmds info z None [] d d1" and "read_account inp U cmds info z r rest d1 d2"
  shows "read_account inp U cmds info z r rest d d2"
proof -
  obtain ps fs where 1: "are_frames ps fs" "inp (transport_state (io_manager d)) = fs @ inp (transport_state (io_manager d1))"
    "accounted cmds (claims info z) U None ps (packet_store (io_manager d)) (packet_store (io_manager d1))"
    using assms(1) by (auto simp: read_account_def)
  obtain qs gs where 2: "are_frames qs gs"
    "inp (transport_state (io_manager d1)) = gs @ rest @ inp (transport_state (io_manager d2))"
    "accounted cmds (claims info z) U r qs (packet_store (io_manager d1)) (packet_store (io_manager d2))"
    using assms(2) by (auto simp: read_account_def)
  have "are_frames (ps @ qs) (fs @ gs)" using 1(1) 2(1) by (auto simp: are_frames_append)
  with 1(2) 2(2) accounted_trans [OF 1(3) 2(3)] show ?thesis
    unfolding read_account_def by (intro exI [of _ "ps @ qs"] exI [of _ "fs @ gs"]) auto
qed

lemma read_account_ok: "read_account inp U cmds info z r rest d d' \<Longrightarrow> store_ok (packet_store (io_manager d'))"
  by (auto simp: read_account_def dest: accountedD(1))

lemma read_account_refl: "store_ok (packet_store (io_manager d)) \<Longrightarrow> read_account inp U cmds info z None [] d d"
  unfolding read_account_def by (intro exI [of _ "[]"]) (simp add: accounted_refl)

lemma others_account:
  assumes "others_step inp U ps d d'" and "covers U info z"
  shows "read_account inp U cmds info z None [] d d'"
proof -
  have "accounted cmds (claims info z) U None ps (packet_store (io_manager d)) (packet_store (io_manager d'))"
    by (rule filed_accounted [OF _ assms(2)]) (use assms(1) in \<open>simp add: others_step_def\<close>)
  with assms(1) show ?thesis unfolding others_step_def read_account_def by auto
qed

lemma wp_others_run: "wp t (others_run Y held) Q E = (\<lambda>d. Q () (Y held d))"
  by (rule ext) (simp add: others_run_def wp_modify)

lemma wp_awaiting:
  "wp t (awaiting Y held p) Q E d = wp t p (\<lambda>x d'. Q x (Y held d')) (\<lambda>e d'. E e (Y held d')) (Y held d)"
  by (simp add: awaiting_def wp_bind wp_others_run wp_finally)

lemma wp_with_store_lock:
  "wp t (with_store_lock Y held f) Q E d = wp t (on_io (on_store f)) Q E (Y held d)"
  by (simp add: with_store_lock_def wp_bind wp_others_run)

lemma wp_with_transport_lock: "wp t (with_transport_lock Y p) Q E d = wp t p Q E (Y False d)"
  by (simp add: with_transport_lock_def wp_bind wp_others_run)

context byte_transport
begin

abbreviation dinp :: "'w adb_device \<Rightarrow> bytes" where "dinp d \<equiv> inp (transport_state (io_manager d))"
abbreviation dstore :: "'w adb_device \<Rightarrow> store" where "dstore d \<equiv> packet_store (io_manager d)"

text \<open>The bytes \<open>bs\<close> have been read while others ran that leave the wire alone.\<close>

definition got :: "(int \<times> int \<Rightarrow> bool) \<Rightarrow> bytes \<Rightarrow> 'w adb_device \<Rightarrow> 'w adb_device \<Rightarrow> bool" where
  "got U bs d d' \<longleftrightarrow> (store_ok (dstore d) \<longrightarrow> dinp d = bs @ dinp d' \<and> filed U [] (dstore d) (dstore d'))"

lemma got_refl [simp]: "got U [] d d"
  by (simp add: got_def)

lemma got_trans: "got U xs d d1 \<Longrightarrow> got U ys d1 d2 \<Longrightarrow> got U (xs @ ys) d d2"
  using filed_trans [of U "[]" "dstore d" "dstore d1" "[]" "dstore d2"]
  by (auto simp: got_def) (simp_all add: filed_def)

lemma got_others: "well_behaved inp U Y \<Longrightarrow> got U [] d (Y True d)"
  by (auto simp: well_behaved_def others_step_def got_def)

lemma bulk_read_async:
  assumes Y: "well_behaved inp U Y" and n: "0 < n"
  shows "wp False (awaiting Y True (on_world (tr_bulk_read T n t)))
    (\<lambda>bs d'. int (length bs) \<le> n \<and> got U bs d d') (\<lambda>_ d'. got U [] d d') d"
proof -
  have step: "got U bs d (Y True d2)" if "got U bs (Y True d) d2" for bs d2
    using got_trans [OF got_trans [OF got_others [OF Y] that] got_others [OF Y]] by simp
  show ?thesis
    unfolding wp_awaiting on_world_def wp_on_io wp_on_transport
    by (rule wp_mono [OF read_law [OF n]]) (auto intro!: step simp: got_def [of U _ "Y True d"])
qed

lemma time_async: "wp False (on_world (tr_time T)) (\<lambda>_ d'. got U [] d d') (\<lambda>_ _. False) d"
  unfolding on_world_def wp_on_io wp_on_transport by (rule wp_mono [OF time_law]) (auto simp: got_def)

lemma read_bytes_async:
  assumes Y: "well_behaved inp U Y" and n: "0 \<le> n"
  shows "wp False (read_bytes_from_device_async T Y n info)
    (\<lambda>bs d'. int (length bs) = n \<and> got U bs d d') (\<lambda>_ d'. \<exists>bs. got U bs d d') d"
proof -
  define I where "I = (\<lambda>(len, data) d'. 0 \<le> len \<and> int (length data) + len = n \<and> got U data d d')"
  have more: "got U (xs @ ys) d d2" if "got U xs d d1" "got U ys d1 d2" for xs ys d1 d2
    by (rule got_trans [OF that])
  have same: "got U xs d d2" if "got U xs d d1" "got U [] d1 d2" for xs d1 d2
    using got_trans [OF that] by simp
  have body: "wp False (read_bytes_body_async T Y info start a)
      (loop_post I (\<lambda>bs d'. int (length bs) = n \<and> got U bs d d')) (\<lambda>_ d'. \<exists>bs. got U bs d d') d1"
    if "I a d1" for a d1 start
  proof -
    obtain len data where a: "a = (len, data)" by (cases a)
    with that have i: "0 \<le> len" "int (length data) + len = n" "got U data d d1" by (auto simp: I_def)
    show ?thesis
    proof (cases "0 < len")
      case False
      with i show ?thesis by (simp add: a read_bytes_body_async_def wp_simps)
    next
      case True
      show ?thesis
        unfolding a read_bytes_body_async_def using True
        by (simp add: wp_bind Let_def)
          (rule wp_mono [OF bulk_read_async [OF Y True]],
            use i in \<open>(auto simp: wp_bind wp_return wp_raise wp_if I_def
              intro!: wp_mono [OF time_async], (blast intro: more same)+)\<close>)
    qed
  qed
  show ?thesis
    unfolding read_bytes_from_device_async_def wp_bind
  proof (rule wp_mono [OF time_async])
    fix start d1 assume "got U [] d d1"
    with n show "wp False (io_loop (read_bytes_body_async T Y info start) (n, []))
        (\<lambda>bs d'. int (length bs) = n \<and> got U bs d d') (\<lambda>_ d'. \<exists>bs. got U bs d d') d1"
      by (intro loop_partial [where I = I, OF body]) (simp_all add: I_def)
  qed simp
qed

lemma read_packet_async:
  assumes Y: "well_behaved inp U Y"
  shows "wp False (read_packet_from_device_async T Y info)
    (\<lambda>p d'. \<exists>f. is_frame p f \<and> got U f d d') (\<lambda>_ d'. \<exists>bs. got U bs d d') d"
  unfolding read_packet_from_device_async_def wp_bind
proof (rule wp_mono [OF read_bytes_async [OF Y]])
  show "0 \<le> MESSAGE_SIZE" by (simp add: MESSAGE_SIZE_def)
next
  fix hdr d1
  assume "int (length hdr) = MESSAGE_SIZE \<and> got U hdr d d1"
  then have hdr: "got U hdr d d1" ..
  let ?Q = "\<lambda>p d'. \<exists>f. is_frame p f \<and> got U f d d'" and ?E = "\<lambda>_ d'. \<exists>bs. got U bs d d'"
  show "wp False (io_lift (unpack hdr))
      (\<lambda>x. wp False
        (case x of (cmd, arg0, arg1, data_length, data_checksum) \<Rightarrow>
           case WIRE_TO_ID cmd of None \<Rightarrow> io_raise (InvalidCommandError cmd)
           | Some command \<Rightarrow>
               if data_length = 0 then io_return (command, arg0, arg1, [])
               else io_bind (read_bytes_from_device_async T Y data_length info)
                 (\<lambda>data. if checksum data \<noteq> data_checksum
                     then io_raise (InvalidChecksumError (checksum data) data_checksum)
                     else io_return (command, arg0, arg1, data)))
        ?Q ?E) ?E d1"
  proof (cases "unpack hdr")
    case (Inl e)
    with hdr show ?thesis by (auto simp: wp_simps)
  next
    case (Inr v)
    obtain w a0 a1 n k where v: "v = (w, a0, a1, n, k)" by (cases v)
    have n: "0 \<le> n" using unpack_ranges(4) Inr v by (auto simp: u32_range_def)
    show ?thesis
    proof (cases "WIRE_TO_ID w")
      case None
      with hdr Inr v show ?thesis by (auto simp: wp_simps)
    next
      case (Some c)
      have frame: "is_frame (c, a0, a1, x) (hdr @ x)" if "int (length x) = n" "x \<noteq> [] \<Longrightarrow> checksum x = k" for x
        using that Inr v Some by (auto simp: is_frame_def WIRE_TO_ID_Some)
      have "?Q (c, a0, a1, []) d1" if "n = 0"
        using frame [of "[]"] that hdr by auto
      moreover have "wp False (read_bytes_from_device_async T Y n info)
          (\<lambda>x d'. (\<exists>bs. got U bs d d') \<and> (checksum x = k \<longrightarrow> (\<exists>f. is_frame (c, a0, a1, x) f \<and> got U f d d')))
          (\<lambda>_ d'. \<exists>bs. got U bs d d') d1"
        by (rule wp_mono [OF read_bytes_async [OF Y n]]) (use frame got_trans [OF hdr] in blast)+
      ultimately show ?thesis
        using Inr v Some
        by (auto simp: wp_bind wp_lift wp_if wp_return wp_raise elim!: wp_mono)
    qed
  qed
qed auto

text \<open>Reading for the transaction of this task, step by step.\<close>

lemma got_account:
  assumes U: "covers U info z"
    and acc: "read_account inp U cmds info z None [] d d1" and bs: "got U bs d1 d2"
  shows "read_account inp U cmds info z None bs d d2"
proof -
  have d2: "dinp d1 = bs @ dinp d2" "filed U [] (dstore d1) (dstore d2)"
    using bs read_account_ok [OF acc] by (simp_all add: got_def)
  have "read_account inp U cmds info z None bs d1 d2"
    using d2(1) filed_accounted [OF d2(2) U] unfolding read_account_def by (intro exI [of _ "[]"]) simp
  with acc show ?thesis by (rule read_account_trans)
qed

lemma held_account:
  assumes U: "covers U info z" and Y: "well_behaved inp U Y"
    and acc: "read_account inp U cmds info z None [] d d1"
  shows "read_account inp U cmds info z None [] d (Y held d1)"
proof -
  obtain ps where "others_step inp U ps d1 (Y held d1)"
    using Y read_account_ok [OF acc] unfolding well_behaved_def by (cases held) auto
  from read_account_trans [OF acc others_account [OF this U]] show ?thesis .
qed

lemma store_account:
  assumes "read_account inp U cmds info z None [] d d1"
    and "accounted cmds (claims info z) U r [] (dstore d1) s'"
  shows "read_account inp U cmds info z r [] d (d1\<lparr>io_manager := (io_manager d1)\<lparr>packet_store := s'\<rparr>\<rparr>)"
  by (rule read_account_trans [OF assms(1)]) (use assms(2) in \<open>auto simp: read_account_def intro!: exI [of _ "[]"]\<close>)

lemma stored_async:
  assumes U: "covers U info z" and Y: "well_behaved inp U Y" and acc: "read_account inp U cmds info z None [] d d1"
  shows "wp False (with_store_lock Y held (store_read cmds info z))
    (\<lambda>r d'. read_account inp U cmds info z r [] d d' \<and>
       (case r of None \<Rightarrow> nothing_pending info z (dstore d')
        | Some p \<Rightarrow> fst p \<in> set cmds \<and> claims info z (fst (snd p), fst (snd (snd p)))))
    (\<lambda>_ _. False) d1"
proof -
  let ?d2 = "Y held d1"
  have acc2: "read_account inp U cmds info z None [] d ?d2" by (rule held_account [OF U Y acc])
  obtain r s' where r: "store_read cmds info z (dstore ?d2) = (Inr r, s')"
    "accounted cmds (claims info z) U r [] (dstore ?d2) s'"
    "case r of None \<Rightarrow> nothing_pending info z s'
      | Some p \<Rightarrow> fst p \<in> set cmds \<and> claims info z (fst (snd p), fst (snd (snd p)))"
    using store_read_accounted [OF read_account_ok [OF acc2]] by blast
  show ?thesis
    unfolding wp_with_store_lock wp_on_io wp_on_store r(1)
    using store_account [OF acc2 r(2)] r(3) by (cases r) auto
qed

lemma dispatch_async_account:
  assumes U: "covers U info z" and Y: "well_behaved inp U Y" and l: "local_id info \<noteq> None"
    and acc: "read_account inp U cmds info z None [] d d1" and np: "nothing_pending info z (dstore d1)"
    and frame: "is_frame p f" and got: "got U f d1 d2"
  shows "wp False (dispatch_async Y info z p)
    (\<lambda>_ d'. read_account inp U cmds info z (if wanted cmds info z p then Some p else None) [] d d')
    (\<lambda>_ _. False) d2"
proof -
  have after: "read_account inp U cmds info z (if wanted cmds info z p then Some p else None) [] d
      (d3\<lparr>io_manager := (io_manager d3)\<lparr>packet_store := dispatch_packet info z p (dstore d3)\<rparr>\<rparr>)"
    if d3: "got U f d1 d3" for d3
  proof -
    have ok1: "store_ok (dstore d1)" by (rule read_account_ok [OF acc])
    have d3': "dinp d1 = f @ dinp d3" "filed U [] (dstore d1) (dstore d3)"
      using d3 ok1 by (simp_all add: got_def)
    have "store_abs (dstore d3) k = store_abs (dstore d1) k" if "claims info z k" for k
      using d3'(2) U that unfolding filed_def covers_def by (cases k) simp
    with np have np3: "nothing_pending info z (dstore d3)" by (simp add: nothing_pending_def queue_of_def)
    have ok3: "store_ok (dstore d3)" using d3'(2) by (simp add: filed_def)
    from accounted_trans [OF filed_accounted [OF d3'(2) U] dispatch_accounted(1) [OF ok3 np3 l, where p = p and cmds = cmds]]
    show ?thesis
      using d3'(1) frame
      by (intro read_account_trans [OF acc])
        (auto simp: read_account_def simp del: entries_simps intro!: exI [of _ "[p]"] exI [of _ f])
  qed
  obtain c a b x where p: "p = (c, a, b, x)" by (cases p)
  have "got U f d1 (Y True d2)"
    using got_trans [OF got got_others [OF Y]] by simp
  from after [OF this] after [OF got] show ?thesis
    by (auto simp: p dispatch_async_def wp_if wp_with_store_lock wp_on_io wp_on_store wp_return
        dispatch_packet_def split: if_splits)
qed

lemma io_read_body_async:
  assumes U: "covers U info z" and Y: "well_behaved inp U Y" and l: "local_id info \<noteq> None"
    and acc: "read_account inp U cmds info z None [] d d1"
  shows "wp False (io_read_body_async T Y cmds info z start u)
    (loop_post (\<lambda>_ d'. read_account inp U cmds info z None [] d d')
       (\<lambda>p d'. wanted cmds info z p \<and> read_account inp U cmds info z (Some p) [] d d'))
    (\<lambda>_ d'. \<exists>rest. read_account inp U cmds info z None rest d d') d1"
  (is "wp False _ ?Q ?E d1")
proof -
  let ?found = "\<lambda>found d'. read_account inp U cmds info z found [] d d' \<and>
    (case found of None \<Rightarrow> True | Some p \<Rightarrow> wanted cmds info z p)"
  have acc2: "read_account inp U cmds info z None [] d (Y False d1)" by (rule held_account [OF U Y acc])
  have wanted_stored: "wanted cmds info z p"
    if "fst p \<in> set cmds" "claims info z (fst (snd p), fst (snd (snd p)))" for p
    using that claims_args_match [OF l] by (simp add: wanted_def)
  have wire: "wp False (io_bind (read_packet_from_device_async T Y info) (\<lambda>p.
      io_then (dispatch_async Y info z p)
        (io_return (if args_match info (fst (snd p)) (fst (snd (snd p))) z \<and> fst p \<in> set cmds
           then Some p else None)))) ?found ?E d2"
    if acc2: "read_account inp U cmds info z None [] d d2" and np: "nothing_pending info z (dstore d2)" for d2
    unfolding wp_bind wanted_def [symmetric]
    by (rule wp_mono [OF read_packet_async [OF Y]])
      (auto simp: wp_return intro!: wp_mono [OF dispatch_async_account [OF U Y l acc2 np]] intro: got_account [OF U acc2])
  have locked: "wp False (io_bind (with_store_lock Y True (store_read cmds info z)) (\<lambda>stored.
      case stored of
        Some p \<Rightarrow> io_return (Some p)
      | None \<Rightarrow> io_bind (read_packet_from_device_async T Y info) (\<lambda>p.
          io_then (dispatch_async Y info z p)
            (io_return (if args_match info (fst (snd p)) (fst (snd (snd p))) z \<and> fst p \<in> set cmds
               then Some p else None))))) ?found ?E (Y False d1)"
    unfolding wp_bind [of _ "with_store_lock Y True (store_read cmds info z)"]
    by (rule wp_mono [OF stored_async [OF U Y acc2]])
      (auto simp: wp_return intro!: wire wanted_stored split: option.splits)
  have again: "wp False (io_bind (on_world (tr_time T)) (\<lambda>now.
        if now - start > read_timeout_s info then io_raise AdbTimeoutError else io_return (Continue ()))) ?Q ?E d2"
    if "read_account inp U cmds info z None [] d d2" for d2
    unfolding wp_bind
    by (rule wp_mono [OF time_async]) (auto simp: wp_if wp_raise wp_return intro: got_account [OF U that])
  show ?thesis
    unfolding io_read_body_async_def wp_bind [of _ "with_transport_lock _ _"] wp_with_transport_lock
    by (rule wp_mono [OF locked]) (auto simp: wp_return intro!: again split: option.splits)
qed

lemma io_read_async_spec:
  assumes U: "covers U info z" and Y: "well_behaved inp U Y" and l: "local_id info \<noteq> None" and ok: "store_ok (dstore d)"
  shows "wp False (io_read_async T Y cmds info z)
    (\<lambda>p d'. wanted cmds info z p \<and> read_account inp U cmds info z (Some p) [] d d')
    (\<lambda>_ d'. \<exists>rest. read_account inp U cmds info z None rest d d') d"
proof -
  have wanted_stored: "wanted cmds info z p"
    if "fst p \<in> set cmds" "claims info z (fst (snd p), fst (snd (snd p)))" for p
    using that claims_args_match [OF l] by (simp add: wanted_def)
  have loop: "wp False (io_loop (io_read_body_async T Y cmds info z start) ())
    (\<lambda>p d'. wanted cmds info z p \<and> read_account inp U cmds info z (Some p) [] d d')
    (\<lambda>_ d'. \<exists>rest. read_account inp U cmds info z None rest d d') d1"
    if "read_account inp U cmds info z None [] d d1" for start d1
    by (rule loop_partial [where I = "\<lambda>_. read_account inp U cmds info z None [] d",
          OF io_read_body_async [OF U Y l]]) (use that in simp_all)
  show ?thesis
    unfolding io_read_async_def wp_bind
    by (rule wp_mono [OF stored_async [OF U Y read_account_refl [OF ok]]])
      (auto simp: wp_return wp_bind intro!: wanted_stored wp_mono [OF time_async] loop
        intro: got_account [OF U] split: option.splits)
qed

end

section \<open>Waiting ends\<close>

text \<open>The others always let this task go on, and do not turn the clock back.\<close>

definition let_time_pass :: "('w \<Rightarrow> rat) \<Rightarrow> 'w others \<Rightarrow> bool" where
  "let_time_pass clk Y \<longleftrightarrow> (\<forall>held d. clk (transport_state (io_manager d)) \<le> clk (transport_state (io_manager (Y held d))))"

context live_transport
begin

abbreviation dclock :: "'w adb_device \<Rightarrow> rat" where "dclock d \<equiv> clock (transport_state (io_manager d))"

lemma others_end:
  assumes "let_time_pass clock Y"
  shows "ends_by dclock (others_run Y held) d"
  using assms by (simp add: ends_by_def wp_others_run later_by_def let_time_pass_def)

lemma awaiting_ends:
  assumes "let_time_pass clock Y" and "\<And>d. ends_by dclock p d"
  shows "ends_by dclock (awaiting Y held p) d"
  unfolding awaiting_def by (intro ends_by_bind ends_by_finally assms(2) others_end [OF assms(1)])

lemma locks_end:
  assumes "let_time_pass clock Y"
  shows "ends_by dclock (with_store_lock Y held f) d"
    and "(\<And>d. ends_by dclock p d) \<Longrightarrow> ends_by dclock (with_transport_lock Y p) d"
proof -
  have "ends_by dclock (on_io (on_store f)) d" for d
    by (auto simp: ends_by_def later_by_def wp_on_io wp_on_store split: prod.split sum.split)
  then show "ends_by dclock (with_store_lock Y held f) d"
    unfolding with_store_lock_def by (intro ends_by_bind others_end [OF assms])
  show "ends_by dclock (with_transport_lock Y p) d" if "\<And>d. ends_by dclock p d"
    unfolding with_transport_lock_def by (intro ends_by_bind others_end [OF assms] that)
qed

lemma async_time_ends:
  "wp True (on_world (tr_time T)) (\<lambda>now d'. now = dclock d \<and> dclock d + tick \<le> dclock d') (\<lambda>_ _. False) d"
  unfolding on_world_def wp_on_io wp_on_transport by (rule wp_mono [OF time_live]) simp_all

lemma async_ends_time: "ends_by dclock (on_world (tr_time T)) d"
  unfolding ends_by_def by (rule wp_mono [OF async_time_ends]) (use tick_pos in \<open>auto simp: later_by_def\<close>)

lemma async_ends_read: "ends_by dclock (on_world (tr_bulk_read T n (Some t))) d"
  unfolding ends_by_def on_world_def wp_on_io wp_on_transport
  by (rule wp_mono [OF read_live]) (auto simp: later_by_def)

lemmas async_round_bind = round_ends_bind [OF tick_pos, of dclock]
lemmas async_round_check = round_ends_check [OF tick_pos _ async_time_ends]
lemmas async_loop_ends = ends_by_loop [of dclock tick]

lemma read_bytes_async_ends:
  assumes "let_time_pass clock Y" and "transport_timeout_s info = Some t"
  shows "ends_by dclock (read_bytes_from_device_async T Y n info) d"
  unfolding read_bytes_from_device_async_def
proof (intro ends_by_bind async_ends_time async_loop_ends)
  fix start a and d :: "'w adb_device"
  show "round_ends dclock tick (start + read_timeout_s info) (read_bytes_body_async T Y info start a) d"
    unfolding read_bytes_body_async_def
    by (auto simp: Let_def assms(2) intro!: async_round_bind awaiting_ends [OF assms(1)] async_ends_read async_round_check
        split: prod.split)
qed

lemma read_packet_async_ends:
  assumes "let_time_pass clock Y" and "transport_timeout_s info = Some t"
  shows "ends_by dclock (read_packet_from_device_async T Y info) d"
  unfolding read_packet_from_device_async_def
  by (intro ends_by_bind read_bytes_async_ends [OF assms] ends_by_simple)
    (auto intro!: ends_by_bind read_bytes_async_ends [OF assms] split: prod.split option.split)

lemma io_read_async_ends:
  assumes "let_time_pass clock Y" and "transport_timeout_s info = Some t"
  shows "ends_by dclock (io_read_async T Y cmds info z) d"
proof -
  have dispatch: "ends_by dclock (dispatch_async Y info z p) d" for p d
    by (auto simp: dispatch_async_def intro!: locks_end(1) [OF assms(1)] split: prod.split)
  have body: "round_ends dclock tick (start + read_timeout_s info) (io_read_body_async T Y cmds info z start a) d"
    for start a d
    unfolding io_read_body_async_def
    by (auto intro!: async_round_bind locks_end [OF assms(1)] ends_by_bind read_packet_async_ends [OF assms] dispatch
        async_round_check split: option.split)
  show ?thesis
    unfolding io_read_async_def
    by (auto intro!: ends_by_bind locks_end(1) [OF assms(1)] async_ends_time async_loop_ends [OF body] split: option.split)
qed

end

context timed_byte_transport
begin

lemma io_read_async_total:
  assumes U: "covers U info z" and "well_behaved inp U Y" and "let_time_pass clock Y"
    and "local_id info \<noteq> None" and "transport_timeout_s info = Some t" and "store_ok (dstore d)"
  shows "wp True (io_read_async T Y cmds info z)
    (\<lambda>p d'. wanted cmds info z p \<and> read_account inp U cmds info z (Some p) [] d d')
    (\<lambda>_ d'. \<exists>rest. read_account inp U cmds info z None rest d d') d"
  by (rule wp_total_from [OF io_read_async_spec [OF assms(1,2,4,6)]
        io_read_async_ends [OF assms(3,5), unfolded ends_by_def]])

end

section \<open>Tasks that read\<close>

text \<open>A read keeps towards other tasks to what it relies on.\<close>

lemma read_account_step:
  assumes "read_account inp U cmds info z r [] d d'"
  shows "\<exists>ps. others_step inp (\<lambda>k. U k \<and> \<not> claims info z k) ps d d'"
  using assms unfolding read_account_def others_step_def filed_def accounted_def by auto

text \<open>A task that reads for its own transaction whenever it can.\<close>

definition reading_task ::
  "('w, 'x) transport_scheme \<Rightarrow> cmd list \<Rightarrow> transaction_info \<Rightarrow> bool \<Rightarrow> 'w others" where
  "reading_task T cmds info z held d =
     (if held then d
      else case io_read_async T alone cmds info z d of Some (Inr _, d') \<Rightarrow> d' | _ \<Rightarrow> d)"

lemma alone_well_behaved: "well_behaved inp U alone"
  unfolding well_behaved_def alone_def others_step_def by (auto intro!: exI [of _ "[]"])

lemma alone_time: "let_time_pass clk alone"
  by (simp add: let_time_pass_def alone_def)

lemma covers_all [simp]: "covers (\<lambda>_. True) info z"
  by (simp add: covers_def)

text \<open>What holds for two tasks holds when both run.\<close>

lemma others_step_trans:
  assumes "others_step inp U ps d d1" and "others_step inp U qs d1 d2"
  shows "others_step inp U (ps @ qs) d d2"
proof -
  obtain fs gs where "are_frames ps fs" "are_frames qs gs"
    "inp (transport_state (io_manager d)) = (fs @ gs) @ inp (transport_state (io_manager d2))"
    using assms by (auto simp: others_step_def)
  moreover from this have "are_frames (ps @ qs) (fs @ gs)" by (auto simp: are_frames_append)
  ultimately show ?thesis
    using assms filed_trans unfolding others_step_def by blast
qed

lemma others_step_mono:
  "others_step inp U ps d d' \<Longrightarrow> (\<And>k. V k \<Longrightarrow> U k) \<Longrightarrow> others_step inp V ps d d'"
  unfolding others_step_def filed_def by blast

lemma well_behaved_mono: "well_behaved inp U Y \<Longrightarrow> (\<And>k. V k \<Longrightarrow> U k) \<Longrightarrow> well_behaved inp V Y"
  unfolding well_behaved_def by (meson others_step_mono)

lemma well_behaved_then:
  assumes "well_behaved inp U Y" and "well_behaved inp U Z"
  shows "well_behaved inp U (\<lambda>held d. Z held (Y held d))"
  unfolding well_behaved_def
proof (intro allI impI conjI)
  fix d :: "'a adb_device" assume ok: "store_ok (packet_store (io_manager d))"
  have ok': "others_step inp U ps d d' \<Longrightarrow> store_ok (packet_store (io_manager d'))" for ps d'
    by (simp add: others_step_def filed_def)
  show "\<exists>ps. others_step inp U ps d (Z False (Y False d))"
    using assms ok ok' others_step_trans unfolding well_behaved_def by meson
  have "others_step inp U [] d (Y True d)" "others_step inp U [] (Y True d) (Z True (Y True d))"
    using assms ok ok' unfolding well_behaved_def by blast+
  from others_step_trans [OF this] show "others_step inp U [] d (Z True (Y True d))" by simp
qed

lemma let_time_pass_then:
  "let_time_pass clk Y \<Longrightarrow> let_time_pass clk Z \<Longrightarrow> let_time_pass clk (\<lambda>held d. Z held (Y held d))"
  unfolding let_time_pass_def by (blast intro: order_trans)

text \<open>Several tasks that read.\<close>

definition reading_tasks ::
  "('w, 'x) transport_scheme \<Rightarrow> (cmd list \<times> transaction_info \<times> bool) list \<Rightarrow> 'w others" where
  "reading_tasks T rs held d = fold (\<lambda>(cmds, info, z). reading_task T cmds info z held) rs d"

lemma reading_tasks_Cons:
  "reading_tasks T ((cmds, info, z) # rs) = (\<lambda>held d. reading_tasks T rs held (reading_task T cmds info z held d))"
  by (intro ext) (simp add: reading_tasks_def)

lemma reading_tasks_Nil: "reading_tasks T [] = alone"
  by (intro ext) (simp add: reading_tasks_def alone_def)

context timed_byte_transport
begin

lemma reading_task_well_behaved:
  assumes "local_id info \<noteq> None"
  shows "well_behaved inp (\<lambda>k. \<not> claims info z k) (reading_task T cmds info z)"
  unfolding well_behaved_def
proof (intro allI impI conjI)
  fix d :: "'w adb_device" assume ok: "store_ok (dstore d)"
  have stay: "others_step inp (\<lambda>k. \<not> claims info z k) [] d d"
    using ok by (simp add: others_step_def)
  then show "others_step inp (\<lambda>k. \<not> claims info z k) [] d (reading_task T cmds info z True d)"
    by (simp add: reading_task_def)
  show "\<exists>ps. others_step inp (\<lambda>k. \<not> claims info z k) ps d (reading_task T cmds info z False d)"
  proof (cases "\<exists>p d'. io_read_async T alone cmds info z d = Some (Inr p, d')")
    case True
    then obtain p d' where run: "io_read_async T alone cmds info z d = Some (Inr p, d')" by blast
    from wp_returned [OF io_read_async_spec [OF covers_all alone_well_behaved assms ok] run]
    have "read_account inp (\<lambda>_. True) cmds info z (Some p) [] d d'" by simp
    from read_account_step [OF this] run show ?thesis by (simp add: reading_task_def)
  next
    case False
    then have "reading_task T cmds info z False d = d"
      by (auto simp: reading_task_def split: option.split sum.split)
    with stay show ?thesis by auto
  qed
qed

lemma reading_task_time:
  assumes "transport_timeout_s info = Some t"
  shows "let_time_pass clock (reading_task T cmds info z)"
proof -
  have "dclock d \<le> dclock d'" if "io_read_async T alone cmds info z d = Some (Inr p, d')" for d d' p
    using wp_returned [OF io_read_async_ends [OF alone_time assms, unfolded ends_by_def] that]
    by (simp add: later_by_def)
  then show ?thesis
    by (auto simp: let_time_pass_def reading_task_def split: option.split sum.split)
qed

lemma reading_tasks_well_behaved:
  assumes "\<forall>(cmds, info, z) \<in> set rs. local_id info \<noteq> None"
  shows "well_behaved inp (\<lambda>k. \<forall>(cmds, info, z) \<in> set rs. \<not> claims info z k) (reading_tasks T rs)"
  using assms
proof (induction rs)
  case (Cons r rs)
  obtain cmds info z where r: "r = (cmds, info, z)" by (cases r)
  let ?U = "\<lambda>k. \<forall>(cmds, info, z) \<in> set (r # rs). \<not> claims info z k"
  have "well_behaved inp ?U (reading_task T cmds info z)"
    by (rule well_behaved_mono [OF reading_task_well_behaved]) (use Cons.prems r in auto)
  moreover have "well_behaved inp ?U (reading_tasks T rs)"
    by (rule well_behaved_mono [OF Cons.IH]) (use Cons.prems in auto)
  ultimately show ?case unfolding r reading_tasks_Cons by (rule well_behaved_then)
qed (simp add: reading_tasks_Nil alone_well_behaved)

lemma reading_tasks_time:
  "(\<forall>(cmds, info, z) \<in> set rs. transport_timeout_s info \<noteq> None) \<Longrightarrow> let_time_pass clock (reading_tasks T rs)"
proof (induction rs)
  case (Cons r rs)
  obtain cmds info z where r: "r = (cmds, info, z)" by (cases r)
  with Cons.prems obtain t where "transport_timeout_s info = Some t" by auto
  from let_time_pass_then [OF reading_task_time [OF this, of cmds z] Cons.IH] Cons.prems show ?case
    unfolding r reading_tasks_Cons by simp
qed (simp add: reading_tasks_Nil alone_time)

end

end
