(* ===== verification/Async_Sends.thy ===== *)
theory Async_Sends
  imports Async_Reads
begin

text \<open>
  Tasks that send over one \<open>AdbDeviceAsync\<close>. A packet goes out in two writes, the header and the
  payload, and other tasks run between them; the transport lock keeps their packets out.
\<close>

section \<open>What the others may do\<close>

text \<open>The others add whole packets to what goes out, and nothing while this task has the lock.\<close>

definition writes_frames :: "('w \<Rightarrow> bytes) \<Rightarrow> ('w \<Rightarrow> bool) \<Rightarrow> 'w others \<Rightarrow> bool" where
  "writes_frames out roomy Y \<longleftrightarrow>
     (\<forall>d. roomy (transport_state (io_manager d)) \<longrightarrow>
        (\<exists>ps fs. are_frames ps fs \<and>
           out (transport_state (io_manager (Y False d))) = out (transport_state (io_manager d)) @ fs) \<and>
        out (transport_state (io_manager (Y True d))) = out (transport_state (io_manager d)) \<and>
        (\<forall>held. roomy (transport_state (io_manager (Y held d)))))"

text \<open>What a send that fails has passed on of its packet.\<close>

definition torn_frame :: "cmd \<Rightarrow> int option \<Rightarrow> int option \<Rightarrow> bytes \<Rightarrow> bytes \<Rightarrow> bool" where
  "torn_frame c a0 a1 x g \<longleftrightarrow> g = [] \<or> (\<exists>a b f. a0 = Some a \<and> a1 = Some b \<and> is_frame (c, a, b, x) f \<and> prefix g f)"

lemma writes_framesD:
  assumes "writes_frames out roomy Y" and "roomy (transport_state (io_manager d))"
  shows "\<exists>ps fs. are_frames ps fs \<and>
      out (transport_state (io_manager (Y False d))) = out (transport_state (io_manager d)) @ fs"
    and "out (transport_state (io_manager (Y True d))) = out (transport_state (io_manager d))"
    and "roomy (transport_state (io_manager (Y held d)))"
  using assms unfolding writes_frames_def by blast+

section \<open>Sending one packet\<close>

context full_write_transport
begin

abbreviation dout :: "'a adb_device \<Rightarrow> bytes" where "dout d \<equiv> out (transport_state (io_manager d))"
abbreviation droomy :: "'a adb_device \<Rightarrow> bool" where "droomy d \<equiv> roomy (transport_state (io_manager d))"

lemma locked_write:
  assumes Y: "writes_frames out roomy Y" and room: "droomy d"
  shows "wp False (awaiting Y True (on_world (tr_bulk_write T b t)))
    (\<lambda>_ d'. dout d' = dout d @ b \<and> droomy d') (\<lambda>_ d'. \<exists>k. dout d' = dout d @ take k b) d"
proof -
  have "droomy (Y True d)" "dout (Y True d) = dout d"
    using writes_framesD(2,3) [OF Y room] by blast+
  moreover have "wp False (tr_bulk_write T b t) (\<lambda>_ w'. out w' = out w @ b \<and> roomy w')
      (\<lambda>_ w'. (\<exists>k. out w' = out w @ take k b) \<and> roomy w') w"
    if "roomy w" for w
    by (rule wp_mono [OF wp_conj [OF write_law room_write [OF that]]]) auto
  ultimately show ?thesis
    using writes_framesD(2,3) [OF Y]
    by (auto simp: wp_awaiting on_world_def wp_on_io wp_on_transport intro!: wp_mono [OF \<open>\<And>w. roomy w \<Longrightarrow> _\<close>])
qed

lemma send_raw_async_frame:
  assumes Y: "writes_frames out roomy Y" and room: "droomy d"
    and msg: "AdbMessage c a0 a1 x = Inr msg"
  shows "wp False (send_raw_async T Y msg info)
    (\<lambda>_ d'. \<exists>a b f. a0 = Some a \<and> a1 = Some b \<and> is_frame (c, a, b, x) f \<and> dout d' = dout d @ f)
    (\<lambda>_ d'. \<exists>g. torn_frame c a0 a1 x g \<and> dout d' = dout d @ g) d"
proof (cases "pack msg")
  case (Inl e)
  then show ?thesis by (simp add: send_raw_async_def wp_simps torn_frame_def)
next
  case (Inr bs)
  have x: "msg_data msg = x" using msg by (auto simp: AdbMessage_eq split: if_splits)
  obtain a b where ab: "a0 = Some a" "a1 = Some b"
    using pack_Inr_packable [OF Inr] packable_AdbMessage [OF msg] by auto
  then have frame: "is_frame (c, a, b, x) (bs @ x)" using pack_is_frame Inr msg by blast
  have torn: "torn_frame c a0 a1 x g" if "prefix g (bs @ x)" for g
    using that ab frame unfolding torn_frame_def by blast
  have payload: "wp False (if x \<noteq> [] then io_then (awaiting Y True (on_world (tr_bulk_write T x (transport_timeout_s info))))
        (io_return ()) else io_return ())
      (\<lambda>_ d'. dout d' = dout d @ bs @ x) (\<lambda>_ d'. \<exists>g. torn_frame c a0 a1 x g \<and> dout d' = dout d @ g) d1"
    if d1: "dout d1 = dout d @ bs" "droomy d1" for d1
  proof -
    have "wp False (awaiting Y True (on_world (tr_bulk_write T x (transport_timeout_s info))))
        (\<lambda>_ d'. dout d' = dout d @ bs @ x) (\<lambda>_ d'. \<exists>g. torn_frame c a0 a1 x g \<and> dout d' = dout d @ g) d1"
    proof (rule wp_mono [OF locked_write [OF Y d1(2)]])
      fix e d' assume "\<exists>k. dout d' = dout d1 @ take k x"
      then obtain k where "dout d' = dout d @ bs @ take k x" using d1(1) by auto
      moreover have "torn_frame c a0 a1 x (bs @ take k x)" by (rule torn) (simp add: take_is_prefix)
      ultimately show "\<exists>g. torn_frame c a0 a1 x g \<and> dout d' = dout d @ g" by blast
    qed (use d1 in simp)
    with d1 show ?thesis unfolding wp_if wp_bind by (auto simp: wp_return elim!: wp_mono)
  qed
  show ?thesis
    unfolding send_raw_async_def Inr io_lift_Inr io_bind_return wp_bind x
  proof (rule wp_mono [OF locked_write [OF Y room]])
    fix d1 assume "dout d1 = dout d @ bs \<and> droomy d1"
    then show "wp False (if x \<noteq> [] then io_then (awaiting Y True (on_world (tr_bulk_write T x (transport_timeout_s info))))
        (io_return ()) else io_return ())
      (\<lambda>_ d'. \<exists>a b f. a0 = Some a \<and> a1 = Some b \<and> is_frame (c, a, b, x) f \<and> dout d' = dout d @ f)
      (\<lambda>_ d'. \<exists>g. torn_frame c a0 a1 x g \<and> dout d' = dout d @ g) d1"
      by (intro wp_mono [OF payload]) (use ab frame in auto)
  next
    fix e d1 assume "\<exists>k. dout d1 = dout d @ take k bs"
    then obtain k where "dout d1 = dout d @ take k bs" by blast
    moreover have "torn_frame c a0 a1 x (take k bs)"
      by (rule torn) (metis prefix_append prefix_order.trans take_is_prefix prefixI)
    ultimately show "\<exists>g. torn_frame c a0 a1 x g \<and> dout d1 = dout d @ g" by blast
  qed
qed

lemma send_new_async_frames:
  assumes Y: "writes_frames out roomy Y" and room: "droomy d"
  shows "wp False (send_new_async T Y c a0 a1 x info)
    (\<lambda>_ d'. \<exists>ps fs a b f. a0 = Some a \<and> a1 = Some b \<and> are_frames ps fs \<and> is_frame (c, a, b, x) f \<and>
       dout d' = dout d @ fs @ f)
    (\<lambda>_ d'. \<exists>ps fs g. are_frames ps fs \<and> torn_frame c a0 a1 x g \<and> dout d' = dout d @ fs @ g) d"
proof (cases "AdbMessage c a0 a1 x")
  case (Inl e)
  then show ?thesis by (auto simp: send_new_async_def wp_simps torn_frame_def intro!: exI [of _ "[]"])
next
  case (Inr msg)
  obtain ps fs where fs: "are_frames ps fs" "dout (Y False d) = dout d @ fs"
    using writes_framesD(1) [OF Y room] by blast
  have "wp False (send_raw_async T Y msg info)
    (\<lambda>_ d'. \<exists>a b f. a0 = Some a \<and> a1 = Some b \<and> is_frame (c, a, b, x) f \<and> dout d' = dout (Y False d) @ f)
    (\<lambda>_ d'. \<exists>g. torn_frame c a0 a1 x g \<and> dout d' = dout (Y False d) @ g) (Y False d)"
    by (rule send_raw_async_frame [OF Y writes_framesD(3) [OF Y room] Inr])
  then show ?thesis
    unfolding send_new_async_def io_send_async_def Inr io_lift_Inr io_bind_return wp_with_transport_lock
    by (rule wp_mono) (use fs in \<open>simp_all, blast+\<close>)
qed

end

context live_transport
begin

lemma send_new_async_ends:
  assumes "let_time_pass clock Y" and "transport_timeout_s info = Some t"
  shows "ends_by dclock (send_new_async T Y c a0 a1 x info) d"
proof -
  have "ends_by dclock (on_world (tr_bulk_write T b (Some t))) d" for b d
    unfolding ends_by_def on_world_def wp_on_io wp_on_transport
    by (rule wp_mono [OF write_live]) (auto simp: later_by_def)
  then show ?thesis
    unfolding send_new_async_def io_send_async_def send_raw_async_def assms(2)
    by (auto intro!: ends_by_bind ends_by_simple locks_end(2) [OF assms(1)] awaiting_ends [OF assms(1)])
qed

end

section \<open>Tasks that send\<close>

text \<open>A task that sends a packet whenever it can.\<close>

definition sending_task ::
  "('w, 'x) transport_scheme \<Rightarrow> cmd \<Rightarrow> int option \<Rightarrow> int option \<Rightarrow> bytes \<Rightarrow> transaction_info \<Rightarrow> 'w others" where
  "sending_task T c a0 a1 x info held d =
     (if held then d
      else case send_new_async T alone c a0 a1 x info d of Some (Inr _, d') \<Rightarrow> d' | _ \<Rightarrow> d)"

lemma alone_writes [simp]: "writes_frames out roomy alone"
  unfolding writes_frames_def alone_def by (auto intro!: exI [of _ "[]"])

context full_write_transport
begin

lemma alone_keeps_room:
  assumes "droomy d"
  shows "wp False (send_new_async T alone c a0 a1 x info) (\<lambda>_. droomy) (\<lambda>_. droomy) d"
proof -
  have put: "wp False (on_world (tr_bulk_write T b t)) (\<lambda>_. droomy) (\<lambda>_. droomy) d"
    if "droomy d" for b t d
    using that by (auto simp: on_world_def wp_on_io wp_on_transport intro!: wp_mono [OF room_write])
  show ?thesis
    unfolding send_new_async_def io_send_async_def send_raw_async_def waiting_alone(2) wp_bind wp_lift
    using assms put
    by (auto simp: wp_if wp_bind wp_return split: sum.split intro!: wp_mono [OF put])
qed

lemma sending_task_writes: "writes_frames out roomy (sending_task T c a0 a1 x info)"
  unfolding writes_frames_def
proof (intro allI impI conjI)
  fix d :: "'a adb_device" and held assume room: "droomy d"
  let ?Y = "sending_task T c a0 a1 x info"
  have none: "\<exists>ps fs. are_frames ps fs \<and> dout d = dout d @ fs" by (intro exI [of _ "[]"]) simp
  show "\<exists>ps fs. are_frames ps fs \<and> dout (?Y False d) = dout d @ fs"
  proof (cases "\<exists>d'. send_new_async T alone c a0 a1 x info d = Some (Inr (), d')")
    case True
    then obtain d' where run: "send_new_async T alone c a0 a1 x info d = Some (Inr (), d')" by blast
    from wp_returned [OF send_new_async_frames [OF alone_writes room] run]
    obtain ps fs a b f where "are_frames ps fs" "is_frame (c, a, b, x) f" "dout d' = dout d @ fs @ f" by blast
    then have "are_frames (ps @ [(c, a, b, x)]) (fs @ f) \<and> dout d' = dout d @ (fs @ f)"
      by (auto simp: are_frames_append)
    with run show ?thesis by (auto simp: sending_task_def simp del: append_assoc)
  next
    case False
    then have "?Y False d = d" by (auto simp: sending_task_def split: option.split sum.split)
    with none show ?thesis by simp
  qed
  show "dout (?Y True d) = dout d" by (simp add: sending_task_def)
  show "droomy (?Y held d)"
    using room wp_returned [OF alone_keeps_room [OF room]]
    by (auto simp: sending_task_def split: option.split sum.split)
qed

end

context live_transport
begin

lemma sending_task_time:
  assumes "transport_timeout_s info = Some t"
  shows "let_time_pass clock (sending_task T c a0 a1 x info)"
proof -
  have "dclock d \<le> dclock d'" if "send_new_async T alone c a0 a1 x info d = Some (Inr (), d')" for d d'
    using wp_returned [OF send_new_async_ends [OF alone_time assms, unfolded ends_by_def] that]
    by (simp add: later_by_def)
  then show ?thesis
    by (auto simp: let_time_pass_def sending_task_def split: option.split sum.split)
qed

end

end
