(* ===== verification/Tcp_Transport_Async.thy ===== *)
theory Tcp_Transport_Async
  imports Async_Streams Async_Sends
begin

text \<open>
  \<open>TcpTransportAsync\<close> of \<open>adb_shell_wifi/transport/tcp_transport_async.py\<close> over asyncio streams.
  \<open>_reader\<close> and \<open>_writer\<close>, which are set and reset together, are the streams of the state's
  connection. The transport interprets the interfaces of the I/O manager; its writes are never
  short, but one that fails may have passed on its data.
\<close>

section \<open>The transport\<close>

text \<open>The write buffer limits of an asyncio socket transport.\<close>

definition socket_mode :: stream_mode where
  "socket_mode = \<lparr>high_water = 65536, low_water = 16384, gone = False\<rparr>"

definition close_streams :: "stream_mode \<Rightarrow> ('x stream_endpoint_scheme, unit) prog" where
  "close_streams m =
     io_bind (io_gets connection) (\<lambda>writer.
       case writer of
         None \<Rightarrow> io_return ()
       | Some _ \<Rightarrow> io_catch (stream_close m) (\<lambda>e. if os_error e then io_return () else io_raise e))"

definition tcp_close_async :: "('x stream_endpoint_scheme, unit) prog" where
  "tcp_close_async = io_then (close_streams socket_mode) streams_reset"

definition tcp_connect_async :: "address \<Rightarrow> rat option \<Rightarrow> ('x stream_endpoint_scheme, unit) prog" where
  "tcp_connect_async address transport_timeout = stream_open address transport_timeout"

definition tcp_bulk_read_async :: "int \<Rightarrow> rat option \<Rightarrow> ('x stream_endpoint_scheme, bytes) prog" where
  "tcp_bulk_read_async numbytes transport_timeout = stream_read socket_mode numbytes transport_timeout"

definition tcp_bulk_write_async :: "bytes \<Rightarrow> rat option \<Rightarrow> ('x stream_endpoint_scheme, int) prog" where
  "tcp_bulk_write_async data transport_timeout = stream_write socket_mode data transport_timeout"

definition TcpTransportAsync :: "address \<Rightarrow> 'x stream_endpoint_scheme transport" where
  "TcpTransportAsync address =
     \<lparr>tr_close = tcp_close_async, tr_connect = tcp_connect_async address,
      tr_bulk_read = tcp_bulk_read_async, tr_bulk_write = tcp_bulk_write_async,
      tr_tls_upgrade = None, tr_time = sys_time\<rparr>"

section \<open>It is a byte transport, and waiting on it ends\<close>

lemma TcpTransportAsync_sel [simp]:
  "tr_close (TcpTransportAsync a) = tcp_close_async"
  "tr_connect (TcpTransportAsync a) = tcp_connect_async a"
  "tr_bulk_read (TcpTransportAsync a) = tcp_bulk_read_async"
  "tr_bulk_write (TcpTransportAsync a) = tcp_bulk_write_async"
  "tr_tls_upgrade (TcpTransportAsync a) = None"
  "tr_time (TcpTransportAsync a) = sys_time"
  by (simp_all add: TcpTransportAsync_def)

lemma clock_stream_same [simp]:
  "stream_output (w\<lparr>clock := x\<rparr>) = stream_output w" for w :: "'x stream_endpoint_scheme"
  by (simp add: stream_output_def)

lemma tcp_stream_laws:
  fixes w :: "'x stream_endpoint_scheme"
  shows "0 < n \<Longrightarrow> wp False (tcp_bulk_read_async n t)
     (\<lambda>d w'. int (length d) \<le> n \<and> endpoint_input w = d @ endpoint_input w' \<and> stream_output w' = stream_output w)
     (\<lambda>e w'. endpoint_input w' = endpoint_input w \<and> stream_output w' = stream_output w \<and> \<not> malformed e) w"
    and "wp False (tcp_bulk_write_async d t)
     (\<lambda>k w'. 0 \<le> k \<and> k \<le> int (length d) \<and> stream_output w' = stream_output w @ take (nat k) d \<and>
        endpoint_input w' = endpoint_input w)
     (\<lambda>e w'. (\<exists>k. stream_output w' = stream_output w @ take k d) \<and> endpoint_input w' = endpoint_input w) w"
    and "wp False (tcp_bulk_write_async d t) (\<lambda>k _. k = int (length d)) (\<lambda>_ _. True) w"
  unfolding tcp_bulk_read_async_def tcp_bulk_write_async_def
  by (fact stream_read_law) (auto intro: wp_mono [OF stream_write_law])

interpretation tcp_stream: full_write_transport
  "TcpTransportAsync a :: 'x stream_endpoint_scheme transport" endpoint_input stream_output "\<lambda>_. True"
  by unfold_locales (simp_all add: wp_simps tcp_stream_laws)

lemma tcp_stream_close_ends:
  "wp True tcp_close_async (\<lambda>_ w'. clock w \<le> clock w') (\<lambda>_ w'. clock w \<le> clock w') (w :: 'x stream_endpoint_scheme)"
  unfolding tcp_close_async_def close_streams_def wp_bind wp_gets
  by (auto simp: wp_simps streams_reset_def socket_mode_def split: option.split intro!: wp_mono [OF stream_ends(4)])

interpretation tcp_stream_live: live_transport
  "TcpTransportAsync a :: 'x stream_endpoint_scheme transport" clock clock_tick
  by unfold_locales (simp_all add: wp_simps tcp_connect_async_def tcp_bulk_read_async_def tcp_bulk_write_async_def
      stream_ends tcp_stream_close_ends clock_tick_pos)

interpretation tcp_stream_timed: timed_byte_transport
  "TcpTransportAsync a :: 'x stream_endpoint_scheme transport" endpoint_input stream_output clock clock_tick
  by unfold_locales

end
