(* ===== verification/Tls_Transport_Async.thy ===== *)
theory Tls_Transport_Async
  imports Tcp_Transport_Async Tls_Transport
begin

text \<open>
  \<open>TlsTransportAsync\<close> of \<open>adb_shell_wifi/transport/tls_transport_async.py\<close>: a connection as that
  of \<open>TcpTransportAsync\<close>, which \<open>loop.start_tls\<close> replaces by a TLS connection. As in
  \<open>Tls_Transport\<close> a handshake has a scripted outcome, a connection whose bytes are the plain text,
  and \<open>load_cert_chain\<close> is an argument. So are the write buffer limits of a TLS transport.
\<close>

section \<open>The transport\<close>

text \<open>
  \<open>start_tls\<close> hands the connection to the TLS protocol before the handshake, and only a successful
  handshake gives it back to the streams; if it is cancelled, they are never told that the
  connection is closed (\<open>streams_detached\<close>).
\<close>

record tls_stream_endpoint = stream_endpoint +
  is_tls_async :: bool
  streams_detached :: bool

definition stream_mode_of :: "nat \<times> nat \<Rightarrow> 'x tls_stream_endpoint_scheme \<Rightarrow> stream_mode" where
  "stream_mode_of limits w =
     (if is_tls_async w then \<lparr>high_water = fst limits, low_water = snd limits, gone = False\<rparr>
      else socket_mode\<lparr>gone := streams_detached w\<rparr>)"

text \<open>Closing a TLS connection waits for the peer to close it, for 30 seconds at most.\<close>

definition ssl_shutdown_timeout :: rat where
  "ssl_shutdown_timeout = 30"

definition close_tls :: "stream_mode \<Rightarrow> ('x tls_stream_endpoint_scheme, unit) prog" where
  "close_tls m =
     io_bind (io_gets (\<lambda>w. case connection w of
         None \<Rightarrow> Some 0
       | Some c \<Rightarrow>
           if lost (clock w) c then Some 0
           else map_option (max (drained_at 0 (tx c) (length (write_buffer w)))) (first_at (\<lambda>e. \<not> is_data e) c)))
       (\<lambda>ready. io_catch (stream_wait m (Some ssl_shutdown_timeout) ready) (\<lambda>_. io_return ()))"

definition tls_close_async :: "nat \<times> nat \<Rightarrow> ('x tls_stream_endpoint_scheme, unit) prog" where
  "tls_close_async limits =
     io_bind (io_gets (\<lambda>w. (is_tls_async w, stream_mode_of limits w))) (\<lambda>(upgraded, m).
     io_then (if upgraded then close_tls m else close_streams m)
     (io_then streams_reset
       (io_modify (\<lambda>w. w\<lparr>is_tls_async := False, streams_detached := False\<rparr>))))"

definition tls_connect_async :: "address \<Rightarrow> rat option \<Rightarrow> ('x tls_stream_endpoint_scheme, unit) prog" where
  "tls_connect_async address transport_timeout =
     io_then (stream_open address transport_timeout)
       (io_modify (\<lambda>w. w\<lparr>is_tls_async := False, streams_detached := False\<rparr>))"

text \<open>
  What the reader has got before the handshake stays in its buffer. A handshake that fails loses
  the connection; one that does not end in time leaves it closed and detached.
\<close>

definition start_tls :: "rat \<Rightarrow> ('x tls_stream_endpoint_scheme, unit) prog" where
  "start_tls timeout =
     io_bind (io_gets (\<lambda>w. (clock w, handshakes w))) (\<lambda>(now, hs).
     io_then (io_modify (\<lambda>w. w\<lparr>handshakes := tl hs,
        connection := map_option (\<lambda>c. c\<lparr>rx := arrived now c\<rparr>) (connection w)\<rparr>))
     (io_bind (wait_until (Some timeout) (case hs of [] \<Rightarrow> None | (a, _) # _ \<Rightarrow> Some a)) (\<lambda>ok.
     io_then (flush_writer socket_mode)
       (case hs of
          (_, Inr tls_conn) # _ \<Rightarrow>
            if ok then
              io_modify (\<lambda>w. w\<lparr>connection := map_option (\<lambda>c. tls_conn\<lparr>rx := rx c @ rx tls_conn, sock_timeout := Some 0\<rparr>) (connection w)\<rparr>)
            else io_then (io_modify (\<lambda>w. w\<lparr>streams_detached := True\<rparr>)) (io_raise SocketTimeout)
        | (_, Inl e) # _ \<Rightarrow>
            if ok then
              io_then (io_modify (\<lambda>w. w\<lparr>connection := map_option (\<lambda>c. c\<lparr>rx := (clock w, RxFail) # rx c\<rparr>) (connection w)\<rparr>))
                (io_raise e)
            else io_then (io_modify (\<lambda>w. w\<lparr>streams_detached := True\<rparr>)) (io_raise SocketTimeout)
        | [] \<Rightarrow> io_then (io_modify (\<lambda>w. w\<lparr>streams_detached := True\<rparr>)) (io_raise SocketTimeout)))))"

definition tls_upgrade_async ::
  "(bytes \<Rightarrow> bytes \<Rightarrow> exn + unit) \<Rightarrow> bytes \<Rightarrow> bytes \<Rightarrow> ('x tls_stream_endpoint_scheme, unit) prog" where
  "tls_upgrade_async load_cert_chain cert_pem key_pem =
     io_bind (io_gets (\<lambda>w. (connection w, is_tls_async w))) (\<lambda>(writer, upgraded).
       if writer = None then io_raise RuntimeError
       else if upgraded then io_raise RuntimeError
       else
         io_then (io_lift (load_cert_chain cert_pem key_pem))
         (io_then (io_catch (start_tls handshake_timeout_s) (\<lambda>e.
            if e = SocketTimeout then io_raise TcpTimeoutException else io_raise e))
           (io_modify (\<lambda>w. w\<lparr>is_tls_async := True\<rparr>))))"

definition tls_bulk_read_async :: "nat \<times> nat \<Rightarrow> int \<Rightarrow> rat option \<Rightarrow> ('x tls_stream_endpoint_scheme, bytes) prog" where
  "tls_bulk_read_async limits numbytes transport_timeout =
     io_bind (io_gets (stream_mode_of limits)) (\<lambda>m. stream_read m numbytes transport_timeout)"

definition tls_bulk_write_async :: "nat \<times> nat \<Rightarrow> bytes \<Rightarrow> rat option \<Rightarrow> ('x tls_stream_endpoint_scheme, int) prog" where
  "tls_bulk_write_async limits data transport_timeout =
     io_bind (io_gets (stream_mode_of limits)) (\<lambda>m. stream_write m data transport_timeout)"

definition TlsTransportAsync ::
  "(bytes \<Rightarrow> bytes \<Rightarrow> exn + unit) \<Rightarrow> nat \<times> nat \<Rightarrow> address \<Rightarrow> 'x tls_stream_endpoint_scheme transport" where
  "TlsTransportAsync load_cert_chain limits address =
     \<lparr>tr_close = tls_close_async limits, tr_connect = tls_connect_async address,
      tr_bulk_read = tls_bulk_read_async limits, tr_bulk_write = tls_bulk_write_async limits,
      tr_tls_upgrade = Some (tls_upgrade_async load_cert_chain), tr_time = sys_time\<rparr>"

lemma TlsTransportAsync_sel [simp]:
  "tr_close (TlsTransportAsync l p a) = tls_close_async p"
  "tr_connect (TlsTransportAsync l p a) = tls_connect_async a"
  "tr_bulk_read (TlsTransportAsync l p a) = tls_bulk_read_async p"
  "tr_bulk_write (TlsTransportAsync l p a) = tls_bulk_write_async p"
  "tr_tls_upgrade (TlsTransportAsync l p a) = Some (tls_upgrade_async l)"
  "tr_time (TlsTransportAsync l p a) = sys_time"
  by (simp_all add: TlsTransportAsync_def)

section \<open>It is a byte transport\<close>

interpretation tls_stream: full_write_transport
  "TlsTransportAsync l p a :: 'x tls_stream_endpoint_scheme transport" endpoint_input stream_output "\<lambda>_. True"
proof unfold_locales
  fix n :: int and t and w :: "'x tls_stream_endpoint_scheme"
  assume "0 < n"
  then show "wp False (tr_bulk_read (TlsTransportAsync l p a) n t)
      (\<lambda>d w'. int (length d) \<le> n \<and> endpoint_input w = d @ endpoint_input w' \<and> stream_output w' = stream_output w)
      (\<lambda>e w'. endpoint_input w' = endpoint_input w \<and> stream_output w' = stream_output w \<and> \<not> malformed e) w"
    by (simp add: tls_bulk_read_async_def wp_simps stream_read_law)
next
  fix d :: bytes and t and w :: "'x tls_stream_endpoint_scheme"
  show "wp False (tr_bulk_write (TlsTransportAsync l p a) d t)
      (\<lambda>k w'. 0 \<le> k \<and> k \<le> int (length d) \<and> stream_output w' = stream_output w @ take (nat k) d \<and>
        endpoint_input w' = endpoint_input w)
      (\<lambda>e w'. (\<exists>k. stream_output w' = stream_output w @ take k d) \<and> endpoint_input w' = endpoint_input w) w"
    by (auto simp: tls_bulk_write_async_def wp_simps intro: wp_mono [OF stream_write_law])
  show "wp False (tr_bulk_write (TlsTransportAsync l p a) d t) (\<lambda>k w'. k = int (length d) \<and> True) (\<lambda>_ _. True) w"
    by (auto simp: tls_bulk_write_async_def wp_simps intro: wp_mono [OF stream_write_law])
qed (simp_all add: wp_simps stream_output_def)

end
