(* ===== verification/Async_Host.thy ===== *)
theory Async_Host
  imports Tls_Transport_Async Host_OS
begin

text \<open>
  The host that an asynchronous TCP device runs on, with the files of \<open>Host_OS\<close>, and the
  constructors of the subclasses of \<open>AdbDeviceAsync\<close> in \<open>adb_shell_wifi/adb_device_async.py\<close>.
\<close>

section \<open>The host\<close>

record async_world = stream_endpoint +
  async_file_sys :: file_system

definition on_async_fs :: "(file_system, 'a) prog \<Rightarrow> (async_world, 'a) prog" where
  "on_async_fs = io_zoom async_file_sys (\<lambda>fs w. w\<lparr>async_file_sys := fs\<rparr>)"

definition async_stream :: "nat \<Rightarrow> async_world stream" where
  "async_stream i =
     \<lparr>st_read = (\<lambda>n. on_async_fs (fs_read i n)), st_write = (\<lambda>d. on_async_fs (fs_write i d)),
      st_fstat_size = on_async_fs (fs_fstat_size i), st_close = on_async_fs (fs_close i)\<rparr>"

definition AsyncTcpHost :: "address \<Rightarrow> async_world host" where
  "AsyncTcpHost address = transport.extend (TcpTransportAsync address)
     \<lparr>gethostname = on_async_fs (io_bind (io_gets hostname) io_lift),
      path_isdir = (\<lambda>p. on_async_fs (io_gets (\<lambda>fs. dirs fs p \<noteq> None))),
      path_listdir = (\<lambda>p. on_async_fs (fs_listdir p)),
      open_rb = (\<lambda>p. io_bind (on_async_fs (fs_open_rb p)) (\<lambda>i. io_return (async_stream i))),
      open_wb = (\<lambda>p. io_bind (on_async_fs (fs_open_wb p)) (\<lambda>i. io_return (async_stream i)))\<rparr>"

lemma AsyncTcpHost_sel [simp]:
  "tr_close (AsyncTcpHost a) = tcp_close_async"
  "tr_connect (AsyncTcpHost a) = tcp_connect_async a"
  "tr_bulk_read (AsyncTcpHost a) = tcp_bulk_read_async"
  "tr_bulk_write (AsyncTcpHost a) = tcp_bulk_write_async"
  "tr_tls_upgrade (AsyncTcpHost a) = None"
  "tr_time (AsyncTcpHost a) = sys_time"
  by (simp_all add: AsyncTcpHost_def TcpTransportAsync_def transport.defs)

interpretation async_host: device_host "AsyncTcpHost a" endpoint_input stream_output "\<lambda>_. True"
  by unfold_locales (simp_all add: wp_simps tcp_stream_laws)

interpretation async_timed_host: timed_host
  "AsyncTcpHost a" endpoint_input stream_output clock clock_tick "\<lambda>_. 0"
  by unfold_locales (simp_all add: wp_simps tcp_connect_async_def tcp_bulk_read_async_def tcp_bulk_write_async_def
      stream_ends tcp_stream_close_ends clock_tick_pos calls_keep_def keeps_def)

section \<open>Constructors\<close>

definition AdbDeviceAsync :: "'w option \<Rightarrow> rat option \<Rightarrow> banner_arg \<Rightarrow> exn + 'w adb_device" where
  "AdbDeviceAsync transport default_timeout b =
     e_bind (banner_of b) (\<lambda>bn.
       case transport of
         None \<Rightarrow> Inl InvalidTransportError
       | Some w \<Rightarrow>
           Inr \<lparr>io_manager = \<lparr>packet_store = [], transport_state = w\<rparr>, available = False,
                banner = bn, default_transport_timeout_s = default_timeout,
                dev_local_id = 0, maxdata = MAX_PUSH_DATA\<rparr>)"

definition AdbDeviceTcpAsync ::
  "async_world \<Rightarrow> pystr \<Rightarrow> int \<Rightarrow> rat option \<Rightarrow> banner_arg \<Rightarrow> exn + async_world host \<times> async_world adb_device" where
  "AdbDeviceTcpAsync w host port default_timeout b =
     e_bind (AdbDeviceAsync (Some (w\<lparr>connection := None, write_buffer := [], writing_paused := False\<rparr>)) default_timeout b) (\<lambda>d.
       Inr (AsyncTcpHost (host, port), d))"

definition AdbDeviceTlsAsync ::
  "bool \<Rightarrow> (bytes \<Rightarrow> bytes \<Rightarrow> exn + unit) \<Rightarrow> nat \<times> nat \<Rightarrow> 'x tls_stream_endpoint_scheme \<Rightarrow> pystr \<Rightarrow> int \<Rightarrow>
     rat option \<Rightarrow> banner_arg \<Rightarrow> exn + 'x tls_stream_endpoint_scheme transport \<times> 'x tls_stream_endpoint_scheme adb_device" where
  "AdbDeviceTlsAsync installed load_cert_chain limits w host port default_timeout b =
     (if \<not> installed then Inl InvalidTransportError
      else e_bind (AdbDeviceAsync (Some (w\<lparr>connection := None, write_buffer := [], writing_paused := False,
               is_tls_async := False, streams_detached := False\<rparr>)) default_timeout b) (\<lambda>d.
        Inr (TlsTransportAsync load_cert_chain limits (host, port), d)))"

end
