(* ===== verification/Async_Properties.thy ===== *)
theory Async_Properties
  imports Async_Alone Async_Host Device_Properties
begin

text \<open>
  What \<open>AdbDeviceAsync\<close> and its transports guarantee, and where they fail: reading while other
  tasks use the device, a service over an asynchronous connection, and what is behind an
  exception of the transports.
\<close>

section \<open>Samples\<close>

definition async_conn :: "bytes \<Rightarrow> conn" where
  "async_conn b = \<lparr>rx = [(0, Data b)], tx = [], sock_timeout = Some 0\<rparr>"

definition async_sample_world :: "bytes \<Rightarrow> async_world" where
  "async_sample_world b = \<lparr>clock = 0, sent = [], dials = (\<lambda>_. []), handshakes = [],
     connection = Some (async_conn b), write_buffer = [], writing_paused = False, async_file_sys = sample_fs\<rparr>"

definition async_sample_device :: "bytes \<Rightarrow> async_world adb_device" where
  "async_sample_device b = \<lparr>io_manager = \<lparr>packet_store = [], transport_state = async_sample_world b\<rparr>,
     available = True, banner = None, default_transport_timeout_s = None, dev_local_id = 0, maxdata = 64\<rparr>"

definition other_info :: transaction_info where
  "other_info = AdbTransactionInfo (Some 2) (Some 3) None 10 None"

lemma async_sample_ok [simp]:
  "endpoint_input (async_sample_world b) = b" "stream_output (async_sample_world b) = []"
  "transport_state (io_manager (async_sample_device b)) = async_sample_world b"
  "packet_store (io_manager (async_sample_device b)) = []"
  "device_ok (async_sample_device b)" "dev_local_id (async_sample_device b) = 0"
  by (simp_all add: async_sample_world_def async_conn_def endpoint_input_def conn_input_def stream_output_def
      async_sample_device_def device_ok_def manager_ok_def)

lemma other_info_ok [simp]:
  "local_id other_info = Some 2" "remote_id other_info = Some 3" "transport_timeout_s other_info = Some 10"
  by (simp_all add: other_info_def AdbTransactionInfo_def Let_def)

section \<open>Tasks that share a device\<close>






lemma frames_head:
  assumes "are_frames (q # qs) fs" and "is_frame p f" and "f @ y = fs @ z"
  shows "q = p \<and> (\<exists>gs. are_frames qs gs \<and> y = gs @ z)"
proof -
  obtain g gs where g: "is_frame q g" "are_frames qs gs" "fs = g @ gs"
    using assms(1) by auto
  with is_frame_unique [OF assms(2) g(1), of y "gs @ z"] assms(3) show ?thesis by auto
qed

text \<open>C36. A packet that closes a stream is lost if another task reads it and nothing has been stored
  for that stream before: the read returns its own packet, the closing packet has been taken off
  the wire, and the stream has no entry in the store. Its task will wait for the packet in vain.\<close>

theorem closing_packet_lost:
  assumes close: "is_frame (CLSE, r2, l2, x) f" "\<not> claims info z (r2, l2)"
    and own: "is_frame p f'" "wanted cmds info z p"
    and info: "local_id info \<noteq> None" "transport_timeout_s info = Some t"
    and store: "store_ok (packet_store (io_manager d))" "nothing_pending info z (packet_store (io_manager d))"
      "store_abs (packet_store (io_manager d)) (r2, l2) = None"
    and wire: "endpoint_input (transport_state (io_manager d)) = f @ f' @ rest"
  shows "wp True (io_read_async (TcpTransportAsync a) alone cmds info z)
    (\<lambda>q d'. q = p \<and> endpoint_input (transport_state (io_manager d')) = rest \<and>
       store_abs (packet_store (io_manager d')) (r2, l2) = None)
    (\<lambda>_ d'. store_abs (packet_store (io_manager d')) (r2, l2) = None) d"
  (is "wp True _ ?Q ?E d")
proof -
  let ?m = "io_manager d"
  have own_claims: "claims info z (fst (snd p), fst (snd (snd p)))"
    using own(2) by (auto simp: wanted_def dest: args_match_claims)
  have first: "\<not> wanted cmds info z (CLSE, r2, l2, x)"
    using close(2) by (auto simp: wanted_def dest: args_match_claims)
  have none: "stream_puts ps (r2, l2) None = None" if "ps = [] \<or> ps = [(CLSE, r2, l2, x)] \<or> ps = [(CLSE, r2, l2, x), p]" for ps
    using that own_claims close(2) by (cases p) (auto simp: stream_puts_def stream_put_def)
  have scan: "ps = [] \<or> ps = [(CLSE, r2, l2, x)] \<or> (\<exists>gs qs. ps = (CLSE, r2, l2, x) # p # qs \<and> are_frames qs gs \<and> rest = gs @ y)"
    if fs: "are_frames ps fs" "f @ f' @ rest = fs @ y" for ps fs y
  proof (cases ps)
    case (Cons q qs)
    with frames_head [OF _ close(1) fs(2)] fs(1) obtain gs where q: "q = (CLSE, r2, l2, x)"
      and gs: "are_frames qs gs" "f' @ rest = gs @ y" by blast
    show ?thesis
    proof (cases qs)
      case (Cons q' qs')
      with frames_head [OF _ own(1) gs(2)] gs(1) show ?thesis using \<open>ps = q # qs\<close> q by auto
    qed (use Cons q in simp)
  qed simp
  have found: "q = p \<and> endpoint_input (transport_state m') = rest \<and> store_abs (packet_store m') (r2, l2) = None"
    if "packet_found endpoint_input stream_output cmds info z q ?m m'" for q m'
  proof -
    have "wanted cmds info z q" using that by (simp add: packet_found_def)
    then have "claims info z (fst (snd q), fst (snd (snd q)))" by (auto simp: wanted_def dest: args_match_claims)
    with store(2) that obtain ps fs where ps: "\<forall>q \<in> set ps. \<not> wanted cmds info z q" "are_frames (ps @ [q]) fs"
      "f @ f' @ rest = fs @ endpoint_input (transport_state m')" "store_after info z (ps @ [q]) (packet_store ?m) (packet_store m')"
      unfolding packet_found_def wire [symmetric] by (cases q) (auto simp: nothing_pending_def)
    from scan [OF ps(2,3)] ps(1) own(2) first \<open>wanted cmds info z q\<close>
    have "ps = [(CLSE, r2, l2, x)] \<and> q = p \<and> rest = endpoint_input (transport_state m')"
      by (auto simp: Cons_eq_append_conv append_eq_Cons_conv)
    with ps(4) none [of "ps @ [q]"] close(2) store(3) show ?thesis by (simp add: store_after_def)
  qed
  show ?thesis
    unfolding io_read_alone wp_on_io
  proof (rule wp_mono [OF tcp_stream_timed.io_read_total [OF store(1) info]])
    fix q m' assume "packet_found endpoint_input stream_output cmds info z q ?m m'"
    from found [OF this] show "?Q q (d\<lparr>io_manager := m'\<rparr>)" by simp
  next
    fix e m' assume "\<exists>ps r. packets_scanned endpoint_input stream_output cmds info z ps r ?m m'"
    then obtain ps r fs where ps: "\<forall>q \<in> set ps. \<not> wanted cmds info z q" "are_frames ps fs"
      "f @ f' @ rest = fs @ r @ endpoint_input (transport_state m')" "store_after info z ps (packet_store ?m) (packet_store m')"
      unfolding packets_scanned_def wire [symmetric] by blast
    from scan [OF ps(2,3)] ps(1) own(2) have "ps = [] \<or> ps = [(CLSE, r2, l2, x)]" by auto
    with ps(4) none [of ps] close(2) store(3) show "?E e (d\<lparr>io_manager := m'\<rparr>)" by (auto simp: store_after_def)
  qed
qed

definition sample_lost :: bytes where
  "sample_lost = frame_of CLSE 3 2 [] @ frame_of WRTE 7 1 [104]"

lemma sample_lost_runs:
  "map_option fst (io_read_async (TcpTransportAsync sample_address) alone [WRTE] sample_info False
     (async_sample_device sample_lost)) = Some (Inr (WRTE, 7, 1, [104]))"
  by code_simp

lemma frame_of_frame:
  "is_frame (CLSE, 3, 2, []) (frame_of CLSE 3 2 [])" "is_frame (WRTE, 7, 1, [104]) (frame_of WRTE 7 1 [104])"
proof -
  have frame: "is_frame (c, a, b, x) f"
    if "f = take 24 f @ x" "unpack (take 24 f) = Inr (cmd_wire c, a, b, int (length x), checksum x)" "c \<in> set IDS" for c a b x f
    using that unfolding is_frame_def prod.case by blast
  show "is_frame (CLSE, 3, 2, []) (frame_of CLSE 3 2 [])"
    by (rule frame) code_simp+
  show "is_frame (WRTE, 7, 1, [104]) (frame_of WRTE 7 1 [104])"
    by (rule frame) code_simp+
qed

theorem closing_packet_lost_witness:
  "\<exists>d'. io_read_async (TcpTransportAsync sample_address) alone [WRTE] sample_info False
      (async_sample_device sample_lost) = Some (Inr (WRTE, 7, 1, [104]), d') \<and>
    endpoint_input (transport_state (io_manager d')) = [] \<and>
    store_abs (packet_store (io_manager d')) (3, 2) = None"
proof -
  obtain d' where run: "io_read_async (TcpTransportAsync sample_address) alone [WRTE] sample_info False
      (async_sample_device sample_lost) = Some (Inr (WRTE, 7, 1, [104]), d')"
    using run_result [OF sample_lost_runs] by blast
  have "endpoint_input (transport_state (io_manager d')) = [] \<and> store_abs (packet_store (io_manager d')) (3, 2) = None"
    using wp_returned [OF closing_packet_lost [OF frame_of_frame(1) _ frame_of_frame(2), where t = 10 and rest = "[]"] run]
    by (simp add: sample_lost_def wanted_def args_match_def claims_def matches_def nothing_pending_def queue_of_def store_abs_def)
  with run show ?thesis by blast
qed






section \<open>A service\<close>






section \<open>Exceptions of the transports\<close>

text \<open>A lost connection ends a wait at once.\<close>

lemma lost_no_timeout:
  assumes "streams_lost w" and "\<not> gone m"
  shows "wp False (stream_drain m t) (\<lambda>_ _. True) (\<lambda>e _. e \<noteq> TcpTimeoutException) (w :: 'x stream_endpoint_scheme)"
proof -
  obtain c where c: "connection w = Some c" "lost (clock w) c" using assms(1) by (auto simp: streams_lost_def)
  have find: "\<exists>b. map_option fst (find (\<lambda>(_, e). e = RxFail) es) = Some b \<and> b \<le> now"
    if "RxFail \<in> snd ` set (takeWhile (\<lambda>(a, _). a \<le> now) es)" for now and es :: "(rat \<times> rx_event) list"
    using that by (induction es) (auto split: if_splits)
  obtain fail_at where fail_at: "first_at (\<lambda>e. e = RxFail) c = Some fail_at" "fail_at \<le> clock w"
    using find [of "clock w" "rx c"] c(2) unfolding lost_def arrived_def first_at_def by blast
  have wait: "wp False (stream_wait m t (Some (min b fail_at))) (\<lambda>_ _. True) (\<lambda>e _. e \<noteq> TcpTimeoutException) w" for b
    using fail_at(2)
    by (auto simp: stream_wait_def wp_simps wp_def wait_until_def deadline_def io_defs min_def max_def split: option.splits)
  have check: "wp False (on_connection (\<lambda>now c'. (if lost now c' then Inl OSError else Inr (), c')))
      (\<lambda>_ _. True) (\<lambda>e _. e \<noteq> TcpTimeoutException) w1" for w1 :: "'x stream_endpoint_scheme"
    by (auto simp: wp_on_connection split: option.split)
  show ?thesis
    using c(1) fail_at(1) assms(2)
    unfolding stream_drain_def wp_bind wp_gets
    by (auto simp: wp_if wp_return wp_bind check intro!: wp_mono [OF wait])
qed

text \<open>C38. A timeout of \<open>bulk_write\<close> does not mean that nothing was sent: the stream has accepted
  all of the data, as it has when \<open>bulk_write\<close> returns, and will go on sending it. The transport
  returns the length of the data, never less, and with a timeout it always ends.\<close>

theorem write_timeout_accepts_data:
  "wp True (tcp_bulk_write_async data (Some t))
    (\<lambda>n w'. n = int (length data) \<and> stream_output w' = stream_output w @ data)
    (\<lambda>e w'. if e = TcpTimeoutException then stream_output w' = stream_output w @ data
       else \<exists>k. stream_output w' = stream_output w @ take k data) (w :: 'x stream_endpoint_scheme)"
proof -
  have drain: "wp False (stream_drain socket_mode (Some t)) (\<lambda>_ _. True)
      (\<lambda>e w'. stream_output w' = stream_output w1 \<and> (streams_lost w1 \<longrightarrow> e \<noteq> TcpTimeoutException)) w1"
    for w1 :: "'x stream_endpoint_scheme"
    by (cases "streams_lost w1")
      (auto simp: socket_mode_def streams_same_def intro: wp_mono [OF wp_conj [OF stream_drain_law lost_no_timeout]]
        wp_mono [OF stream_drain_law])
  have timeout: "wp False (tcp_bulk_write_async data (Some t)) (\<lambda>_ _. True)
      (\<lambda>e w'. e = TcpTimeoutException \<longrightarrow> stream_output w' = stream_output w @ data) w"
  proof (cases "connection w")
    case None
    then show ?thesis by (simp add: tcp_bulk_write_async_def stream_write_def wp_simps)
  next
    case (Some c)
    have put: "wp False (writer_write socket_mode data)
        (\<lambda>_ w'. stream_output w' = stream_output w @ data \<or> streams_lost w') (\<lambda>_ _. False) w"
      using writer_write_wp [of w socket_mode data] Some by (auto simp: wp_total_iff intro: wp_mono)
    show ?thesis
      unfolding tcp_bulk_write_async_def stream_write_def wp_bind wp_gets Some option.case
      by (rule wp_mono [OF put]) (auto simp: wp_return intro!: wp_mono [OF drain])
  qed
  have ends: "wp True (tcp_bulk_write_async data (Some t)) (\<lambda>_ _. True) (\<lambda>_ _. True) w"
    unfolding tcp_bulk_write_async_def by (rule wp_mono [OF stream_ends(2)]) simp_all
  show ?thesis
    by (rule wp_total_from [OF wp_mono [OF wp_conj [OF stream_write_law [of socket_mode data "Some t" w] timeout
            [unfolded tcp_bulk_write_async_def]]] ends [unfolded tcp_bulk_write_async_def],
          folded tcp_bulk_write_async_def]) auto
qed

definition full_socket :: async_world where
  "full_socket = (async_sample_world [])\<lparr>connection := Some \<lparr>rx = [], tx = [(100, Room 1)], sock_timeout = Some 0\<rparr>\<rparr>"

theorem write_timeout_accepts_data_witness:
  "\<exists>w'. tcp_bulk_write_async (replicate 65537 0) (Some 10) full_socket = Some (Inl TcpTimeoutException, w') \<and>
     stream_output w' = replicate 65537 0"
proof -
  have "flush_conn now b \<lparr>rx = [], tx = [(100, Room 1)], sock_timeout = Some 0\<rparr> =
      ([], b, \<lparr>rx = [], tx = [(100, Room 1)], sock_timeout = Some 0\<rparr>)" if "now < 100" for now b
    using that by (simp add: flush_conn_def first_at_def)
  then obtain w' where run: "tcp_bulk_write_async (replicate 65537 0) (Some 10) full_socket = Some (Inl TcpTimeoutException, w')"
    by (auto simp: tcp_bulk_write_async_def stream_write_def writer_write_def stream_drain_def stream_wait_def
        wait_until_def deadline_def socket_mode_def full_socket_def async_sample_world_def writer_flushed_def lost_def
        arrived_def first_at_def io_defs run_simps)
  have "stream_output full_socket = []" by (simp add: full_socket_def)
  with wp_raised [OF write_timeout_accepts_data run] run show ?thesis by auto
qed

section \<open>A handshake that does not end\<close>

lemma flushed_empty:
  "connection w = Some c \<Longrightarrow> write_buffer w = [] \<Longrightarrow> \<not> gone m \<Longrightarrow> 0 \<le> low_water m \<Longrightarrow> writer_flushed m w = w\<lparr>writing_paused := False\<rparr>"
proof -
  have "flush_tx now es [] = ([], [], es)" for now es
    by (cases es) auto
  then show "connection w = Some c \<Longrightarrow> write_buffer w = [] \<Longrightarrow> \<not> gone m \<Longrightarrow> 0 \<le> low_water m \<Longrightarrow> ?thesis"
    by (simp add: writer_flushed_def flush_conn_def)
qed

lemma lost_kept: "\<not> lost now c \<Longrightarrow> \<not> lost later (c\<lparr>rx := arrived now c\<rparr>)"
  unfolding lost_def arrived_def [of later] by (auto dest!: set_takeWhileD)

lemma run_wait_expired:
  assumes "case r of None \<Rightarrow> True | Some a \<Rightarrow> clock w + t < a" and "0 \<le> t"
  shows "wait_until (Some t) r w = Some (Inr False, w\<lparr>clock := clock w + t\<rparr>)"
  using assms by (auto simp: wait_until_def split: option.split)

text \<open>C39. When the device does not answer the handshake, \<open>tls_upgrade\<close> raises after its ten seconds, and
  closing the transport, as the manager does when it connects again, never returns.\<close>

theorem handshake_timeout_blocks_close:
  assumes "connection w = Some c" and "\<not> lost (clock w) c" and "write_buffer w = []" and "\<not> is_tls_async w"
    and "load_cert_chain cert_pem key_pem = Inr ()"
    and "case handshakes w of [] \<Rightarrow> True | (a, _) # _ \<Rightarrow> clock w + handshake_timeout_s < a"
  shows "\<exists>w'. tls_upgrade_async load_cert_chain cert_pem key_pem w = Some (Inl TcpTimeoutException, w') \<and>
    tls_close_async limits w' = None"
proof -
  define c1 where "c1 = c\<lparr>rx := arrived (clock w) c\<rparr>"
  define w1 where "w1 = w\<lparr>handshakes := tl (handshakes w), connection := Some c1\<rparr>"
  define w2 where "w2 = w1\<lparr>clock := clock w + handshake_timeout_s, writing_paused := False, streams_detached := True\<rparr>"
  let ?ready = "case handshakes w of [] \<Rightarrow> None | (a, _) # _ \<Rightarrow> Some a"
  have "wait_until (Some handshake_timeout_s) ?ready w1 =
      Some (Inr False, w1\<lparr>clock := clock w1 + handshake_timeout_s\<rparr>)"
    by (rule run_wait_expired) (use assms(6) in \<open>auto simp: handshake_timeout_s_def w1_def split: list.splits\<close>)
  moreover have "writer_flushed socket_mode (w1\<lparr>clock := clock w1 + handshake_timeout_s\<rparr>) =
      w1\<lparr>clock := clock w1 + handshake_timeout_s, writing_paused := False\<rparr>"
    by (subst flushed_empty) (simp_all add: w1_def assms(3) socket_mode_def)
  ultimately have "start_tls handshake_timeout_s w = Some (Inl SocketTimeout, w2)"
    using assms(1)
    by (auto simp: start_tls_def io_defs run_simps w2_def w1_def c1_def split: list.split sum.split)
  then have "tls_upgrade_async load_cert_chain cert_pem key_pem w = Some (Inl TcpTimeoutException, w2)"
    using assms(1,4,5) by (simp add: tls_upgrade_async_def io_defs)
  moreover have "tls_close_async limits w2 = None"
  proof -
    have not_lost: "\<not> lost now c1" "\<not> lost now (c1\<lparr>rx := arrived x c1\<rparr>)" for now x
      using lost_kept [OF assms(2)] lost_kept unfolding c1_def by blast+
    show ?thesis
      using assms(4) not_lost
      by (simp add: tls_close_async_def close_streams_def stream_close_def stream_mode_of_def socket_mode_def
          on_connection_def stream_wait_def wait_until_def deadline_def io_defs run_simps w2_def w1_def)
  qed
  ultimately show ?thesis by blast
qed

definition silent_handshake :: tls_stream_endpoint where
  "silent_handshake = \<lparr>clock = 0, sent = [], dials = (\<lambda>_. []), handshakes = [], connection = Some (async_conn []),
     write_buffer = [], writing_paused = False, is_tls_async = False, streams_detached = False\<rparr>"

theorem handshake_timeout_blocks_close_witness:
  "\<exists>w'. tls_upgrade_async (\<lambda>_ _. Inr ()) [1] [2] silent_handshake = Some (Inl TcpTimeoutException, w') \<and>
     tls_close_async (100, 50) w' = None"
  by (rule handshake_timeout_blocks_close [where c = "async_conn []"])
    (simp_all add: silent_handshake_def async_conn_def lost_def arrived_def)

end
