(* ===== verification/Discovery.thy ===== *)
theory Discovery
  imports IO_Monad "HOL-Library.AList" "HOL-Library.Multiset"
begin

text \<open>
  Finding devices on the local network: \<open>adb_shell_wifi/mdns/discovery.py\<close> and
  \<open>adb_shell_wifi/mdns/discovery_async.py\<close>. The \<open>zeroconf\<close> package is a record of programs; a
  program that lets callbacks through returns the events they are called with. The locales say
  that no event is kept back, and a network of scripted announcements interprets them.
\<close>

section \<open>Services and events\<close>

definition SERVICE_TYPE_LEGACY :: pystr where
  "SERVICE_TYPE_LEGACY = str_lit ''_adb._tcp.local.''"
definition SERVICE_TYPE_PAIRING :: pystr where
  "SERVICE_TYPE_PAIRING = str_lit ''_adb-tls-pairing._tcp.local.''"
definition SERVICE_TYPE_TLS_CONNECT :: pystr where
  "SERVICE_TYPE_TLS_CONNECT = str_lit ''_adb-tls-connect._tcp.local.''"

record adb_service =
  svc_name :: pystr
  svc_type :: pystr
  svc_host :: pystr
  svc_port :: "int option"

text \<open>
  The answer to a query: all addresses, those of IPv4, and the port. An event has the type and
  the name of its service and, where the listener may ask, what a query would now answer.
\<close>

record service_info =
  parsed_addresses :: "pystr list"
  ipv4_addresses :: "pystr list"
  info_port :: "int option"

datatype service_event =
    Added pystr pystr "service_info option"
  | Removed pystr pystr
  | Updated pystr pystr "service_info option"

text \<open>\<open>name[: -(len(type_) + 1)] if name.endswith("." + type_) else name\<close>\<close>

definition short_name :: "pystr \<Rightarrow> pystr \<Rightarrow> pystr" where
  "short_name ty n =
     (let k = length n - (length ty + 1)
      in if drop k n = of_char (CHR ''.'') # ty then take k n else n)"

definition service_at :: "pystr \<Rightarrow> pystr \<Rightarrow> pystr list \<Rightarrow> int option \<Rightarrow> adb_service option" where
  "service_at ty n ips p =
     (case ips of
        [] \<Rightarrow> None
      | ip # _ \<Rightarrow> Some \<lparr>svc_name = short_name ty n, svc_type = ty, svc_host = ip, svc_port = p\<rparr>)"

section \<open>The listener\<close>

record listener =
  service_types :: "pystr list"
  results :: "(pystr \<times> adb_service) list"

definition Listener :: "pystr list \<Rightarrow> listener" where
  "Listener types = \<lparr>service_types = types, results = []\<rparr>"

definition add_service :: "pystr \<Rightarrow> pystr \<Rightarrow> service_info option \<Rightarrow> listener \<Rightarrow> listener" where
  "add_service ty n info self =
     (if ty \<notin> set (service_types self) then self
      else case info of
        None \<Rightarrow> self
      | Some i \<Rightarrow>
          (case service_at ty n (parsed_addresses i) (info_port i) of
             None \<Rightarrow> self
           | Some s \<Rightarrow> self\<lparr>results := AList.update n s (results self)\<rparr>))"

definition remove_service :: "pystr \<Rightarrow> listener \<Rightarrow> listener" where
  "remove_service n self = self\<lparr>results := AList.delete n (results self)\<rparr>"

definition update_service :: "pystr \<Rightarrow> pystr \<Rightarrow> service_info option \<Rightarrow> listener \<Rightarrow> listener" where
  "update_service = add_service"

fun listen :: "service_event \<Rightarrow> listener \<Rightarrow> listener" where
  "listen (Added t n info) = add_service t n info"
| "listen (Removed t n) = remove_service n"
| "listen (Updated t n info) = update_service t n info"

text \<open>\<open>Zeroconf\<close>, \<open>ServiceBrowser\<close> and the sleep between them, with what the listener is called with.\<close>

record 'w zeroconf =
  zc_open :: "('w, unit) prog"
  zc_browse :: "pystr \<Rightarrow> ('w, service_event list) prog"
  zc_sleep :: "rat \<Rightarrow> ('w, service_event list) prog"
  zc_close :: "('w, unit) prog"

fun browse_services :: "'w zeroconf \<Rightarrow> pystr list \<Rightarrow> listener \<Rightarrow> ('w, listener) prog" where
  "browse_services Z [] l = io_return l"
| "browse_services Z (t # ts) l =
     io_bind (zc_browse Z t) (\<lambda>evs. browse_services Z ts (fold listen evs l))"

definition discover_services :: "'w zeroconf \<Rightarrow> pystr list \<Rightarrow> rat \<Rightarrow> ('w, adb_service list) prog" where
  "discover_services Z types window =
     io_then (zc_open Z)
     (io_bind
       (io_finally
         (io_bind (browse_services Z types (Listener types)) (\<lambda>l.
          io_bind (zc_sleep Z window) (\<lambda>evs. io_return (fold listen evs l))))
         (zc_close Z))
       (\<lambda>l. io_return (map snd (results l))))"

definition discover_pairing_services :: "'w zeroconf \<Rightarrow> rat \<Rightarrow> ('w, adb_service list) prog" where
  "discover_pairing_services Z window = discover_services Z [SERVICE_TYPE_PAIRING] window"

definition discover_connect_services :: "'w zeroconf \<Rightarrow> rat \<Rightarrow> ('w, adb_service list) prog" where
  "discover_connect_services Z window = discover_services Z [SERVICE_TYPE_TLS_CONNECT] window"

section \<open>The collector\<close>

text \<open>The set of services observed is a list without repetitions.\<close>

record collector =
  collector_types :: "pystr list"
  observed :: "(pystr \<times> pystr) list"

definition AsyncCollector :: "pystr list \<Rightarrow> collector" where
  "AsyncCollector types = \<lparr>collector_types = types, observed = []\<rparr>"

definition collect_add :: "pystr \<Rightarrow> pystr \<Rightarrow> collector \<Rightarrow> collector" where
  "collect_add ty n self =
     (if ty \<in> set (collector_types self)
      then self\<lparr>observed := (if (ty, n) \<in> set (observed self) then observed self
                             else observed self @ [(ty, n)])\<rparr>
      else self)"

definition collect_remove :: "pystr \<Rightarrow> pystr \<Rightarrow> collector \<Rightarrow> collector" where
  "collect_remove ty n self = self\<lparr>observed := filter (\<lambda>k. k \<noteq> (ty, n)) (observed self)\<rparr>"

fun collect :: "service_event \<Rightarrow> collector \<Rightarrow> collector" where
  "collect (Added t n info) = collect_add t n"
| "collect (Removed t n) = collect_remove t n"
| "collect (Updated t n info) = collect_add t n"

text \<open>
  The asynchronous interface. \<open>azc_request\<close> is \<open>AsyncServiceInfo.async_request\<close>, with \<open>None\<close> if it
  fails; the browsers go on while it waits.
\<close>

record 'w async_zeroconf =
  azc_open :: "('w, unit) prog"
  azc_browse :: "pystr \<Rightarrow> ('w, unit) prog"
  azc_sleep :: "rat \<Rightarrow> ('w, service_event list) prog"
  azc_request :: "pystr \<Rightarrow> pystr \<Rightarrow> ('w, service_info option \<times> service_event list) prog"
  azc_cancel :: "pystr \<Rightarrow> ('w, unit) prog"
  azc_close :: "('w, unit) prog"

text \<open>
  Iterating over a set: a set whose size has changed since the beginning makes the next step
  raise. In which order the elements come is an argument, of the set and what has come before.
\<close>

type_synonym set_order = "(pystr \<times> pystr) list \<Rightarrow> (pystr \<times> pystr) list \<Rightarrow> (pystr \<times> pystr) option"

definition resolve_body ::
  "'w async_zeroconf \<Rightarrow> set_order \<Rightarrow> nat \<Rightarrow> collector \<times> (pystr \<times> pystr) list \<times> (pystr \<times> adb_service) list \<Rightarrow>
     ('w, (collector \<times> (pystr \<times> pystr) list \<times> (pystr \<times> adb_service) list, (pystr \<times> adb_service) list) loop_ctl) prog" where
  "resolve_body Z order n = (\<lambda>(c, visited, res).
     if length (observed c) \<noteq> n then io_raise RuntimeError
     else case order (observed c) visited of
       None \<Rightarrow> io_return (Break res)
     | Some (ty, nm) \<Rightarrow>
         io_bind (azc_request Z ty nm) (\<lambda>(info, evs).
           let s = Option.bind info (\<lambda>i. service_at ty nm (ipv4_addresses i) (info_port i))
           in io_return (Continue (fold collect evs c, visited @ [(ty, nm)],
                case s of None \<Rightarrow> res | Some x \<Rightarrow> AList.update nm x res))))"

text \<open>\<open>browsers\<close> holds the browsers started so far, also when starting one fails.\<close>

fun start_browsers :: "'w async_zeroconf \<Rightarrow> pystr list \<Rightarrow> pystr list \<Rightarrow> ('w, exn option \<times> pystr list) prog" where
  "start_browsers Z [] browsers = io_return (None, browsers)"
| "start_browsers Z (t # ts) browsers =
     io_bind (io_catch (io_then (azc_browse Z t) (io_return None)) (\<lambda>e. io_return (Some e))) (\<lambda>r.
       case r of
         Some e \<Rightarrow> io_return (Some e, browsers)
       | None \<Rightarrow> start_browsers Z ts (browsers @ [t]))"

fun stop_browsers :: "'w async_zeroconf \<Rightarrow> pystr list \<Rightarrow> ('w, unit) prog" where
  "stop_browsers Z [] = azc_close Z"
| "stop_browsers Z (t # ts) = io_then (azc_cancel Z t) (stop_browsers Z ts)"

definition discover_services_async ::
  "'w async_zeroconf \<Rightarrow> set_order \<Rightarrow> pystr list \<Rightarrow> rat \<Rightarrow> ('w, adb_service list) prog" where
  "discover_services_async Z order types window =
     io_then (azc_open Z)
     (io_bind (start_browsers Z types []) (\<lambda>(failed, browsers).
       io_finally
         (case failed of
            Some e \<Rightarrow> io_raise e
          | None \<Rightarrow>
              io_bind (azc_sleep Z window) (\<lambda>evs.
                let c = fold collect evs (AsyncCollector types)
                in io_bind (io_loop (resolve_body Z order (length (observed c))) (c, [], []))
                     (\<lambda>res. io_return (map snd res))))
         (stop_browsers Z browsers)))"

definition discover_pairing_services_async :: "'w async_zeroconf \<Rightarrow> set_order \<Rightarrow> rat \<Rightarrow> ('w, adb_service list) prog" where
  "discover_pairing_services_async Z order window = discover_services_async Z order [SERVICE_TYPE_PAIRING] window"

definition discover_connect_services_async :: "'w async_zeroconf \<Rightarrow> set_order \<Rightarrow> rat \<Rightarrow> ('w, adb_service list) prog" where
  "discover_connect_services_async Z order window =
     discover_services_async Z order [SERVICE_TYPE_TLS_CONNECT] window"

section \<open>What is found\<close>

text \<open>
  Every query for a service has the same answer, with addresses of IPv4 only, and the name of a
  service tells its type.
\<close>

definition steady :: "(pystr \<Rightarrow> pystr \<Rightarrow> service_info option) \<Rightarrow> (pystr \<Rightarrow> pystr) \<Rightarrow> service_event \<Rightarrow> bool" where
  "steady resolve type_of ev =
     (case ev of
        Added t n info \<Rightarrow> t = type_of n \<and> info = resolve t n
      | Removed t n \<Rightarrow> t = type_of n
      | Updated t n info \<Rightarrow> t = type_of n \<and> info = resolve t n)"

definition ipv4_only :: "(pystr \<Rightarrow> pystr \<Rightarrow> service_info option) \<Rightarrow> bool" where
  "ipv4_only resolve \<longleftrightarrow> (\<forall>t n i. resolve t n = Some i \<longrightarrow> parsed_addresses i = ipv4_addresses i)"

definition found_at :: "(pystr \<Rightarrow> pystr \<Rightarrow> service_info option) \<Rightarrow> pystr \<Rightarrow> pystr \<Rightarrow> adb_service option" where
  "found_at resolve t n = Option.bind (resolve t n) (\<lambda>i. service_at t n (ipv4_addresses i) (info_port i))"

text \<open>The services of a set of observations, as a map from names.\<close>

definition catalog ::
  "(pystr \<Rightarrow> pystr \<Rightarrow> service_info option) \<Rightarrow> (pystr \<Rightarrow> pystr) \<Rightarrow> (pystr \<times> pystr) set \<Rightarrow> pystr \<Rightarrow> adb_service option" where
  "catalog resolve type_of obs n = (if (type_of n, n) \<in> obs then found_at resolve (type_of n) n else None)"

definition lists_catalog :: "(pystr \<times> adb_service) list \<Rightarrow> (pystr \<Rightarrow> adb_service option) \<Rightarrow> bool" where
  "lists_catalog res m \<longleftrightarrow> distinct (map fst res) \<and> map_of res = m"

lemma lists_catalog_set: "lists_catalog res m \<Longrightarrow> set (map snd res) = ran m"
  by (force simp: lists_catalog_def ran_distinct)

lemma lists_catalog_Nil [simp]: "lists_catalog [] m \<longleftrightarrow> m = Map.empty"
  by (auto simp: lists_catalog_def)

lemma lists_catalog_update: "lists_catalog res m \<Longrightarrow> lists_catalog (AList.update n s res) (m(n \<mapsto> s))"
  by (simp add: lists_catalog_def AList.distinct_update update_conv')

lemma lists_catalog_delete: "lists_catalog res m \<Longrightarrow> lists_catalog (AList.delete n res) (m(n := None))"
  by (simp add: lists_catalog_def AList.distinct_delete delete_conv')

lemma catalog_insert:
  "catalog resolve type_of (insert (type_of n, n) obs) =
     (catalog resolve type_of obs)(n := found_at resolve (type_of n) n)"
  by (auto simp: catalog_def fun_eq_iff)

lemma catalog_remove:
  "catalog resolve type_of (obs - {(type_of n, n)}) = (catalog resolve type_of obs)(n := None)"
  by (auto simp: catalog_def fun_eq_iff)

lemma lists_catalog_found:
  "lists_catalog res (catalog resolve type_of obs) \<Longrightarrow>
     lists_catalog (case found_at resolve (type_of n) n of None \<Rightarrow> res | Some s \<Rightarrow> AList.update n s res)
       (catalog resolve type_of (insert (type_of n, n) obs))"
  by (cases "found_at resolve (type_of n) n")
    (auto simp: catalog_insert AList.distinct_update update_conv' lists_catalog_def fun_eq_iff catalog_def)

text \<open>The listener and the collector in step.\<close>

definition in_step ::
  "(pystr \<Rightarrow> pystr \<Rightarrow> service_info option) \<Rightarrow> (pystr \<Rightarrow> pystr) \<Rightarrow> listener \<Rightarrow> collector \<Rightarrow> bool" where
  "in_step resolve type_of l c \<longleftrightarrow> service_types l = collector_types c \<and> distinct (observed c) \<and>
     (\<forall>(t, n) \<in> set (observed c). t = type_of n \<and> t \<in> set (collector_types c)) \<and>
     lists_catalog (results l) (catalog resolve type_of (set (observed c)))"

lemma in_step_start: "in_step resolve type_of (Listener types) (AsyncCollector types)"
  by (auto simp: in_step_def Listener_def AsyncCollector_def catalog_def)

lemma add_in_step:
  assumes "ipv4_only resolve" and "in_step resolve type_of l c"
  shows "in_step resolve type_of (add_service (type_of n) n (resolve (type_of n) n) l) (collect_add (type_of n) n c)"
proof (cases "type_of n \<in> set (service_types l)")
  case True
  let ?c = "collect_add (type_of n) n c"
  have l: "add_service (type_of n) n (resolve (type_of n) n) l =
      l\<lparr>results := (case found_at resolve (type_of n) n of None \<Rightarrow> results l | Some s \<Rightarrow> AList.update n s (results l))\<rparr>"
    using True assms(1)
    by (auto simp: add_service_def found_at_def ipv4_only_def split: option.split)
  have c: "set (observed ?c) = insert (type_of n, n) (set (observed c))" "collector_types ?c = collector_types c"
    "distinct (observed c) \<Longrightarrow> distinct (observed ?c)"
    using True assms(2) by (auto simp: in_step_def collect_add_def)
  have "lists_catalog (results (add_service (type_of n) n (resolve (type_of n) n) l))
      (catalog resolve type_of (set (observed ?c)))"
    using assms(2) lists_catalog_found unfolding l c(1) in_step_def by simp
  with assms(2) True c show ?thesis by (simp add: in_step_def l)
next
  case False
  then show ?thesis using assms(2) by (simp add: add_service_def collect_add_def in_step_def)
qed

lemma remove_in_step:
  assumes "in_step resolve type_of l c"
  shows "in_step resolve type_of (remove_service n l) (collect_remove (type_of n) n c)"
proof -
  have "set (observed (collect_remove (type_of n) n c)) = set (observed c) - {(type_of n, n)}"
    by (auto simp: collect_remove_def)
  with assms show ?thesis
    by (auto simp: in_step_def remove_service_def collect_remove_def catalog_remove lists_catalog_delete)
qed

lemma events_in_step:
  assumes "ipv4_only resolve" and "\<forall>ev \<in> set evs. steady resolve type_of ev"
    and "in_step resolve type_of l c"
  shows "in_step resolve type_of (fold listen evs l) (fold collect evs c)"
  using assms(2,3)
proof (induction evs arbitrary: l c)
  case (Cons ev evs)
  have "in_step resolve type_of (listen ev l) (collect ev c)"
    using Cons.prems add_in_step [OF assms(1)] remove_in_step
    by (cases ev) (auto simp: steady_def update_service_def)
  with Cons show ?case by simp
qed simp

section \<open>Resolving what was observed\<close>

text \<open>An order brings every element of a set that does not change once.\<close>

definition iterates_sets :: "set_order \<Rightarrow> bool" where
  "iterates_sets order \<longleftrightarrow> (\<forall>S visited. set visited \<subseteq> set S \<longrightarrow>
     (case order S visited of None \<Rightarrow> set S \<subseteq> set visited | Some k \<Rightarrow> k \<in> set S \<and> k \<notin> set visited))"

lemma iterates_setsD:
  assumes "iterates_sets order" and "set visited \<subseteq> set S"
  shows "order S visited = None \<Longrightarrow> set visited = set S"
    and "order S visited = Some k \<Longrightarrow> k \<in> set S \<and> k \<notin> set visited"
  using assms(2) assms(1) [unfolded iterates_sets_def, rule_format, OF assms(2)] by auto

text \<open>While the network is quiet, a query is answered and no callback comes in between.\<close>

locale quiet_network =
  fixes Z :: "'w async_zeroconf"
    and quiet :: "'w \<Rightarrow> bool"
    and resolve :: "pystr \<Rightarrow> pystr \<Rightarrow> service_info option"
  assumes request_quiet: "quiet w \<Longrightarrow>
    wp True (azc_request Z t n) (\<lambda>(info, evs) w'. info = resolve t n \<and> evs = [] \<and> quiet w') (\<lambda>_ _. False) w"
begin

lemma resolves_all:
  assumes order: "iterates_sets order" and types: "\<forall>(t, n) \<in> set (observed c). t = type_of n" and start: "quiet w"
  shows "wp True (io_loop (resolve_body Z order (length (observed c))) (c, [], []))
    (\<lambda>res _. lists_catalog res (catalog resolve type_of (set (observed c)))) (\<lambda>_ _. False) w"
proof (rule loop_total [where I = "\<lambda>(c', visited, res) w. c' = c \<and> quiet w \<and> set visited \<subseteq> set (observed c) \<and>
      lists_catalog res (catalog resolve type_of (set visited))"
    and \<mu> = "\<lambda>(_, visited, _) _. card (set (observed c) - set visited)"])
  fix a and w :: 'w
  assume inv: "(\<lambda>(c', visited, res) w. c' = c \<and> quiet w \<and> set visited \<subseteq> set (observed c) \<and>
      lists_catalog res (catalog resolve type_of (set visited))) a w"
  obtain visited res where a: "a = (c, visited, res)" and w: "quiet w" and sub: "set visited \<subseteq> set (observed c)"
    and res: "lists_catalog res (catalog resolve type_of (set visited))"
    using inv by (cases a) auto
  show "wp True (resolve_body Z order (length (observed c)) a)
    (loop_post (\<lambda>a' w'. (\<lambda>(c', visited, res) w. c' = c \<and> quiet w \<and> set visited \<subseteq> set (observed c) \<and>
          lists_catalog res (catalog resolve type_of (set visited))) a' w' \<and>
        (\<lambda>(_, visited, _) _. card (set (observed c) - set visited)) a' w' <
        (\<lambda>(_, visited, _) _. card (set (observed c) - set visited)) a w)
      (\<lambda>res _. lists_catalog res (catalog resolve type_of (set (observed c))))) (\<lambda>_ _. False) w"
  proof (cases "order (observed c) visited")
    case None
    with iterates_setsD [OF order sub] have "set visited = set (observed c)" by blast
    with None res show ?thesis by (simp add: a resolve_body_def wp_return)
  next
    case (Some k)
    obtain t n where k: "k = (t, n)" by (cases k)
    have new: "(t, n) \<in> set (observed c)" "(t, n) \<notin> set visited"
      using iterates_setsD(2) [OF order sub Some] k by simp_all
    then have t: "t = type_of n" using types by auto
    have less: "card (set (observed c) - insert (t, n) (set visited)) < card (set (observed c) - set visited)"
      using new by (intro psubset_card_mono) auto
    have body: "resolve_body Z order (length (observed c)) a =
      io_bind (azc_request Z t n) (\<lambda>(info, evs).
        io_return (Continue (fold collect evs c, visited @ [(t, n)],
          case Option.bind info (\<lambda>i. service_at t n (ipv4_addresses i) (info_port i)) of
            None \<Rightarrow> res | Some x \<Rightarrow> AList.update n x res)))"
      by (simp add: a resolve_body_def Some k Let_def)
    show ?thesis
      unfolding body wp_bind
      by (rule wp_mono [OF request_quiet [OF w]])
        (use new sub less lists_catalog_found [OF res, of n, unfolded found_at_def] in \<open>auto simp: wp_return a t\<close>)
  qed
qed (use start in \<open>simp_all add: catalog_def fun_eq_iff\<close>)

end

section \<open>A network\<close>

text \<open>Announcements with their times; a query takes its time. No call fails but a negative sleep.\<close>

record mdns_net =
  mdns_clock :: rat
  announcements :: "(rat \<times> service_event) list"
  query_time :: rat

definition mdns_wait :: "rat \<Rightarrow> (mdns_net, service_event list) prog" where
  "mdns_wait t w =
     Some (Inr (map snd (filter (\<lambda>(a, _). a \<le> mdns_clock w + t) (announcements w))),
       w\<lparr>mdns_clock := mdns_clock w + t,
         announcements := filter (\<lambda>(a, _). mdns_clock w + t < a) (announcements w)\<rparr>)"

definition net_zeroconf :: "mdns_net zeroconf" where
  "net_zeroconf = \<lparr>zc_open = io_return (), zc_browse = (\<lambda>_. io_return []),
     zc_sleep = (\<lambda>t. if t < 0 then io_raise ValueError else mdns_wait t), zc_close = io_return ()\<rparr>"

definition net_async_zeroconf :: "(pystr \<Rightarrow> pystr \<Rightarrow> service_info option) \<Rightarrow> mdns_net async_zeroconf" where
  "net_async_zeroconf resolve = \<lparr>azc_open = io_return (), azc_browse = (\<lambda>_. io_return ()),
     azc_sleep = (\<lambda>t. mdns_wait (max 0 t)),
     azc_request = (\<lambda>t n. io_bind (io_gets query_time) (\<lambda>q. io_bind (mdns_wait q) (\<lambda>evs. io_return (resolve t n, evs)))),
     azc_cancel = (\<lambda>_. io_return ()), azc_close = io_return ()\<rparr>"

interpretation net: quiet_network "net_async_zeroconf resolve" "\<lambda>w. announcements w = []" resolve
  by unfold_locales (simp add: net_async_zeroconf_def mdns_wait_def wp_def io_defs)

lemma net_browse: "browse_services net_zeroconf types l = io_return l"
  by (induction types arbitrary: l) (simp_all add: net_zeroconf_def io_defs fun_eq_iff)

lemma net_start: "start_browsers (net_async_zeroconf resolve) types bs = io_return (None, bs @ types)"
  by (induction types arbitrary: bs) (simp_all add: net_async_zeroconf_def io_defs fun_eq_iff)

lemma net_stop: "stop_browsers (net_async_zeroconf resolve) bs = io_return ()"
  by (induction bs) (simp_all add: net_async_zeroconf_def io_defs fun_eq_iff)

lemma run_net_discover:
  "0 \<le> window \<Longrightarrow> discover_services net_zeroconf types window w =
     (case mdns_wait window w of Some (Inr evs, w') \<Rightarrow>
        Some (Inr (map snd (results (fold listen evs (Listener types)))), w'))"
  unfolding discover_services_def net_browse
  by (simp add: net_zeroconf_def mdns_wait_def io_defs)

lemma run_net_discover_async:
  "0 \<le> window \<Longrightarrow> discover_services_async (net_async_zeroconf resolve) order types window w =
     (case mdns_wait window w of Some (Inr evs, w1) \<Rightarrow>
        io_bind (io_loop (resolve_body (net_async_zeroconf resolve) order
            (length (observed (fold collect evs (AsyncCollector types))))) (fold collect evs (AsyncCollector types), [], []))
          (\<lambda>res. io_return (map snd res)) w1)"
  unfolding discover_services_async_def net_start net_stop
  by (simp add: net_async_zeroconf_def mdns_wait_def io_defs Let_def max_absorb2 split: option.split sum.split)

section \<open>Both find the same\<close>

lemma lists_catalog_mset:
  assumes "lists_catalog res m" and "lists_catalog res' m"
  shows "mset res = mset res'"
proof -
  have "set res = set res'"
    using assms unfolding lists_catalog_def by (metis map_of_inject_set)
  then show ?thesis
    using assms by (metis distinct_map lists_catalog_def set_eq_iff_mset_eq_distinct)
qed

text \<open>C14. On a network where services answer queries the same way throughout the search, by IPv4, and
  announce nothing after it, \<open>discover_services\<close> and \<open>discover_services_async\<close> return, and return
  the same services in some order, whatever has been announced and withdrawn, and in whatever order
  a set is iterated over.\<close>

theorem discovery_agrees:
  assumes "ipv4_only resolve" and "iterates_sets order" and "0 \<le> window"
    and anns: "\<forall>(a, ev) \<in> set (announcements w). a \<le> mdns_clock w + window \<and> steady resolve type_of ev"
  shows "\<exists>ss ss' w1 w2. discover_services net_zeroconf types window w = Some (Inr ss, w1) \<and>
    discover_services_async (net_async_zeroconf resolve) order types window w = Some (Inr ss', w2) \<and> mset ss = mset ss'"
proof -
  obtain evs w1 where run: "mdns_wait window w = Some (Inr evs, w1)" by (simp add: mdns_wait_def)
  let ?l = "fold listen evs (Listener types)" and ?c = "fold collect evs (AsyncCollector types)"
  have evs: "\<forall>ev \<in> set evs. steady resolve type_of ev" and quiet: "announcements w1 = []"
    using run anns by (fastforce simp: mdns_wait_def filter_empty_conv)+
  have step: "in_step resolve type_of ?l ?c"
    by (rule events_in_step [OF assms(1) evs in_step_start])
  then have "\<forall>(t, n) \<in> set (observed ?c). t = type_of n" by (auto simp: in_step_def)
  from net.resolves_all [OF assms(2) this quiet, of resolve]
  obtain res w2 where loop: "io_loop (resolve_body (net_async_zeroconf resolve) order (length (observed ?c))) (?c, [], []) w1 =
      Some (Inr res, w2)" and res: "lists_catalog res (catalog resolve type_of (set (observed ?c)))"
    by (auto simp: wp_def split: option.splits sum.splits)
  have "mset (results ?l) = mset res"
    using lists_catalog_mset [OF _ res] step by (simp add: in_step_def)
  then have "mset (map snd (results ?l)) = mset (map snd res)" by simp
  with loop run show ?thesis
    by (simp add: run_net_discover [OF assms(3)] run_net_discover_async [OF assms(3)] io_defs)
qed

definition first_unvisited :: set_order where
  "first_unvisited S visited = find (\<lambda>k. k \<notin> set visited) S"

lemma first_unvisited_iterates: "iterates_sets first_unvisited"
proof -
  have "find P S = Some k \<Longrightarrow> k \<in> set S \<and> P k" for P k and S :: "(pystr \<times> pystr) list"
    by (induction S) (auto split: if_splits)
  then show ?thesis
    unfolding iterates_sets_def first_unvisited_def by (auto simp: find_None_iff split: option.split)
qed

definition sample_net :: mdns_net where
  "sample_net = \<lparr>mdns_clock = 0,
     announcements = [(1, Added [1] [2, 46, 1] (Some \<lparr>parsed_addresses = [[49]], ipv4_addresses = [[49]], info_port = Some 5\<rparr>)),
       (2, Added [1] [3, 46, 1] None), (3, Removed [1] [3, 46, 1])], query_time = 2\<rparr>"

definition sample_resolve :: "pystr \<Rightarrow> pystr \<Rightarrow> service_info option" where
  "sample_resolve t n = (if n = [2, 46, 1] then Some \<lparr>parsed_addresses = [[49]], ipv4_addresses = [[49]], info_port = Some 5\<rparr> else None)"

lemma mset_singleton: "mset [x] = mset ys \<Longrightarrow> ys = [x]"
  using mset_single_iff [of ys x] by simp

lemma sample_net_runs:
  "map_option fst (discover_services net_zeroconf [[1]] 4 sample_net) =
     Some (Inr [\<lparr>svc_name = [2], svc_type = [1], svc_host = [49], svc_port = Some 5\<rparr>])"
  by code_simp

theorem discovery_agrees_witness:
  "\<exists>w2. discover_services_async (net_async_zeroconf sample_resolve) first_unvisited [[1]] 4 sample_net =
     Some (Inr [\<lparr>svc_name = [2], svc_type = [1], svc_host = [49], svc_port = Some 5\<rparr>], w2)"
proof -
  have "ipv4_only sample_resolve" by (auto simp: ipv4_only_def sample_resolve_def split: if_splits)
  then have "\<exists>ss ss' w1 w2. discover_services net_zeroconf [[1]] 4 sample_net = Some (Inr ss, w1) \<and>
    discover_services_async (net_async_zeroconf sample_resolve) first_unvisited [[1]] 4 sample_net = Some (Inr ss', w2) \<and>
    mset ss = mset ss'"
    by (rule discovery_agrees [OF _ first_unvisited_iterates, where type_of = "\<lambda>_. [1]"])
      (simp_all add: sample_net_def steady_def sample_resolve_def)
  then show ?thesis
    using run_result [OF sample_net_runs] by (auto simp: mset_singleton)
qed

text \<open>C37. The browsers keep running while the services found are resolved. If a service appears or
  disappears during the first query, so that the number of services observed changes,
  \<open>discover_services_async\<close> raises \<open>RuntimeError\<close> and what it has found is lost.\<close>

theorem late_event_aborts_discovery:
  assumes "0 \<le> window"
    and c: "c = fold collect (map snd (filter (\<lambda>(a, _). a \<le> mdns_clock w + window) (announcements w))) (AsyncCollector types)"
    and first: "order (observed c) [] = Some (t, n)"
    and late: "late = map snd (filter (\<lambda>(a, _). mdns_clock w + window < a \<and> a \<le> mdns_clock w + window + query_time w) (announcements w))"
    and size: "length (observed (fold collect late c)) \<noteq> length (observed c)"
  shows "\<exists>w'. discover_services_async (net_async_zeroconf resolve) order types window w = Some (Inl RuntimeError, w')"
proof -
  define w1 where "w1 = w\<lparr>mdns_clock := mdns_clock w + window,
    announcements := filter (\<lambda>(a, _). mdns_clock w + window < a) (announcements w)\<rparr>"
  let ?n = "length (observed c)"
  let ?body = "resolve_body (net_async_zeroconf resolve) order ?n"
  obtain w2 res where step: "?body (c, [], []) w1 = Some (Inr (Continue (fold collect late c, [(t, n)], res)), w2)"
    using first by (auto simp: resolve_body_def net_async_zeroconf_def mdns_wait_def w1_def late io_defs filter_filter
        case_prod_unfold conj_commute)
  have "?body (fold collect late c, [(t, n)], res) w2 = Some (Inl RuntimeError, w2)"
    using size by (simp add: resolve_body_def io_defs)
  with step have "io_loop ?body (c, [], []) w1 = Some (Inl RuntimeError, w2)"
    by (simp add: io_loop.simps)
  then show ?thesis
    by (simp add: run_net_discover_async [OF assms(1)] mdns_wait_def c [symmetric] w1_def [symmetric] io_bind_def)
qed

theorem late_event_aborts_discovery_witness:
  "\<exists>w'. discover_services_async (net_async_zeroconf (\<lambda>_ _. None)) first_unvisited [[1]] 4
     \<lparr>mdns_clock = 0, announcements = [(1, Added [1] [2, 46, 1] None), (5, Added [1] [3, 46, 1] None)], query_time = 2\<rparr> =
     Some (Inl RuntimeError, w')"
  by (rule late_event_aborts_discovery [where t = "[1]" and n = "[2, 46, 1]", OF _ refl _ refl])
    (simp_all add: AsyncCollector_def collect_add_def first_unvisited_def)

end
