(* ===== verification/Ssl_Context.thy ===== *)
theory Ssl_Context
  imports IO_Monad
begin

text \<open>
  \<open>_make_ssl_context\<close> of \<open>adb_shell_wifi/transport/tls_transport.py\<close>, which both TLS transports
  use: the settings of the context, and the temporary files through which \<open>ssl\<close> gets the
  certificate and the private key. \<open>load_cert_chain\<close> is an argument, of the contents of the files;
  the function as a whole is what the transports have as their argument of that name.
\<close>

section \<open>A disk\<close>












section \<open>The context\<close>

datatype tls_version = TLSv1_2 | TLSv1_3
datatype verify_mode = CERT_NONE | CERT_REQUIRED





section \<open>The files are gone\<close>










end
