(* ===== verification/Spec2Isabelle.thy ===== *)
theory Spec2Isabelle
  imports Wire_Properties Device_Properties Pairing_Properties Usb_Properties Auth_Properties Adb_Devices Async_Properties Discovery Ssl_Context
begin

text \<open>
  A verification library for \<open>adb_shell_wifi\<close>, a Python implementation of the host side of the
  Android Debug Bridge (\<open>src/adb_shell_wifi\<close>).

  \<^bold>\<open>The program.\<close> An \<open>AdbDevice\<close> runs services (shell, exec, root, reboot) and file operations
  (list, stat, pull, push) on an Android device. Each opens a stream, exchanges packets of a
  24-byte header and a payload with the device, and closes the stream. All packets go through an
  \<open>_AdbIOManager\<close>, which keeps the packets that arrive for other streams in an \<open>_AdbPacketStore\<close>
  and runs the connection handshake (authentication, or an upgrade to TLS). Below it is a
  transport: TCP, TLS or USB. \<open>AdbDeviceAsync\<close> is the same device for the tasks of an event loop,
  with transports over asyncio streams. Signers hold the keys of the host, and \<open>keygen\<close> writes
  them. Pairing over Wi-Fi is a separate protocol: SPAKE2 under TLS 1.3, then peer information
  encrypted by AES-GCM. Devices to pair with or to connect to are found by multicast DNS.

  \<^bold>\<open>How the code is modelled.\<close> A method that changes state is a \<open>prog\<close> (theory \<open>IO_Monad\<close>):
  a function of the state that returns or raises with a new state, or gives \<open>None\<close> if it never
  ends. A raise, a return in a loop and a \<open>finally\<close> are combinators, so the definitions follow
  the source branch by branch. A loop whose end depends on the device or on the clock is an
  \<open>io_loop\<close>, a \<open>partial_function\<close> without fuel; that it ends is proved where it does. Python
  integers are \<open>int\<close>, \<open>bytes\<close> are lists of 8-bit words, \<open>str\<close> are lists of code points, times are
  rationals. Exceptions are the datatype \<open>exn\<close> with the data the code puts in them, without texts.

  \<^bold>\<open>Theories and sources.\<close>
  \<^item> \<open>Prelude\<close>, \<open>IO_Monad\<close>: vocabulary, \<open>exceptions.py\<close>, programs, weakest preconditions \<open>wp\<close>, and
    the rule collections \<open>wp_simps\<close>, \<open>keeps_intros\<close> (invariants) and \<open>ends_intros\<close> (termination).
  \<^item> \<open>Struct_Pack\<close>, \<open>Utf8\<close>: what is used of \<open>struct\<close> and of the UTF-8 codec.
  \<^item> \<open>Constants\<close> (\<open>constants.py\<close>), \<open>Adb_Message\<close> (\<open>adb_message.py\<close>), \<open>Packet_Store\<close> and
    \<open>Transaction_Info\<close> (\<open>hidden_helpers.py\<close>).
  \<^item> \<open>Transport\<close> (\<open>base_transport.py\<close>): the interface as a record of programs, with the locales
    \<open>byte_transport\<close>, \<open>live_transport\<close> and \<open>timed_source\<close> as its contract. \<open>Sockets\<close> is a
    scripted network; \<open>Tcp_Transport\<close>, \<open>Tls_Transport\<close>, \<open>Usb_Transport\<close> are the transports, and
    with \<open>Usb_World\<close> they interpret the locales.
  \<^item> \<open>Ssl_Context\<close> (\<open>tls_transport.py\<close>): the TLS context and the temporary files of its key.
  \<^item> \<open>IO_Manager\<close>, \<open>Adb_Device\<close>, \<open>File_Sync\<close>, \<open>Adb_Devices\<close> (\<open>adb_device.py\<close>): the manager, the
    device with its connections, streams and services, the file operations, the constructors.
  \<^item> \<open>Async_Manager\<close>, \<open>Async_Device\<close>, \<open>Async_File_Sync\<close> (\<open>adb_device_async.py\<close>): what one task does, with
    a function \<open>Y\<close> for what the others do to the device wherever the task waits. \<open>Async_Streams\<close> is a
    model of \<open>StreamReader\<close> and \<open>StreamWriter\<close> on the scripted network, \<open>Tcp_Transport_Async\<close> and
    \<open>Tls_Transport_Async\<close> (\<open>transport/\<close>) are the transports over it, and \<open>Async_Host\<close> has the
    constructors of the asynchronous devices.
  \<^item> \<open>Base64\<close>, \<open>Keygen\<close>, \<open>Signers\<close>, \<open>X509\<close> (\<open>auth/\<close>): key files, the three signers, certificates.
  \<^item> \<open>Discovery\<close> (\<open>mdns/\<close>): the listener and the collector of services, and both searches.
  \<^item> \<open>Pairing_Packets\<close>, \<open>Pairing_Auth\<close>, \<open>Pairing_Connection\<close>, \<open>Pairing_Device\<close> (\<open>pairing/\<close>), and
    \<open>Pairing_World\<close>, a scripted TLS connection on which pairing runs.
  \<^item> \<open>Host_OS\<close>: the files, the clock and the host name that device operations use; \<open>Samples\<close>:
    concrete worlds.

  \<^bold>\<open>What is shown.\<close>
  \<^item> \<open>Deadlines\<close>: a loop that looks at the clock ends. \<open>IO_Manager_Spec\<close>: frames on the wire; \<open>read\<close> returns the right packet, consumes whole packets
    and loses none. \<open>IO_Manager_Live\<close>, \<open>IO_Manager_Progress\<close>, \<open>Device_Live\<close>: every operation
    ends, by a potential that each packet lowers.
  \<^item> \<open>Async_Reads\<close>, \<open>Async_Sends\<close>: tasks that share a device, in the style of rely and guarantee. If
    the others file the packets they read for this task and keep off the wire while it has the
    transport lock, a read accounts for all packets of its stream and a packet sent stays in one
    piece; and tasks that read and send do keep to that. \<open>Async_Alone\<close>: used by one task,
    the asynchronous device is the device.
  \<^item> \<open>Conversation\<close>, \<open>Adb_Device_Spec\<close>, \<open>File_Sync_Spec\<close>: what an operation sends and receives is a
    list of events, and the events refine to the bytes on the wire. \<open>Device_Invariant\<close>: the
    invariant that every operation keeps.
  \<^item> \<open>Wire_Properties\<close>, \<open>Device_Properties\<close>, \<open>Async_Properties\<close>, \<open>Pairing_Properties\<close>,
    \<open>Usb_Properties\<close>, \<open>Auth_Properties\<close> instantiate them on the transports; some properties of a single component are in its own theory.

  \<^bold>\<open>Bounds.\<close> No definition has fuel. On the scripted networks an operation of a socket or of the
  clock takes a positive time, so a deadline comes; a wait that nothing can end is \<open>None\<close>. The
  fixed sizes (24-byte headers, 8192-byte peer information, 32-bit ids) are those of the code.

  \<^bold>\<open>Not modelled.\<close> Library code is a parameter: \<open>usb1\<close>, pyOpenSSL and \<open>ssl\<close> (a handshake has a
  scripted outcome), SPAKE2, HKDF and AES-GCM, RSA signatures, ASN.1 and X.509, \<open>zeroconf\<close>. Of
  asyncio, sockets, \<open>select\<close>, files and temporary files there is a model of what the code uses.
  The tasks of an event loop are not cancelled, and what others do under the transport lock is
  one step. Threads are left out: the locks of \<open>AdbDevice\<close> leave no trace, and \<open>pair_async\<close> is
  \<open>pair\<close>. The code for Python 2, log messages and texts of exceptions are left out. The modules
  that only import names (\<open>__init__.py\<close>) and the settings of the documentation have no definitions.
\<close>

end
